(* ===== verification/Prelude.thy ===== *)
theory Prelude
  imports Main
begin

text \<open>
  Shared vocabulary of the development: the faults a C statement can raise, the result type
  that carries them, its sequencing operator, and the list functions that the abstract
  specifications of the linked structures are written with (insertion and removal at a
  clamped position, index of the first element that satisfies a test).
\<close>

section \<open>Faults and results\<close>

text \<open>
  A C function returns a value or goes wrong. The faults are the ways the sources can go
  wrong: a dereference of NULL, a dereference of a pointer that is not (or no longer) the
  address of an object of the expected type, a \<open>free\<close> of such a pointer, a failed
  \<open>assert\<close>, an array access past the end, a call of \<open>exit\<close> and a loop that
  does not come to an end.
\<close>

datatype cfault =
    NullDeref
  | InvalidPtr
  | BadFree
  | AssertFail
  | OutOfBounds
  | ExitCall int
  | Diverges

type_synonym 'a res = "cfault + 'a"

text \<open>Sequencing of statements: the first fault stops the run.\<close>

definition bindE :: "'a res \<Rightarrow> ('a \<Rightarrow> 'b res) \<Rightarrow> 'b res" where
  "bindE r f = (case r of Inl e \<Rightarrow> Inl e | Inr x \<Rightarrow> f x)"

text \<open>The statement \<open>assert (b)\<close>.\<close>

definition assertE :: "bool \<Rightarrow> unit res" where
  "assertE b = (if b then Inr () else Inl AssertFail)"

lemma bindE_Inl [simp]: "bindE (Inl e) f = Inl e"
  by (simp add: bindE_def)

lemma bindE_Inr [simp]: "bindE (Inr x) f = f x"
  by (simp add: bindE_def)

lemma bindE_assoc: "bindE (bindE r f) g = bindE r (\<lambda>x. bindE (f x) g)"
  by (cases r) simp_all

lemma bindE_eq_Inr: "bindE r f = Inr y \<longleftrightarrow> (\<exists>x. r = Inr x \<and> f x = Inr y)"
  by (cases r) auto

lemma bindE_InrE [elim]:
  assumes "bindE r f = Inr y"
  obtains x where "r = Inr x" and "f x = Inr y"
  using assms by (auto simp: bindE_eq_Inr)

lemma bindE_if: "bindE (if b then r else s) f = (if b then bindE r f else bindE s f)"
  by simp

lemma assertE_True [simp]: "assertE True = Inr ()"
  and assertE_False [simp]: "assertE False = Inl AssertFail"
  by (simp_all add: assertE_def)

section \<open>Collections\<close>

named_theorems heap_simps \<open>reads and writes of the C heap\<close>
named_theorems seg_simps \<open>linked segments under heap updates\<close>

section \<open>Lists addressed by position\<close>

definition insert_nth :: "nat \<Rightarrow> 'a \<Rightarrow> 'a list \<Rightarrow> 'a list" where
  "insert_nth i x xs = take i xs @ x # drop i xs"

definition remove_nth :: "nat \<Rightarrow> 'a list \<Rightarrow> 'a list" where
  "remove_nth i xs = take i xs @ drop (Suc i) xs"

text \<open>
  The documented clamping of an \<open>int\<close> index: zero or a negative index is the first
  position, an index past the end the last one. For an insertion the position after the last
  element counts as well.
\<close>

definition ref_pos :: "int \<Rightarrow> nat \<Rightarrow> nat" where
  "ref_pos i n = min (nat i) (n - 1)"

definition ins_pos :: "int \<Rightarrow> nat \<Rightarrow> nat" where
  "ins_pos i n = min (nat i) n"

text \<open>Index of the first element with \<open>P\<close>, \<open>-1\<close> when there is none.\<close>

fun index_where :: "('a \<Rightarrow> bool) \<Rightarrow> 'a list \<Rightarrow> int" where
  "index_where P [] = -1"
| "index_where P (x # xs) =
     (if P x then 0 else (let k = index_where P xs in if k = -1 then -1 else k + 1))"

lemma length_insert_nth [simp]: "length (insert_nth i x xs) = Suc (length xs)"
  by (simp add: insert_nth_def)

lemma set_insert_nth [simp]: "set (insert_nth i x xs) = insert x (set xs)"
proof -
  have "set (take i xs) \<union> set (drop i xs) = set xs"
    by (metis append_take_drop_id set_append)
  then show ?thesis by (auto simp: insert_nth_def)
qed

lemma distinct_insert_nth: "distinct xs \<Longrightarrow> x \<notin> set xs \<Longrightarrow> distinct (insert_nth i x xs)"
  using set_take_disj_set_drop_if_distinct [of xs i i]
  by (auto simp: insert_nth_def dest: in_set_takeD in_set_dropD)

lemma take_append_le: "k \<le> length xs \<Longrightarrow> take k (xs @ ys) = take k xs"
  by simp

lemma length_remove_nth: "i < length xs \<Longrightarrow> length (remove_nth i xs) = length xs - 1"
  by (simp add: remove_nth_def)

lemma set_remove_nth_subset: "set (remove_nth i xs) \<subseteq> set xs"
  by (auto simp: remove_nth_def dest: in_set_takeD in_set_dropD)

lemma map_insert_nth: "map f (insert_nth i x xs) = insert_nth i (f x) (map f xs)"
  by (simp add: insert_nth_def take_map drop_map)

lemma map_remove_nth: "map f (remove_nth i xs) = remove_nth i (map f xs)"
  by (simp add: remove_nth_def take_map drop_map)

lemma insert_nth_0 [simp]: "insert_nth 0 x xs = x # xs"
  by (simp add: insert_nth_def)

lemma insert_nth_end [simp]: "insert_nth (length xs) x xs = xs @ [x]"
  by (simp add: insert_nth_def)

lemma remove_nth_0 [simp]: "remove_nth 0 (x # xs) = xs"
  by (simp add: remove_nth_def)

lemma remove_nth_Suc [simp]: "remove_nth (Suc i) (x # xs) = x # remove_nth i xs"
  by (simp add: remove_nth_def)

lemma remove_insert_nth: "i \<le> length xs \<Longrightarrow> remove_nth i (insert_nth i x xs) = xs"
  by (simp add: remove_nth_def insert_nth_def)

lemma ref_pos_less: "0 < n \<Longrightarrow> ref_pos i n < n"
  by (simp add: ref_pos_def)

lemma ins_pos_le: "ins_pos i n \<le> n"
  by (simp add: ins_pos_def)

lemma split_at_nth: "i < length xs \<Longrightarrow> xs = take i xs @ xs ! i # drop (Suc i) xs"
  by (simp add: id_take_nth_drop)

lemma split_around:
  assumes "0 < i" and "i < length xs"
  obtains ys p r zs where "xs = ys @ p # r # zs" and "i = Suc (length ys)"
proof
  show "xs = take (i - 1) xs @ xs ! (i - 1) # xs ! i # drop (Suc i) xs"
    using assms by (metis Suc_pred' Cons_nth_drop_Suc append_take_drop_id less_imp_diff_less)
  show "i = Suc (length (take (i - 1) xs))" using assms by simp
qed

lemma insert_nth_split [simp]:
  "insert_nth (Suc (length ys)) x (ys @ p # zs) = ys @ p # x # zs"
  by (simp add: insert_nth_def)

lemma remove_nth_split [simp]: "remove_nth (length ys) (ys @ p # zs) = ys @ zs"
  by (simp add: remove_nth_def)

lemma index_where_ge: "index_where P xs \<ge> -1"
  by (induction xs) (auto simp: Let_def)

lemma index_where_Nil_iff: "index_where P xs = -1 \<longleftrightarrow> (\<forall>x\<in>set xs. \<not> P x)"
proof (induction xs)
  case (Cons x xs)
  then show ?case using index_where_ge [of P xs] by (auto simp: Let_def)
qed simp

lemma index_where_found:
  "index_where P xs = k \<Longrightarrow> k \<noteq> -1 \<Longrightarrow>
     0 \<le> k \<and> nat k < length xs \<and> P (xs ! nat k) \<and> (\<forall>j < nat k. \<not> P (xs ! j))"
proof (induction xs arbitrary: k)
  case (Cons x xs)
  show ?case
  proof (cases "P x")
    case False
    let ?m = "index_where P xs"
    have m: "?m \<noteq> -1" "k = ?m + 1" using Cons.prems False by (auto simp: Let_def split: if_splits)
    have IH: "0 \<le> ?m \<and> nat ?m < length xs \<and> P (xs ! nat ?m) \<and> (\<forall>j < nat ?m. \<not> P (xs ! j))"
      using Cons.IH [of ?m] m by simp
    then have "nat k = Suc (nat ?m)" using m by linarith
    then show ?thesis using IH m False by (auto simp: less_Suc_eq_0_disj)
  qed (use Cons.prems in auto)
qed simp

lemma index_where_less: "index_where P xs < int (length xs)"
  using index_where_found [of P xs "index_where P xs"] by (cases "index_where P xs = -1") auto

lemma index_where_cong:
  "(\<And>x. x \<in> set xs \<Longrightarrow> P x = Q x) \<Longrightarrow> index_where P xs = index_where Q xs"
  by (induction xs) auto

lemma index_where_map: "index_where P (map f xs) = index_where (P \<circ> f) xs"
  by (induction xs) (simp_all add: Let_def)

lemma index_where_eq_nth:
  "distinct xs \<Longrightarrow> i < length xs \<Longrightarrow> index_where (\<lambda>x. x = xs ! i) xs = int i"
proof (induction xs arbitrary: i)
  case (Cons x xs)
  then show ?case by (cases i) (auto simp: Let_def)
qed simp

end
