(* ===== verification/CHeap.thy ===== *)
theory CHeap
  imports Prelude
begin

text \<open>
  The C heap: a finite set of live objects, each at an address, address \<open>0\<close> being NULL.
  \<open>malloc\<close> takes the next address and never gives an address out twice, so that a use
  after \<open>free\<close> and a second \<open>free\<close> of an object are faults rather than a silent
  access to another object. The number of allocations that still succeed is part of the heap:
  when it is used up, \<open>malloc\<close> returns NULL, as the C library may. The objects are a
  parameter of the heap: each component stores its own structs in it.
\<close>

type_synonym addr = nat

record 'c heap =
  next_addr :: addr
  budget :: nat
  cells :: "addr \<Rightarrow> 'c option"

text \<open>A heap with nothing in it, from which \<open>n\<close> allocations succeed.\<close>

definition empty_heap :: "nat \<Rightarrow> 'c heap" where
  "empty_heap n = \<lparr>next_addr = 1, budget = n, cells = (\<lambda>_. None)\<rparr>"

text \<open>\<open>malloc\<close>: the object's content before the program has written to it is \<open>c\<close>.\<close>

definition malloc :: "'c \<Rightarrow> 'c heap \<Rightarrow> addr \<times> 'c heap" where
  "malloc c h =
     (if budget h = 0 then (0, h)
      else (next_addr h,
            h\<lparr>next_addr := Suc (next_addr h), budget := budget h - 1,
              cells := (cells h)(next_addr h \<mapsto> c)\<rparr>))"

text \<open>Read and write through a pointer.\<close>

definition load :: "'c heap \<Rightarrow> addr \<Rightarrow> 'c res" where
  "load h p =
     (if p = 0 then Inl NullDeref
      else case cells h p of None \<Rightarrow> Inl InvalidPtr | Some c \<Rightarrow> Inr c)"

definition store :: "'c heap \<Rightarrow> addr \<Rightarrow> 'c \<Rightarrow> 'c heap res" where
  "store h p c = bindE (load h p) (\<lambda>_. Inr (h\<lparr>cells := (cells h)(p \<mapsto> c)\<rparr>))"

text \<open>\<open>free\<close>: nothing happens for NULL, a pointer that is not live is a fault.\<close>

definition cfree :: "'c heap \<Rightarrow> addr \<Rightarrow> 'c heap res" where
  "cfree h p =
     (if p = 0 then Inr h
      else case cells h p of None \<Rightarrow> Inl BadFree
                           | Some _ \<Rightarrow> Inr (h\<lparr>cells := (cells h)(p := None)\<rparr>))"

text \<open>
  Well-formed heaps: only addresses that \<open>malloc\<close> has given out are live.
\<close>

definition heap_ok :: "'c heap \<Rightarrow> bool" where
  "heap_ok h \<longleftrightarrow> 0 < next_addr h \<and> (\<forall>a. cells h a \<noteq> None \<longrightarrow> 0 < a \<and> a < next_addr h)"

lemma heap_ok_empty [simp]: "heap_ok (empty_heap n)"
  by (simp add: heap_ok_def empty_heap_def)

lemma heap_ok_pos: "heap_ok h \<Longrightarrow> 0 < next_addr h"
  by (simp add: heap_ok_def)

lemma heap_ok_live: "heap_ok h \<Longrightarrow> cells h a = Some c \<Longrightarrow> 0 < a \<and> a < next_addr h"
  by (auto simp: heap_ok_def)

lemma heap_ok_fresh [simp]: "heap_ok h \<Longrightarrow> cells h (next_addr h) = None"
  by (metis heap_ok_live less_irrefl not_Some_eq)

lemma heap_ok_null [simp]: "heap_ok h \<Longrightarrow> cells h 0 = None"
  by (metis heap_ok_live less_irrefl not_Some_eq)

text \<open>The heap after a successful allocation, a write and a release.\<close>

definition alloced :: "'c \<Rightarrow> 'c heap \<Rightarrow> 'c heap" where
  "alloced c h = h\<lparr>next_addr := Suc (next_addr h), budget := budget h - 1,
                   cells := (cells h)(next_addr h \<mapsto> c)\<rparr>"

definition written :: "addr \<Rightarrow> 'c \<Rightarrow> 'c heap \<Rightarrow> 'c heap" where
  "written p c h = h\<lparr>cells := (cells h)(p \<mapsto> c)\<rparr>"

definition freed :: "addr \<Rightarrow> 'c heap \<Rightarrow> 'c heap" where
  "freed p h = h\<lparr>cells := (cells h)(p := None)\<rparr>"

lemma malloc_ok [heap_simps]: "0 < budget h \<Longrightarrow> malloc c h = (next_addr h, alloced c h)"
  by (simp add: malloc_def alloced_def)

lemma malloc_fail [heap_simps]: "budget h = 0 \<Longrightarrow> malloc c h = (0, h)"
  by (simp add: malloc_def)

lemma load_null [simp]: "load h 0 = Inl NullDeref"
  by (simp add: load_def)

lemma load_ok [heap_simps]: "cells h p = Some c \<Longrightarrow> heap_ok h \<Longrightarrow> load h p = Inr c"
  using heap_ok_live [of h p c] by (simp add: load_def)

lemma store_ok [heap_simps]:
  "cells h p = Some c \<Longrightarrow> heap_ok h \<Longrightarrow> store h p d = Inr (written p d h)"
  by (simp add: store_def load_ok written_def)

lemma cfree_null [simp]: "cfree h 0 = Inr h"
  by (simp add: cfree_def)

lemma cfree_ok [heap_simps]:
  "cells h p = Some c \<Longrightarrow> heap_ok h \<Longrightarrow> cfree h p = Inr (freed p h)"
  using heap_ok_live [of h p c] by (simp add: cfree_def freed_def)

lemma cfree_dead [heap_simps]: "cells h p = None \<Longrightarrow> p \<noteq> 0 \<Longrightarrow> cfree h p = Inl BadFree"
  by (simp add: cfree_def)

lemma heap_ok_alloced [simp]: "heap_ok h \<Longrightarrow> heap_ok (alloced c h)"
  by (auto simp: heap_ok_def alloced_def less_Suc_eq)

lemma heap_ok_written [simp]: "heap_ok h \<Longrightarrow> cells h p \<noteq> None \<Longrightarrow> heap_ok (written p c h)"
  by (auto simp: heap_ok_def written_def)

lemma heap_ok_freed [simp]: "heap_ok h \<Longrightarrow> heap_ok (freed p h)"
  by (auto simp: heap_ok_def freed_def)

lemma cells_alloced [simp]: "cells (alloced c h) = (cells h)(next_addr h \<mapsto> c)"
  by (simp add: alloced_def)

lemma cells_written [simp]: "cells (written p c h) = (cells h)(p \<mapsto> c)"
  by (simp add: written_def)

lemma cells_freed [simp]: "cells (freed p h) = (cells h)(p := None)"
  by (simp add: freed_def)

lemma next_addr_alloced [simp]: "next_addr (alloced c h) = Suc (next_addr h)"
  and next_addr_written [simp]: "next_addr (written p c h) = next_addr h"
  and next_addr_freed [simp]: "next_addr (freed p h) = next_addr h"
  by (simp_all add: alloced_def written_def freed_def)

lemma budget_alloced [simp]: "budget (alloced c h) = budget h - 1"
  and budget_written [simp]: "budget (written p c h) = budget h"
  and budget_freed [simp]: "budget (freed p h) = budget h"
  by (simp_all add: alloced_def written_def freed_def)

text \<open>
  A path through distinct live objects is shorter than the number of addresses given out:
  this is the fuel that the traversals of linked structures run on.
\<close>

lemma live_path_length:
  assumes ok: "heap_ok h" and d: "distinct as" and live: "\<And>a. a \<in> set as \<Longrightarrow> cells h a \<noteq> None"
  shows "length as < next_addr h"
proof -
  have "set as \<subseteq> {0<..<next_addr h}"
  proof
    fix a assume "a \<in> set as"
    then obtain c where "cells h a = Some c" using live by blast
    then show "a \<in> {0<..<next_addr h}" using heap_ok_live [OF ok] by simp
  qed
  then have "card (set as) \<le> card {0<..<next_addr h}"
    by (intro card_mono) auto
  then have "length as \<le> next_addr h - 1"
    using distinct_card [OF d] by simp
  then show ?thesis using heap_ok_pos [OF ok] by simp
qed

section \<open>Sequences of nodes\<close>

text \<open>
  A linked structure is described by the sequence of its nodes, each the pair of its address
  and its content. The first and the last address, with the value to take when there is none.
\<close>

definition first_of :: "(addr \<times> 'e) list \<Rightarrow> addr \<Rightarrow> addr" where
  "first_of ns nx = (case ns of [] \<Rightarrow> nx | n # _ \<Rightarrow> fst n)"

definition last_of :: "addr \<Rightarrow> (addr \<times> 'e) list \<Rightarrow> addr" where
  "last_of pr ns = (if ns = [] then pr else fst (last ns))"

lemma first_of_Nil [simp]: "first_of [] nx = nx"
  and first_of_Cons [simp]: "first_of (n # ns) nx = fst n"
  by (simp_all add: first_of_def)

lemma first_of_append: "first_of (xs @ ys) nx = first_of xs (first_of ys nx)"
  by (cases xs) simp_all

lemma last_of_Nil [simp]: "last_of pr [] = pr"
  and last_of_Cons [simp]: "last_of pr (n # ns) = last_of (fst n) ns"
  and last_of_append [simp]: "last_of pr (xs @ ys) = last_of (last_of pr xs) ys"
  by (simp_all add: last_of_def)

section \<open>Frames\<close>

text \<open>Nothing outside the addresses \<open>A\<close> has changed.\<close>

definition frame :: "addr set \<Rightarrow> 'c heap \<Rightarrow> 'c heap \<Rightarrow> bool" where
  "frame A h h' \<longleftrightarrow> (\<forall>a. a \<notin> A \<longrightarrow> cells h' a = cells h a)"

lemma frameD: "frame A h h' \<Longrightarrow> a \<notin> A \<Longrightarrow> cells h' a = cells h a"
  by (simp add: frame_def)

lemma frame_refl [simp]: "frame A h h"
  by (simp add: frame_def)

lemma frame_trans: "frame A h h' \<Longrightarrow> frame A h' h'' \<Longrightarrow> frame A h h''"
  by (simp add: frame_def)

lemma frame_mono: "frame A h h' \<Longrightarrow> A \<subseteq> B \<Longrightarrow> frame B h h'"
  by (auto simp: frame_def)

section \<open>Live addresses\<close>

definition alive :: "'c heap \<Rightarrow> addr set" where
  "alive h = {a. cells h a \<noteq> None}"

lemma alive_iff: "a \<in> alive h \<longleftrightarrow> cells h a \<noteq> None"
  by (simp add: alive_def)

lemma alive_written [simp]: "alive (written p c h) = insert p (alive h)"
  and alive_freed [simp]: "alive (freed p h) = alive h - {p}"
  and alive_alloced [simp]: "alive (alloced c h) = insert (next_addr h) (alive h)"
  by (auto simp: alive_def)

lemma alive_empty: "alive h = {} \<longleftrightarrow> (\<forall>a. cells h a = None)"
  by (auto simp: alive_def)

end
