(* ===== verification/Dplist.thy ===== *)
theory Dplist
  imports CHeap
begin

text \<open>
  The doubly linked pointer list of lib/dplist.c: the struct types, the callbacks and every
  operation of the file, statement by statement over the C heap. A pointer to a list, to a
  node or to an element is an address. The three function pointers of \<open>struct dplist\<close>
  are set once by \<open>dpl_create\<close> and never written again, so they are passed to the
  operations that call them as the record \<open>callbacks\<close>. A traversal runs on fuel, the
  number of addresses given out so far: it ends in \<open>Diverges\<close> exactly when the loop has
  gone round more often than there are addresses. C \<open>int\<close> values are modelled by
  \<open>int\<close>: an index or a count that leaves the 32-bit range needs more than \<open>2 ^ 31\<close>
  nodes.
\<close>

section \<open>Structs and callbacks\<close>

record dplist_node =
  nd_prev :: addr
  nd_next :: addr
  nd_element :: addr

text \<open>
  The objects in the heap of a program that uses the list: nodes, list structs (of which only
  \<open>head\<close> is mutable) and the client's own objects.
\<close>

datatype 'o dcell =
    Node dplist_node
  | DList addr
  | Obj 'o

type_synonym 'o dheap = "'o dcell heap"

text \<open>
  \<open>element_free\<close> gets the address of the element pointer: the model gives it the
  pointer's value and takes the value that it leaves there.
\<close>

record 'o callbacks =
  element_copy :: "'o dheap \<Rightarrow> addr \<Rightarrow> (addr \<times> 'o dheap) res"
  element_free :: "'o dheap \<Rightarrow> addr \<Rightarrow> (addr \<times> 'o dheap) res"
  element_compare :: "'o dheap \<Rightarrow> addr \<Rightarrow> addr \<Rightarrow> int res"

section \<open>Field access\<close>

definition read_node :: "'o dheap \<Rightarrow> addr \<Rightarrow> dplist_node res" where
  "read_node h p =
     bindE (load h p) (\<lambda>c. case c of Node n \<Rightarrow> Inr n | _ \<Rightarrow> Inl InvalidPtr)"

definition upd_node ::
    "'o dheap \<Rightarrow> addr \<Rightarrow> (dplist_node \<Rightarrow> dplist_node) \<Rightarrow> 'o dheap res" where
  "upd_node h p f = bindE (read_node h p) (\<lambda>n. store h p (Node (f n)))"

definition get_head :: "'o dheap \<Rightarrow> addr \<Rightarrow> addr res" where
  "get_head h l =
     bindE (load h l) (\<lambda>c. case c of DList p \<Rightarrow> Inr p | _ \<Rightarrow> Inl InvalidPtr)"

definition set_head :: "'o dheap \<Rightarrow> addr \<Rightarrow> addr \<Rightarrow> 'o dheap res" where
  "set_head h l p = bindE (get_head h l) (\<lambda>_. store h l (DList p))"

text \<open>The content of a node that \<open>malloc\<close> has just returned.\<close>

definition raw_node :: dplist_node where
  "raw_node = \<lparr>nd_prev = 0, nd_next = 0, nd_element = 0\<rparr>"

section \<open>The operations\<close>

definition dpl_create :: "'o dheap \<Rightarrow> (addr \<times> 'o dheap) res" where
  "dpl_create h =
     (let (list, h1) = malloc (DList 0) h in
      bindE (set_head h1 list 0) (\<lambda>h2. Inr (list, h2)))"

fun free_loop :: "nat \<Rightarrow> 'o callbacks \<Rightarrow> 'o dheap \<Rightarrow> addr \<Rightarrow> bool \<Rightarrow> 'o dheap res" where
  "free_loop 0 cb h list free_element = Inl Diverges"
| "free_loop (Suc fuel) cb h list free_element =
     bindE (get_head h list) (\<lambda>temp.
     if temp = 0 then Inr h
     else
       bindE (read_node h temp) (\<lambda>n.
       bindE (set_head h list (nd_next n)) (\<lambda>h1.
       bindE (if free_element \<and> nd_element n \<noteq> 0
              then bindE (element_free cb h1 (nd_element n)) (\<lambda>(e, h2).
                   upd_node h2 temp (nd_element_update (\<lambda>_. e)))
              else Inr h1) (\<lambda>h3.
       bindE (read_node h3 temp) (\<lambda>n3.
       bindE (cfree h3 (nd_element n3)) (\<lambda>h4.
       bindE (cfree h4 temp) (\<lambda>h5.
       free_loop fuel cb h5 list free_element)))))))"

text \<open>The result is the value left in \<open>*list\<close> and the heap.\<close>

definition dpl_free :: "'o callbacks \<Rightarrow> 'o dheap \<Rightarrow> addr \<Rightarrow> bool \<Rightarrow> (addr \<times> 'o dheap) res" where
  "dpl_free cb h list free_element =
     (if list = 0 then Inr (list, h)
      else
        bindE (free_loop (next_addr h) cb h list free_element) (\<lambda>h1.
        bindE (cfree h1 list) (\<lambda>h2. Inr (0, h2))))"

fun size_loop :: "nat \<Rightarrow> 'o dheap \<Rightarrow> addr \<Rightarrow> int \<Rightarrow> int res" where
  "size_loop 0 h temp_node count = Inl Diverges"
| "size_loop (Suc fuel) h temp_node count =
     (if temp_node = 0 then Inr count
      else bindE (read_node h temp_node) (\<lambda>n. size_loop fuel h (nd_next n) (count + 1)))"

definition dpl_size :: "'o dheap \<Rightarrow> addr \<Rightarrow> int res" where
  "dpl_size h list =
     (if list = 0 then Inr (-1)
      else bindE (get_head h list) (\<lambda>hd. size_loop (next_addr h) h hd 0))"

fun ref_loop :: "nat \<Rightarrow> 'o dheap \<Rightarrow> addr \<Rightarrow> int \<Rightarrow> int \<Rightarrow> addr res" where
  "ref_loop 0 h dummy count index = Inl Diverges"
| "ref_loop (Suc fuel) h dummy count index =
     bindE (read_node h dummy) (\<lambda>n.
     if nd_next n = 0 then Inr dummy
     else if index \<le> count then Inr dummy
     else ref_loop fuel h (nd_next n) (count + 1) index)"

definition dpl_get_reference_at_index :: "'o dheap \<Rightarrow> addr \<Rightarrow> int \<Rightarrow> addr res" where
  "dpl_get_reference_at_index h list index =
     (if list = 0 then Inr 0
      else bindE (get_head h list) (\<lambda>hd.
           if hd = 0 then Inr 0 else ref_loop (next_addr h) h hd 0 index))"

definition dpl_get_element_at_index :: "'o dheap \<Rightarrow> addr \<Rightarrow> int \<Rightarrow> addr res" where
  "dpl_get_element_at_index h list index =
     bindE (dpl_get_reference_at_index h list index) (\<lambda>current_node.
     if current_node = 0 then Inr 0
     else bindE (read_node h current_node) (\<lambda>n. Inr (nd_element n)))"

fun index_loop :: "nat \<Rightarrow> 'o callbacks \<Rightarrow> 'o dheap \<Rightarrow> addr \<Rightarrow> addr \<Rightarrow> int \<Rightarrow> int res" where
  "index_loop 0 cb h temp_node element index = Inl Diverges"
| "index_loop (Suc fuel) cb h temp_node element index =
     (if temp_node = 0 then Inr (-1)
      else bindE (read_node h temp_node) (\<lambda>n.
        if element = 0 \<and> nd_element n = 0 then Inr index
        else if nd_element n = 0 then index_loop fuel cb h (nd_next n) element (index + 1)
        else if element = 0 then index_loop fuel cb h (nd_next n) element (index + 1)
        else bindE (element_compare cb h (nd_element n) element) (\<lambda>c.
          if c = 0 then Inr index
          else index_loop fuel cb h (nd_next n) element (index + 1))))"

definition dpl_get_index_of_element :: "'o callbacks \<Rightarrow> 'o dheap \<Rightarrow> addr \<Rightarrow> addr \<Rightarrow> int res" where
  "dpl_get_index_of_element cb h list element =
     (if list = 0 then Inr (-1)
      else bindE (get_head h list) (\<lambda>hd.
           if hd = 0 then Inr (-1) else index_loop (next_addr h) cb h hd element 0))"

text \<open>
  The pointer surgery of the insertion: \<open>list_node\<close>, which already holds its element,
  becomes the node at \<open>index\<close>. The four cases are those of the source: the empty list,
  the front, in front of the node at \<open>index\<close>, after the last node.
\<close>

definition link_node :: "'o dheap \<Rightarrow> addr \<Rightarrow> addr \<Rightarrow> int \<Rightarrow> 'o dheap res" where
  "link_node h list list_node index =
     bindE (get_head h list) (\<lambda>hd.
     if hd = 0 then
       bindE (upd_node h list_node (nd_prev_update (\<lambda>_. 0))) (\<lambda>h1.
       bindE (upd_node h1 list_node (nd_next_update (\<lambda>_. 0))) (\<lambda>h2.
       set_head h2 list list_node))
     else if index \<le> 0 then
       bindE (upd_node h list_node (nd_prev_update (\<lambda>_. 0))) (\<lambda>h1.
       bindE (upd_node h1 list_node (nd_next_update (\<lambda>_. hd))) (\<lambda>h2.
       bindE (upd_node h2 hd (nd_prev_update (\<lambda>_. list_node))) (\<lambda>h3.
       set_head h3 list list_node)))
     else
       bindE (dpl_get_reference_at_index h list index) (\<lambda>ref_at_index.
       bindE (assertE (ref_at_index \<noteq> 0)) (\<lambda>_.
       bindE (dpl_size h list) (\<lambda>size.
       if index < size then
         bindE (read_node h ref_at_index) (\<lambda>r.
         bindE (upd_node h list_node (nd_prev_update (\<lambda>_. nd_prev r))) (\<lambda>h1.
         bindE (upd_node h1 list_node (nd_next_update (\<lambda>_. ref_at_index))) (\<lambda>h2.
         bindE (upd_node h2 (nd_prev r) (nd_next_update (\<lambda>_. list_node))) (\<lambda>h3.
         upd_node h3 ref_at_index (nd_prev_update (\<lambda>_. list_node))))))
       else
         bindE (read_node h ref_at_index) (\<lambda>r.
         bindE (assertE (nd_next r = 0)) (\<lambda>_.
         bindE (upd_node h list_node (nd_next_update (\<lambda>_. 0))) (\<lambda>h1.
         bindE (upd_node h1 list_node (nd_prev_update (\<lambda>_. ref_at_index))) (\<lambda>h2.
         upd_node h2 ref_at_index (nd_next_update (\<lambda>_. list_node))))))))))"

text \<open>
  The insertion: \<open>malloc\<close> is not checked, so the first write to the new node is where a
  failed allocation shows.
\<close>

definition dpl_insert_at_index ::
    "'o callbacks \<Rightarrow> 'o dheap \<Rightarrow> addr \<Rightarrow> addr \<Rightarrow> int \<Rightarrow> bool \<Rightarrow> (addr \<times> 'o dheap) res" where
  "dpl_insert_at_index cb h list element index insert_copy =
     (if list = 0 then Inr (0, h)
      else
        let (list_node, h1) = malloc (Node raw_node) h in
        bindE (if insert_copy then element_copy cb h1 element else Inr (element, h1)) (\<lambda>(e, h2).
        bindE (upd_node h2 list_node (nd_element_update (\<lambda>_. e))) (\<lambda>h3.
        bindE (link_node h3 list list_node index) (\<lambda>h4. Inr (list, h4)))))"

text \<open>
  The end of the removal: the element is released through the callback when asked to, and
  through \<open>free\<close> in every case; then the node.
\<close>

definition release_node ::
    "'o callbacks \<Rightarrow> 'o dheap \<Rightarrow> addr \<Rightarrow> bool \<Rightarrow> 'o dheap res" where
  "release_node cb h to_delete_node free_element =
     bindE (if free_element
            then bindE (read_node h to_delete_node) (\<lambda>n.
                 bindE (element_free cb h (nd_element n)) (\<lambda>(e, h1).
                 upd_node h1 to_delete_node (nd_element_update (\<lambda>_. e))))
            else Inr h) (\<lambda>h2.
     bindE (read_node h2 to_delete_node) (\<lambda>n2.
     bindE (cfree h2 (nd_element n2)) (\<lambda>h3.
     cfree h3 to_delete_node)))"

text \<open>
  The pointer surgery of the removal, for a list that is not empty: the only node, the first
  of several, one in the middle, the last.
\<close>

definition unlink_node :: "'o dheap \<Rightarrow> addr \<Rightarrow> addr \<Rightarrow> addr \<Rightarrow> int \<Rightarrow> 'o dheap res" where
  "unlink_node h list list_node to_delete_node index =
     bindE (read_node h list_node) (\<lambda>hd.
     if nd_next hd = 0 then set_head h list 0
     else if index \<le> 0 then
       bindE (set_head h list (nd_next hd)) (\<lambda>h1.
       upd_node h1 (nd_next hd) (nd_prev_update (\<lambda>_. 0)))
     else
       bindE (dpl_size h list) (\<lambda>size.
       bindE (read_node h to_delete_node) (\<lambda>d.
       if index < size - 1 then
         bindE (upd_node h (nd_next d) (nd_prev_update (\<lambda>_. nd_prev d))) (\<lambda>h1.
         upd_node h1 (nd_prev d) (nd_next_update (\<lambda>_. nd_next d)))
       else upd_node h (nd_prev d) (nd_next_update (\<lambda>_. 0)))))"

definition dpl_remove_at_index ::
    "'o callbacks \<Rightarrow> 'o dheap \<Rightarrow> addr \<Rightarrow> int \<Rightarrow> bool \<Rightarrow> (addr \<times> 'o dheap) res" where
  "dpl_remove_at_index cb h list index free_element =
     (if list = 0 then Inr (0, h)
      else bindE (get_head h list) (\<lambda>list_node.
        if list_node = 0 then Inr (list, h)
        else
          bindE (dpl_get_reference_at_index h list index) (\<lambda>to_delete_node.
          bindE (unlink_node h list list_node to_delete_node index) (\<lambda>h1.
          bindE (release_node cb h1 to_delete_node free_element) (\<lambda>h2.
          Inr (list, h2))))))"

section \<open>The operations on references\<close>

text \<open>The search loop that the operations on references share in the sources.\<close>

fun find_ref :: "nat \<Rightarrow> 'o dheap \<Rightarrow> addr \<Rightarrow> addr \<Rightarrow> int \<Rightarrow> (int \<times> dplist_node) option res" where
  "find_ref 0 h temp_node reference count = Inl Diverges"
| "find_ref (Suc fuel) h temp_node reference count =
     (if temp_node = 0 then Inr None
      else bindE (read_node h temp_node) (\<lambda>n.
        if temp_node = reference then Inr (Some (count, n))
        else find_ref fuel h (nd_next n) reference (count + 1)))"

definition search_ref :: "'o dheap \<Rightarrow> addr \<Rightarrow> addr \<Rightarrow> (int \<times> dplist_node) option res" where
  "search_ref h list reference =
     (if list = 0 \<or> reference = 0 then Inr None
      else bindE (get_head h list) (\<lambda>hd. find_ref (next_addr h) h hd reference 0))"

definition dpl_get_element_at_reference :: "'o dheap \<Rightarrow> addr \<Rightarrow> addr \<Rightarrow> addr res" where
  "dpl_get_element_at_reference h list reference =
     bindE (search_ref h list reference) (\<lambda>r.
     Inr (case r of None \<Rightarrow> 0 | Some (_, n) \<Rightarrow> nd_element n))"

definition dpl_get_index_of_reference :: "'o dheap \<Rightarrow> addr \<Rightarrow> addr \<Rightarrow> int res" where
  "dpl_get_index_of_reference h list reference =
     bindE (search_ref h list reference) (\<lambda>r.
     Inr (case r of None \<Rightarrow> -1 | Some (count, _) \<Rightarrow> count))"

definition dpl_get_first_reference :: "'o dheap \<Rightarrow> addr \<Rightarrow> addr res" where
  "dpl_get_first_reference h list = (if list = 0 then Inr 0 else get_head h list)"

definition dpl_get_last_reference :: "'o dheap \<Rightarrow> addr \<Rightarrow> addr res" where
  "dpl_get_last_reference h list =
     (if list = 0 then Inr 0
      else bindE (get_head h list) (\<lambda>hd.
        if hd = 0 then Inr 0
        else bindE (dpl_size h list) (\<lambda>size. dpl_get_reference_at_index h list (size - 1))))"

definition dpl_get_next_reference :: "'o dheap \<Rightarrow> addr \<Rightarrow> addr \<Rightarrow> addr res" where
  "dpl_get_next_reference h list reference =
     bindE (search_ref h list reference) (\<lambda>r.
     Inr (case r of None \<Rightarrow> 0 | Some (_, n) \<Rightarrow> nd_next n))"

definition dpl_get_previous_reference :: "'o dheap \<Rightarrow> addr \<Rightarrow> addr \<Rightarrow> addr res" where
  "dpl_get_previous_reference h list reference =
     bindE (search_ref h list reference) (\<lambda>r.
     Inr (case r of None \<Rightarrow> 0 | Some (_, n) \<Rightarrow> nd_prev n))"

definition dpl_get_reference_of_element :: "'o callbacks \<Rightarrow> 'o dheap \<Rightarrow> addr \<Rightarrow> addr \<Rightarrow> addr res" where
  "dpl_get_reference_of_element cb h list element =
     (if list = 0 then Inr 0
      else bindE (get_head h list) (\<lambda>hd.
        if hd = 0 then Inr 0
        else bindE (dpl_get_index_of_element cb h list element) (\<lambda>index.
          if index = -1 then Inr 0 else dpl_get_reference_at_index h list index)))"

definition dpl_insert_at_reference ::
    "'o callbacks \<Rightarrow> 'o dheap \<Rightarrow> addr \<Rightarrow> addr \<Rightarrow> addr \<Rightarrow> bool \<Rightarrow> (addr \<times> 'o dheap) res" where
  "dpl_insert_at_reference cb h list element reference insert_copy =
     (if list = 0 then Inr (0, h)
      else if reference = 0 then Inr (0, h)
      else bindE (dpl_get_index_of_reference h list reference) (\<lambda>index.
        if index = -1 then Inr (list, h)
        else dpl_insert_at_index cb h list element index insert_copy))"

text \<open>
  The search of \<open>dpl_insert_sorted\<close>: a comparison result that is neither 1 nor at most 0
  leaves the loop where it is.
\<close>

fun sorted_loop :: "nat \<Rightarrow> 'o callbacks \<Rightarrow> 'o dheap \<Rightarrow> addr \<Rightarrow> addr \<Rightarrow> int \<Rightarrow> int res" where
  "sorted_loop 0 cb h current_node element index = Inl Diverges"
| "sorted_loop (Suc fuel) cb h current_node element index =
     (if current_node = 0 then Inr index
      else bindE (read_node h current_node) (\<lambda>n.
        bindE (if nd_element n = 0 then Inr 1
               else element_compare cb h element (nd_element n)) (\<lambda>compare.
        if compare = 1 then sorted_loop fuel cb h (nd_next n) element (index + 1)
        else if compare \<le> 0 then Inr index
        else sorted_loop fuel cb h current_node element index)))"

definition dpl_insert_sorted ::
    "'o callbacks \<Rightarrow> 'o dheap \<Rightarrow> addr \<Rightarrow> addr \<Rightarrow> bool \<Rightarrow> (addr \<times> 'o dheap) res" where
  "dpl_insert_sorted cb h list element insert_copy =
     (if list = 0 then Inr (0, h)
      else bindE (get_head h list) (\<lambda>hd.
        if hd = 0 then dpl_insert_at_index cb h list element 0 insert_copy
        else if element = 0 then dpl_insert_at_index cb h list element 0 insert_copy
        else bindE (sorted_loop (next_addr h) cb h hd element 0) (\<lambda>index.
          dpl_insert_at_index cb h list element index insert_copy)))"

definition dpl_remove_at_reference ::
    "'o callbacks \<Rightarrow> 'o dheap \<Rightarrow> addr \<Rightarrow> addr \<Rightarrow> bool \<Rightarrow> (addr \<times> 'o dheap) res" where
  "dpl_remove_at_reference cb h list reference free_element =
     (if list = 0 then Inr (0, h)
      else bindE (get_head h list) (\<lambda>hd.
        if hd = 0 then Inr (list, h)
        else if reference = 0 then Inr (0, h)
        else bindE (dpl_get_index_of_reference h list reference) (\<lambda>index.
          if index = -1 then Inr (list, h)
          else dpl_remove_at_index cb h list index free_element)))"

definition dpl_remove_element ::
    "'o callbacks \<Rightarrow> 'o dheap \<Rightarrow> addr \<Rightarrow> addr \<Rightarrow> bool \<Rightarrow> (addr \<times> 'o dheap) res" where
  "dpl_remove_element cb h list element free_element =
     (if list = 0 then Inr (0, h)
      else bindE (get_head h list) (\<lambda>hd.
        if hd = 0 then Inr (list, h)
        else bindE (dpl_get_index_of_element cb h list element) (\<lambda>index.
          if index = -1 then Inr (list, h)
          else dpl_remove_at_index cb h list index free_element)))"

end
