(* ===== verification/Dplist_Segments.thy ===== *)
theory Dplist_Segments
  imports Dplist
begin

text \<open>
  What it means that a heap holds a doubly linked list: the relation \<open>dlist h l ns\<close>
  between a heap, the address of a list struct and the sequence of its nodes, each given as
  the pair of its address and its element pointer. Linked segments split at any node, do not
  depend on the rest of the heap, and follow the writes that the operations make at their
  ends.
\<close>

section \<open>Segments\<close>

type_synonym dnode = "addr \<times> addr"

text \<open>
  \<open>seg h pr ns nx\<close>: the nodes \<open>ns\<close> are linked in this order, the first one's
  \<open>prev\<close> is \<open>pr\<close> and the last one's \<open>next\<close> is \<open>nx\<close>.
\<close>

fun seg :: "'o dheap \<Rightarrow> addr \<Rightarrow> dnode list \<Rightarrow> addr \<Rightarrow> bool" where
  "seg h pr [] nx = True"
| "seg h pr ((a, e) # ns) nx =
     (cells h a = Some (Node \<lparr>nd_prev = pr, nd_next = first_of ns nx, nd_element = e\<rparr>) \<and>
      seg h a ns nx)"

definition dlist :: "'o dheap \<Rightarrow> addr \<Rightarrow> dnode list \<Rightarrow> bool" where
  "dlist h l ns \<longleftrightarrow>
     heap_ok h \<and> cells h l = Some (DList (first_of ns 0)) \<and> seg h 0 ns 0 \<and> distinct (map fst ns)"

lemma seg_append [simp]:
  "seg h pr (xs @ ys) nx = (seg h pr xs (first_of ys nx) \<and> seg h (last_of pr xs) ys nx)"
proof (induction xs arbitrary: pr)
  case (Cons n xs)
  then show ?case by (cases n) (simp add: first_of_append)
qed simp

lemma seg_cong:
  "(\<And>a. a \<in> fst ` set ns \<Longrightarrow> cells h' a = cells h a) \<Longrightarrow> seg h' pr ns nx = seg h pr ns nx"
proof (induction ns arbitrary: pr)
  case (Cons n ns)
  obtain a e where n: "n = (a, e)" by (cases n)
  have "cells h' a = cells h a" using Cons.prems n by simp
  moreover have "seg h' a ns nx = seg h a ns nx" using Cons.prems by (intro Cons.IH) simp
  ultimately show ?case by (simp add: n)
qed simp

lemma seg_written [simp]:
  "p \<notin> fst ` set ns \<Longrightarrow> seg (written p c h) pr ns nx = seg h pr ns nx"
  by (rule seg_cong) auto

lemma seg_freed [simp]:
  "p \<notin> fst ` set ns \<Longrightarrow> seg (freed p h) pr ns nx = seg h pr ns nx"
  by (rule seg_cong) auto

lemma seg_live: "seg h pr ns nx \<Longrightarrow> (a, e) \<in> set ns \<Longrightarrow> \<exists>n. cells h a = Some (Node n) \<and> nd_element n = e"
  by (induction ns arbitrary: pr) auto

lemma seg_alloced [simp]:
  assumes "heap_ok h"
  shows "seg h pr ns nx \<Longrightarrow> seg (alloced c h) pr ns nx"
proof -
  assume s: "seg h pr ns nx"
  have "seg (alloced c h) pr ns nx = seg h pr ns nx"
  proof (rule seg_cong)
    fix a assume "a \<in> fst ` set ns"
    then obtain e where "(a, e) \<in> set ns" by auto
    then have "cells h a \<noteq> None" using seg_live [OF s] by fastforce
    then have "a \<noteq> next_addr h" using heap_ok_fresh [OF assms] by metis
    then show "cells (alloced c h) a = cells h a" by simp
  qed
  then show ?thesis using s by simp
qed

section \<open>Lists\<close>

lemma dlistI:
  "heap_ok h \<Longrightarrow> cells h l = Some (DList (first_of ns 0)) \<Longrightarrow> seg h 0 ns 0 \<Longrightarrow>
     distinct (map fst ns) \<Longrightarrow> dlist h l ns"
  by (simp add: dlist_def)

lemma dlist_ok: "dlist h l ns \<Longrightarrow> heap_ok h"
  and dlist_head: "dlist h l ns \<Longrightarrow> cells h l = Some (DList (first_of ns 0))"
  and dlist_seg: "dlist h l ns \<Longrightarrow> seg h 0 ns 0"
  and dlist_distinct: "dlist h l ns \<Longrightarrow> distinct (map fst ns)"
  by (simp_all add: dlist_def)

lemma dlist_nonnull: "dlist h l ns \<Longrightarrow> l \<noteq> 0"
  by (metis dlist_head dlist_ok heap_ok_null option.distinct(1))

lemma dlist_node: "dlist h l ns \<Longrightarrow> (a, e) \<in> set ns \<Longrightarrow> \<exists>n. cells h a = Some (Node n) \<and> nd_element n = e"
  using dlist_seg seg_live by blast

lemma dlist_node_nonnull: "dlist h l ns \<Longrightarrow> (a, e) \<in> set ns \<Longrightarrow> a \<noteq> 0"
  by (metis dlist_node dlist_ok heap_ok_null option.distinct(1))

lemma dlist_nodeE:
  assumes "dlist h l ns" and "a \<in> fst ` set ns"
  obtains n where "cells h a = Some (Node n)"
proof -
  from assms(2) obtain e where "(a, e) \<in> set ns" by auto
  with dlist_node [OF assms(1)] that show ?thesis by blast
qed

lemma dlist_struct_not_node: "dlist h l ns \<Longrightarrow> l \<notin> fst ` set ns"
  by (metis dcell.distinct(1) dlist_head dlist_nodeE option.inject)

lemma dlist_obj_not_node: "dlist h l ns \<Longrightarrow> cells h x = Some (Obj ob) \<Longrightarrow> x \<notin> fst ` set ns"
  by (metis dcell.distinct(3) dlist_nodeE option.inject)

lemma first_of_zero_iff: "dlist h l ns \<Longrightarrow> first_of ns 0 = 0 \<longleftrightarrow> ns = []"
proof (cases ns)
  case (Cons n ns')
  moreover assume "dlist h l ns"
  ultimately show ?thesis using dlist_node_nonnull [of h l ns "fst n" "snd n"]
    by (simp add: first_of_def)
qed simp

lemma dlist_length: "dlist h l ns \<Longrightarrow> length ns < next_addr h"
proof -
  assume d: "dlist h l ns"
  have "length (map fst ns) < next_addr h"
  proof (rule live_path_length [OF dlist_ok [OF d] dlist_distinct [OF d]])
    fix a assume "a \<in> set (map fst ns)"
    then show "cells h a \<noteq> None" using dlist_nodeE [OF d, of a] by auto
  qed
  then show ?thesis by simp
qed

lemma dlist_cong:
  assumes d: "dlist h l ns" and ok: "heap_ok h'"
    and same: "\<And>a. a \<in> insert l (fst ` set ns) \<Longrightarrow> cells h' a = cells h a"
  shows "dlist h' l ns"
proof (rule dlistI)
  show "seg h' 0 ns 0" using dlist_seg [OF d] seg_cong [of ns h' h] same by blast
qed (use d ok same in \<open>auto simp: dlist_def\<close>)

text \<open>A list is not touched by what happens outside its struct and its nodes.\<close>

lemma dlist_frame:
  assumes "dlist h l ns" "heap_ok h'" "frame A h h'" "A \<inter> insert l (fst ` set ns) = {}"
  shows "dlist h' l ns"
  using assms by (intro dlist_cong [OF assms(1,2)]) (auto simp: frame_def)

section \<open>Field access in a list\<close>

lemma read_node_ok [heap_simps]:
  "cells h p = Some (Node n) \<Longrightarrow> heap_ok h \<Longrightarrow> read_node h p = Inr n"
  by (simp add: read_node_def load_ok)

lemma upd_node_ok [heap_simps]:
  "cells h p = Some (Node n) \<Longrightarrow> heap_ok h \<Longrightarrow> upd_node h p f = Inr (written p (Node (f n)) h)"
  by (simp add: upd_node_def read_node_ok store_ok)

lemma get_head_ok [heap_simps]:
  "cells h l = Some (DList p) \<Longrightarrow> heap_ok h \<Longrightarrow> get_head h l = Inr p"
  by (simp add: get_head_def load_ok)

lemma set_head_ok [heap_simps]:
  "cells h l = Some (DList p) \<Longrightarrow> heap_ok h \<Longrightarrow> set_head h l q = Inr (written l (DList q) h)"
  by (simp add: set_head_def get_head_ok store_ok)

lemma upd_node_null [simp]: "upd_node h 0 f = Inl NullDeref"
  and read_node_null [simp]: "read_node h 0 = Inl NullDeref"
  and set_head_null [simp]: "set_head h 0 q = Inl NullDeref"
  by (simp_all add: upd_node_def read_node_def set_head_def get_head_def)

lemma dlist_get_head [heap_simps]: "dlist h l ns \<Longrightarrow> get_head h l = Inr (first_of ns 0)"
  by (simp add: get_head_ok dlist_def)

end
