(* ===== verification/Dplist_Reads.thy ===== *)
theory Dplist_Reads
  imports Dplist_Segments
begin

text \<open>
  The operations of lib/dplist.c that do not change the heap, on a well-formed list: every
  traversal ends within its fuel, and its result is a function of the sequence of nodes.
\<close>

section \<open>Segments seen from their first node\<close>

lemma seg_first:
  assumes "seg h pr (n # ns) nx" and "heap_ok h"
  shows "read_node h (fst n) = Inr \<lparr>nd_prev = pr, nd_next = first_of ns nx, nd_element = snd n\<rparr>"
    and "fst n \<noteq> 0"
proof -
  have c: "cells h (fst n) = Some (Node \<lparr>nd_prev = pr, nd_next = first_of ns nx, nd_element = snd n\<rparr>)"
    using assms(1) by (cases n) simp
  from read_node_ok [OF c assms(2)]
  show "read_node h (fst n) = Inr \<lparr>nd_prev = pr, nd_next = first_of ns nx, nd_element = snd n\<rparr>" .
  from heap_ok_live [OF assms(2) c] show "fst n \<noteq> 0" by simp
qed

lemma seg_tail: "seg h pr (n # ns) nx \<Longrightarrow> seg h (fst n) ns nx"
  by (cases n) simp

lemma seg_first_zero:
  assumes "seg h pr ns 0" and "heap_ok h"
  shows "first_of ns 0 = 0 \<longleftrightarrow> ns = []"
proof (cases ns)
  case (Cons n ns')
  then show ?thesis using seg_first(2) [of h pr n ns' 0] assms by simp
qed simp

text \<open>The first node of a list with at least two nodes has a successor.\<close>

lemma dlist_first_next:
  assumes d: "dlist h l ns" and two: "2 \<le> length ns"
  obtains n where "read_node h (first_of ns 0) = Inr n" and "nd_next n \<noteq> 0"
proof -
  obtain a b ns' where ns: "ns = a # b # ns'" using two by (cases ns; cases "tl ns") auto
  have s: "seg h 0 (a # b # ns') 0" and ok: "heap_ok h"
    using dlist_seg [OF d] dlist_ok [OF d] ns by simp_all
  have "nd_next \<lparr>nd_prev = 0, nd_next = first_of (b # ns') 0, nd_element = snd a\<rparr> \<noteq> 0"
    using seg_first(2) [OF seg_tail [OF s] ok] by simp
  with seg_first(1) [OF s ok] show ?thesis using that ns by (simp del: dplist_node.select_convs)
qed

section \<open>Size\<close>

lemma size_loop_seg:
  "seg h pr ns 0 \<Longrightarrow> heap_ok h \<Longrightarrow> length ns < fuel \<Longrightarrow>
     size_loop fuel h (first_of ns 0) count = Inr (count + int (length ns))"
proof (induction ns arbitrary: pr fuel count)
  case Nil
  then show ?case by (cases fuel) simp_all
next
  case (Cons n ns)
  then obtain f where f: "fuel = Suc f" "length ns < f" by (cases fuel) auto
  show ?case
    using seg_first [OF Cons.prems(1,2)] Cons.IH [OF seg_tail [OF Cons.prems(1)] Cons.prems(2) f(2)] f(1)
    by (simp add: algebra_simps)
qed

lemma dpl_size_dlist: "dlist h l ns \<Longrightarrow> dpl_size h l = Inr (int (length ns))"
  using size_loop_seg [of h 0 ns "next_addr h" 0]
  by (simp add: dpl_size_def dlist_nonnull dlist_get_head dlist_seg dlist_ok dlist_length)

section \<open>References and elements by index\<close>

lemma ref_loop_seg:
  "seg h pr ns 0 \<Longrightarrow> heap_ok h \<Longrightarrow> ns \<noteq> [] \<Longrightarrow> length ns < fuel \<Longrightarrow>
     ref_loop fuel h (first_of ns 0) count index =
     Inr (fst (ns ! ref_pos (index - count) (length ns)))"
proof (induction ns arbitrary: pr fuel count)
  case (Cons n ns)
  obtain f where f: "fuel = Suc f" "length ns < f" using Cons.prems by (cases fuel) auto
  note rd = seg_first [OF Cons.prems(1,2)] and tl = seg_tail [OF Cons.prems(1)]
  show ?case
  proof (cases "ns = [] \<or> index \<le> count")
    case True
    then show ?thesis using rd f seg_first_zero [OF tl Cons.prems(2)]
      by (auto simp: ref_pos_def)
  next
    case False
    then have ne: "ns \<noteq> []" and lt: "count < index" by auto
    have nz: "first_of ns 0 \<noteq> 0" using seg_first_zero [OF tl Cons.prems(2)] ne by simp
    have pos: "ref_pos (index - count) (length (n # ns)) = Suc (ref_pos (index - (count + 1)) (length ns))"
      using lt ne by (cases ns) (auto simp: ref_pos_def)
    show ?thesis
      using Cons.IH [OF tl Cons.prems(2) ne f(2), of "count + 1"] rd f nz lt pos by simp
  qed
qed simp

definition ref_at :: "dnode list \<Rightarrow> int \<Rightarrow> addr" where
  "ref_at ns index = (if ns = [] then 0 else fst (ns ! ref_pos index (length ns)))"

definition element_at :: "dnode list \<Rightarrow> int \<Rightarrow> addr" where
  "element_at ns index = (if ns = [] then 0 else snd (ns ! ref_pos index (length ns)))"

lemma dpl_get_reference_at_index_dlist:
  assumes d: "dlist h l ns"
  shows "dpl_get_reference_at_index h l index = Inr (ref_at ns index)"
proof (cases "ns = []")
  case True
  then show ?thesis using dlist_get_head [OF d] dlist_nonnull [OF d]
    by (simp add: dpl_get_reference_at_index_def ref_at_def)
next
  case False
  then have "ref_loop (next_addr h) h (first_of ns 0) 0 index =
      Inr (fst (ns ! ref_pos (index - 0) (length ns)))"
    by (intro ref_loop_seg [OF dlist_seg [OF d] dlist_ok [OF d] _ dlist_length [OF d]])
  then show ?thesis using False first_of_zero_iff [OF d] dlist_get_head [OF d] dlist_nonnull [OF d]
    by (simp add: dpl_get_reference_at_index_def ref_at_def)
qed

lemma dlist_read_nth:
  assumes d: "dlist h l ns" and i: "i < length ns"
  shows "\<exists>n. read_node h (fst (ns ! i)) = Inr n \<and> nd_element n = snd (ns ! i)"
proof -
  have "(fst (ns ! i), snd (ns ! i)) \<in> set ns" using i by simp
  from dlist_node [OF d this] show ?thesis using read_node_ok dlist_ok [OF d] by blast
qed

lemma dpl_get_element_at_index_dlist:
  assumes d: "dlist h l ns"
  shows "dpl_get_element_at_index h l index = Inr (element_at ns index)"
proof (cases "ns = []")
  case True
  then show ?thesis
    by (simp add: dpl_get_element_at_index_def dpl_get_reference_at_index_dlist [OF d]
        ref_at_def element_at_def)
next
  case False
  let ?i = "ref_pos index (length ns)"
  have i: "?i < length ns" using False by (simp add: ref_pos_less)
  then have "(fst (ns ! ?i), snd (ns ! ?i)) \<in> set ns" by simp
  then have "fst (ns ! ?i) \<noteq> 0" by (rule dlist_node_nonnull [OF d])
  then show ?thesis using dlist_read_nth [OF d i] False
    by (auto simp: dpl_get_element_at_index_def dpl_get_reference_at_index_dlist [OF d]
        ref_at_def element_at_def)
qed

section \<open>Search by element\<close>

text \<open>The documented match: NULL matches NULL, other elements by the comparison callback.\<close>

definition matches :: "(addr \<Rightarrow> addr \<Rightarrow> int) \<Rightarrow> addr \<Rightarrow> addr \<Rightarrow> bool" where
  "matches cmp element x =
     (if element = 0 then x = 0 else x \<noteq> 0 \<and> cmp x element = 0)"

text \<open>The callback answers on the elements of the list.\<close>

definition compares :: "'o callbacks \<Rightarrow> 'o dheap \<Rightarrow> (addr \<Rightarrow> addr \<Rightarrow> int) \<Rightarrow> addr set \<Rightarrow> bool" where
  "compares cb h cmp A \<longleftrightarrow>
     (\<forall>x\<in>A. \<forall>y\<in>A. x \<noteq> 0 \<longrightarrow> y \<noteq> 0 \<longrightarrow> element_compare cb h x y = Inr (cmp x y))"

lemma index_loop_seg:
  assumes ok: "heap_ok h"
  shows "seg h pr ns 0 \<Longrightarrow> length ns < fuel \<Longrightarrow> 0 \<le> index \<Longrightarrow>
     compares cb h cmp (insert element (snd ` set ns)) \<Longrightarrow>
     index_loop fuel cb h (first_of ns 0) element index =
     Inr (let j = index_where (matches cmp element) (map snd ns) in
          if j = -1 then -1 else index + j)"
proof (induction ns arbitrary: pr fuel index)
  case Nil
  then show ?case by (cases fuel) simp_all
next
  case (Cons n ns)
  obtain f where f: "fuel = Suc f" "length ns < f" using Cons.prems by (cases fuel) auto
  note rd = seg_first [OF Cons.prems(1) ok] and tl = seg_tail [OF Cons.prems(1)]
  have cmp: "snd n \<noteq> 0 \<Longrightarrow> element \<noteq> 0 \<Longrightarrow>
      element_compare cb h (snd n) element = Inr (cmp (snd n) element)"
    using Cons.prems(4) by (simp add: compares_def)
  have "compares cb h cmp (insert element (snd ` set ns))"
    using Cons.prems(4) by (simp add: compares_def)
  then have IH: "index_loop f cb h (first_of ns 0) element (index + 1) =
      Inr (let j = index_where (matches cmp element) (map snd ns) in
           if j = -1 then -1 else index + 1 + j)"
    using Cons.IH [OF tl f(2), of "index + 1"] Cons.prems(3) by simp
  have step: "index_loop fuel cb h (first_of (n # ns) 0) element index =
      (if matches cmp element (snd n) then Inr index
       else index_loop f cb h (first_of ns 0) element (index + 1))"
    using rd f(1) cmp by (simp add: matches_def)
  show ?case
  proof (cases "matches cmp element (snd n)")
    case False
    then show ?thesis using step IH index_where_ge [of "matches cmp element" "map snd ns"]
      by (simp add: Let_def)
  qed (use step in simp)
qed

lemma dpl_get_index_of_element_dlist:
  assumes d: "dlist h l ns" and c: "compares cb h cmp (insert element (snd ` set ns))"
  shows "dpl_get_index_of_element cb h l element =
     Inr (index_where (matches cmp element) (map snd ns))"
proof (cases "ns = []")
  case True
  then show ?thesis using dlist_get_head [OF d] dlist_nonnull [OF d]
    by (simp add: dpl_get_index_of_element_def)
next
  case False
  then show ?thesis
    using index_loop_seg [OF dlist_ok [OF d] dlist_seg [OF d] dlist_length [OF d] _ c, of 0]
      first_of_zero_iff [OF d] dlist_get_head [OF d] dlist_nonnull [OF d]
    by (simp add: dpl_get_index_of_element_def Let_def)
qed

lemma dpl_get_reference_of_element_dlist:
  assumes d: "dlist h l ns" and c: "compares cb h cmp (insert element (snd ` set ns))"
  shows "dpl_get_reference_of_element cb h l element =
     Inr (let j = index_where (matches cmp element) (map snd ns) in
          if j = -1 then 0 else fst (ns ! nat j))"
proof (cases "ns = []")
  case True
  then show ?thesis using dlist_get_head [OF d] dlist_nonnull [OF d]
    by (simp add: dpl_get_reference_of_element_def Let_def)
next
  case False
  let ?j = "index_where (matches cmp element) (map snd ns)"
  have "ref_at ns ?j = fst (ns ! nat ?j)" if "?j \<noteq> -1"
    using index_where_found [OF refl that] False by (auto simp: ref_at_def ref_pos_def min_def)
  then show ?thesis
    using False first_of_zero_iff [OF d] dlist_get_head [OF d] dlist_nonnull [OF d]
    by (simp add: dpl_get_reference_of_element_def dpl_get_index_of_element_dlist [OF d c]
        dpl_get_reference_at_index_dlist [OF d] Let_def)
qed

section \<open>Search by reference\<close>

lemma find_ref_absent:
  "seg h pr ns 0 \<Longrightarrow> heap_ok h \<Longrightarrow> length ns < fuel \<Longrightarrow> r \<notin> fst ` set ns \<Longrightarrow>
     find_ref fuel h (first_of ns 0) r k = Inr None"
proof (induction ns arbitrary: pr fuel k)
  case Nil
  then show ?case by (cases fuel) simp_all
next
  case (Cons n ns)
  obtain f where f: "fuel = Suc f" "length ns < f" using Cons.prems by (cases fuel) auto
  show ?case
    using Cons.IH [OF seg_tail [OF Cons.prems(1)] Cons.prems(2) f(2), of "k + 1"]
      seg_first [OF Cons.prems(1,2)] Cons.prems(4) f(1) by auto
qed

lemma find_ref_present:
  "seg h pr (xs @ (r, e) # ys) 0 \<Longrightarrow> heap_ok h \<Longrightarrow> length xs + length ys < fuel \<Longrightarrow>
     r \<notin> fst ` set xs \<Longrightarrow>
     find_ref fuel h (first_of (xs @ (r, e) # ys) 0) r k =
     Inr (Some (k + int (length xs),
                \<lparr>nd_prev = last_of pr xs, nd_next = first_of ys 0, nd_element = e\<rparr>))"
proof (induction xs arbitrary: pr fuel k)
  case Nil
  then obtain f where "fuel = Suc f" by (cases fuel) auto
  then show ?case using seg_first [of h pr "(r, e)" ys 0] Nil by simp
next
  case (Cons n xs)
  obtain f where f: "fuel = Suc f" "length xs + length ys < f" using Cons.prems by (cases fuel) auto
  have s: "seg h pr (n # xs @ (r, e) # ys) 0" using Cons.prems(1) by simp
  show ?case
    using Cons.IH [OF seg_tail [OF s] Cons.prems(2) f(2), of "k + 1"]
      seg_first [OF s Cons.prems(2)] Cons.prems(4) f(1) by (cases n) (auto simp: algebra_simps)
qed

lemma search_ref_absent:
  "dlist h l ns \<Longrightarrow> r \<notin> fst ` set ns \<Longrightarrow> search_ref h l r = Inr None"
  using find_ref_absent [of h 0 ns "next_addr h" r 0]
  by (simp add: search_ref_def dlist_nonnull dlist_get_head dlist_seg dlist_ok dlist_length)

lemma search_ref_null [simp]: "search_ref h 0 r = Inr None" "search_ref h l 0 = Inr None"
  by (simp_all add: search_ref_def)

lemma search_ref_present:
  assumes d: "dlist h l (xs @ (r, e) # ys)"
  shows "search_ref h l r =
     Inr (Some (int (length xs),
                \<lparr>nd_prev = last_of 0 xs, nd_next = first_of ys 0, nd_element = e\<rparr>))"
proof -
  have "r \<notin> fst ` set xs" using dlist_distinct [OF d] by auto
  moreover have "r \<noteq> 0" using dlist_node_nonnull [OF d, of r e] by simp
  ultimately show ?thesis
    using find_ref_present [OF dlist_seg [OF d] dlist_ok [OF d], of "next_addr h" 0]
      dlist_length [OF d] dlist_get_head [OF d] dlist_nonnull [OF d]
    by (simp add: search_ref_def)
qed

lemmas search_ref_simps = search_ref_absent search_ref_present

lemma dpl_get_index_of_reference_dlist:
  assumes d: "dlist h l ns"
  shows "dpl_get_index_of_reference h l r = Inr (index_where (\<lambda>a. a = r) (map fst ns))"
proof (cases "r \<in> fst ` set ns")
  case True
  then obtain e where "(r, e) \<in> set ns" by auto
  then obtain xs ys where ns: "ns = xs @ (r, e) # ys" by (auto dest: split_list)
  have "map fst ns ! length xs = r" by (simp add: ns nth_append)
  then have "index_where (\<lambda>a. a = r) (map fst ns) = int (length xs)"
    using index_where_eq_nth [OF dlist_distinct [OF d], of "length xs"] by (simp add: ns)
  then show ?thesis using search_ref_present [of h l xs r e ys] d ns
    by (simp add: dpl_get_index_of_reference_def)
next
  case False
  then have "index_where (\<lambda>a. a = r) (map fst ns) = -1"
    by (auto simp: index_where_Nil_iff)
  then show ?thesis using search_ref_absent [OF d False]
    by (simp add: dpl_get_index_of_reference_def)
qed

lemma dpl_get_first_reference_dlist:
  "dlist h l ns \<Longrightarrow> dpl_get_first_reference h l = Inr (first_of ns 0)"
  by (simp add: dpl_get_first_reference_def dlist_nonnull dlist_get_head)

lemma dpl_get_last_reference_dlist:
  assumes d: "dlist h l ns"
  shows "dpl_get_last_reference h l = Inr (last_of 0 ns)"
proof (cases "ns = []")
  case True
  then show ?thesis using dlist_get_head [OF d] dlist_nonnull [OF d]
    by (simp add: dpl_get_last_reference_def)
next
  case False
  have "nat (int (length ns) - 1) = length ns - 1" by simp
  then have "ref_at ns (int (length ns) - 1) = last_of 0 ns"
    using False by (simp add: ref_at_def ref_pos_def last_of_def last_conv_nth del: nat_diff_distrib)
  then show ?thesis using False first_of_zero_iff [OF d] dlist_get_head [OF d] dlist_nonnull [OF d]
    by (simp add: dpl_get_last_reference_def dpl_size_dlist [OF d]
        dpl_get_reference_at_index_dlist [OF d])
qed

end
