(* ===== verification/Dplist_Updates.thy ===== *)
theory Dplist_Updates
  imports Dplist_Reads
begin

text \<open>
  The operations of lib/dplist.c that change the heap: on a well-formed list each one gives
  the list that its documentation promises, well-formed again, and leaves alone every object
  that is neither the list's struct nor one of its nodes (nor, for a removal, the element).
\<close>

section \<open>Creation\<close>

lemma dpl_create_ok:
  assumes "heap_ok h" and "0 < budget h"
  shows "\<exists>h'. dpl_create h = Inr (next_addr h, h') \<and> dlist h' (next_addr h) [] \<and>
           frame {next_addr h} h h' \<and> next_addr h' = Suc (next_addr h) \<and> budget h' = budget h - 1"
proof -
  let ?h1 = "alloced (DList 0) h"
  have c: "cells ?h1 (next_addr h) = Some (DList 0)" by simp
  have "dpl_create h = Inr (next_addr h, written (next_addr h) (DList 0) ?h1)"
    using assms set_head_ok [OF c] by (simp add: dpl_create_def malloc_ok)
  then show ?thesis using assms by (simp add: dlist_def frame_def)
qed

lemma dpl_create_fail: "budget h = 0 \<Longrightarrow> dpl_create h = Inl NullDeref"
  by (simp add: dpl_create_def malloc_fail)

section \<open>Insertion\<close>

text \<open>The node before and the node after a place in the list.\<close>

lemma seg_split_middle:
  assumes "seg h pr (xs @ (p, ep) # (r, er) # ys) nx"
  shows "cells h p = Some (Node \<lparr>nd_prev = last_of pr xs, nd_next = r, nd_element = ep\<rparr>)"
    and "cells h r = Some (Node \<lparr>nd_prev = p, nd_next = first_of ys nx, nd_element = er\<rparr>)"
    and "seg h pr xs p" and "seg h r ys nx"
  using assms by simp_all

lemma link_node_empty:
  assumes d: "dlist h l []" and nd: "cells h nd = Some (Node n0)"
  shows "\<exists>h'. link_node h l nd index = Inr h' \<and> dlist h' l [(nd, nd_element n0)] \<and>
           frame {l, nd} h h' \<and> next_addr h' = next_addr h \<and> budget h' = budget h"
proof -
  have ok: "heap_ok h" and hd: "cells h l = Some (DList 0)" using d by (simp_all add: dlist_def)
  have ne: "l \<noteq> nd" using hd nd by auto
  then show ?thesis using ok hd nd
    by (cases n0) (simp add: link_node_def heap_simps dlist_def frame_def image_Un)
qed

lemma link_node_front:
  assumes d: "dlist h l ((a, e) # ns)" and nd: "cells h nd = Some (Node n0)"
    and new: "nd \<notin> fst ` set ((a, e) # ns)" and i: "index \<le> 0"
  shows "\<exists>h'. link_node h l nd index = Inr h' \<and> dlist h' l ((nd, nd_element n0) # (a, e) # ns) \<and>
           frame ({l, nd} \<union> fst ` set ((a, e) # ns)) h h' \<and>
           next_addr h' = next_addr h \<and> budget h' = budget h"
proof -
  have ok: "heap_ok h" and hd: "cells h l = Some (DList a)"
    and dist: "distinct (map fst ((a, e) # ns))"
    and a: "cells h a = Some (Node \<lparr>nd_prev = 0, nd_next = first_of ns 0, nd_element = e\<rparr>)"
    and tl: "seg h a ns 0"
    using d by (simp_all add: dlist_def)
  have ne: "l \<noteq> nd" "l \<noteq> a" "a \<noteq> nd" "a \<noteq> 0" "l \<notin> fst ` set ns"
    using hd nd new dlist_struct_not_node [OF d] dlist_node_nonnull [OF d, of a e] by auto
  show ?thesis using ok hd nd a tl ne new i dist
    by (cases n0) (simp add: link_node_def heap_simps dlist_def frame_def image_Un)
qed

lemma link_node_middle:
  assumes d: "dlist h l (xs @ (p, ep) # (r, er) # ys)"
    and nd: "cells h nd = Some (Node n0)"
    and new: "nd \<notin> fst ` set (xs @ (p, ep) # (r, er) # ys)"
    and i: "index = int (length xs) + 1"
  shows "\<exists>h'. link_node h l nd index = Inr h' \<and>
           dlist h' l (xs @ (p, ep) # (nd, nd_element n0) # (r, er) # ys) \<and>
           frame ({l, nd} \<union> fst ` set (xs @ (p, ep) # (r, er) # ys)) h h' \<and>
           next_addr h' = next_addr h \<and> budget h' = budget h"
proof -
  let ?ns = "xs @ (p, ep) # (r, er) # ys"
  note s = seg_split_middle [OF dlist_seg [OF d]]
  have ok: "heap_ok h" and hd: "cells h l = Some (DList (first_of ?ns 0))"
    and dist: "distinct (map fst ?ns)"
    using d by (simp_all only: dlist_def)
  have ne: "l \<noteq> nd" "l \<notin> fst ` set ?ns" "p \<noteq> 0" "r \<noteq> 0" "first_of ?ns 0 \<noteq> 0"
    using hd nd dlist_struct_not_node [OF d] dlist_node_nonnull [OF d, of p ep]
      dlist_node_nonnull [OF d, of r er] first_of_zero_iff [OF d] by auto
  have pos: "ref_pos index (length ?ns) = Suc (length xs)" using i by (simp add: ref_pos_def nat_add_distrib)
  have "ref_at ?ns index = r" by (simp only: ref_at_def pos) (simp add: nth_append)
  then have ref: "dpl_get_reference_at_index h l index = Inr r"
    by (simp only: dpl_get_reference_at_index_dlist [OF d])
  have size: "dpl_size h l = Inr (int (length ?ns))" by (rule dpl_size_dlist [OF d])
  have fo: "first_of (xs @ (p, ep) # (nd, nd_element n0) # (r, er) # ys) 0 = first_of ?ns 0"
    by (simp add: first_of_append)
  show ?thesis using ok hd nd s ne new i dist ref size fo
    by (cases n0) (simp add: link_node_def heap_simps dlist_def frame_def image_Un)
qed

lemma link_node_end:
  assumes d: "dlist h l (xs @ [(p, ep)])"
    and nd: "cells h nd = Some (Node n0)" and new: "nd \<notin> fst ` set (xs @ [(p, ep)])"
    and i: "int (length xs) < index"
  shows "\<exists>h'. link_node h l nd index = Inr h' \<and>
           dlist h' l (xs @ [(p, ep), (nd, nd_element n0)]) \<and>
           frame ({l, nd} \<union> fst ` set (xs @ [(p, ep)])) h h' \<and>
           next_addr h' = next_addr h \<and> budget h' = budget h"
proof -
  let ?ns = "xs @ [(p, ep)]"
  have ok: "heap_ok h" and hd: "cells h l = Some (DList (first_of ?ns 0))"
    and dist: "distinct (map fst ?ns)" and s: "seg h 0 xs p"
    and p: "cells h p = Some (Node \<lparr>nd_prev = last_of 0 xs, nd_next = 0, nd_element = ep\<rparr>)"
    using d by (simp_all add: dlist_def)
  have ne: "l \<noteq> nd" "l \<notin> fst ` set ?ns" "p \<noteq> 0" "first_of ?ns 0 \<noteq> 0"
    using hd nd dlist_struct_not_node [OF d] dlist_node_nonnull [OF d, of p ep]
      first_of_zero_iff [OF d] by auto
  have pos: "ref_pos index (length ?ns) = length xs" using i by (simp add: ref_pos_def)
  have "ref_at ?ns index = p" by (simp only: ref_at_def pos) simp
  then have ref: "dpl_get_reference_at_index h l index = Inr p"
    by (simp only: dpl_get_reference_at_index_dlist [OF d])
  have size: "dpl_size h l = Inr (int (length ?ns))" by (rule dpl_size_dlist [OF d])
  have fo: "first_of (xs @ [(p, ep), (nd, nd_element n0)]) 0 = first_of ?ns 0"
    by (simp add: first_of_append)
  show ?thesis using ok hd nd p s ne new i dist ref size fo
    by (cases n0) (simp add: link_node_def heap_simps dlist_def frame_def image_Un)
qed

text \<open>All four cases together.\<close>

lemma link_node_dlist:
  assumes d: "dlist h l ns" and nd: "cells h nd = Some (Node n0)" and new: "nd \<notin> fst ` set ns"
  shows "\<exists>h'. link_node h l nd index = Inr h' \<and>
           dlist h' l (insert_nth (ins_pos index (length ns)) (nd, nd_element n0) ns) \<and>
           frame ({l, nd} \<union> fst ` set ns) h h' \<and>
           next_addr h' = next_addr h \<and> budget h' = budget h"
proof -
  consider "ns = []" | "ns \<noteq> []" "index \<le> 0" | "0 < index" "index < int (length ns)"
    | "ns \<noteq> []" "int (length ns) \<le> index" "0 < index" by fastforce
  then show ?thesis
  proof cases
    case 1
    then show ?thesis using link_node_empty [of h l nd n0 index] d nd
      by (simp add: ins_pos_def insert_nth_def)
  next
    case 2
    then obtain a e ns' where "ns = (a, e) # ns'" by (cases ns) auto
    then show ?thesis using link_node_front [of h l a e ns' nd n0 index] d nd new 2
      by (simp add: ins_pos_def)
  next
    case 3
    then have "0 < nat index" "nat index < length ns" by linarith+
    then obtain xs n m ys where "ns = xs @ n # m # ys" and i: "nat index = Suc (length xs)"
      by (rule split_around)
    then obtain p ep r er where ns: "ns = xs @ (p, ep) # (r, er) # ys" by (metis prod.collapse)
    have "ins_pos index (length ns) = Suc (length xs)" using i ns by (simp add: ins_pos_def)
    moreover have "index = int (length xs) + 1" using i by linarith
    ultimately show ?thesis
      using link_node_middle [of h l xs p ep r er ys nd n0 index] d nd new ns by simp
  next
    case 4
    then obtain xs p ep where ns: "ns = xs @ [(p, ep)]" by (metis prod.collapse rev_exhaust)
    have "ins_pos index (length ns) = length ns" using 4 by (simp add: ins_pos_def)
    then show ?thesis using link_node_end [of h l xs p ep nd n0 index] d nd new 4 ns
      by (simp add: insert_nth_def)
  qed
qed

text \<open>
  The copy callback, where it is used, returns an element and keeps every object that was
  live.
\<close>

definition copies :: "'o callbacks \<Rightarrow> 'o dheap \<Rightarrow> addr \<Rightarrow> addr \<Rightarrow> 'o dheap \<Rightarrow> bool" where
  "copies cb h e e' h' \<longleftrightarrow>
     element_copy cb h e = Inr (e', h') \<and> heap_ok h' \<and>
     (\<forall>a. cells h a \<noteq> None \<longrightarrow> cells h' a = cells h a)"

lemma dpl_insert_at_index_copied:
  assumes d: "dlist h l ns" and b: "0 < budget h"
    and el: "(if copy then element_copy cb (alloced (Node raw_node) h) e
              else Inr (e, alloced (Node raw_node) h)) = Inr (e', h2)"
    and ok2: "heap_ok h2"
    and keep: "\<And>a. cells (alloced (Node raw_node) h) a \<noteq> None \<Longrightarrow>
                 cells h2 a = cells (alloced (Node raw_node) h) a"
  shows "\<exists>h'. dpl_insert_at_index cb h l e index copy = Inr (l, h') \<and>
           dlist h' l (insert_nth (ins_pos index (length ns)) (next_addr h, e') ns) \<and>
           frame ({l, next_addr h} \<union> fst ` set ns) h2 h' \<and>
           next_addr h' = next_addr h2 \<and> budget h' = budget h2"
proof -
  let ?nd = "next_addr h" and ?h1 = "alloced (Node raw_node) h"
  let ?n = "raw_node\<lparr>nd_element := e'\<rparr>" and ?h3 = "written (next_addr h) (Node (raw_node\<lparr>nd_element := e'\<rparr>)) h2"
  have ok: "heap_ok h" by (rule dlist_ok [OF d])
  have nd2: "cells h2 ?nd = Some (Node raw_node)" using keep [of ?nd] by simp
  have dead: "cells h ?nd = None" using ok by simp
  have live: "cells h a \<noteq> None \<Longrightarrow> a \<noteq> ?nd" for a using dead by metis
  have same: "cells ?h3 a = cells h a" if "a \<in> insert l (fst ` set ns)" for a
  proof -
    have "cells h a \<noteq> None" using that dlist_head [OF d] dlist_nodeE [OF d, of a] by auto
    then show ?thesis using live [of a] keep [of a] by simp
  qed
  have new: "?nd \<notin> fst ` set ns" by (metis dead dlist_nodeE [OF d] option.distinct(1))
  have d3: "dlist ?h3 l ns" using ok2 nd2 same by (intro dlist_cong [OF d]) simp_all
  have c3: "cells ?h3 ?nd = Some (Node ?n)" and el3: "nd_element ?n = e'"
    by (simp_all add: raw_node_def)
  obtain h' where
    h': "link_node ?h3 l ?nd index = Inr h'"
      "dlist h' l (insert_nth (ins_pos index (length ns)) (?nd, e') ns)"
      "frame ({l, ?nd} \<union> fst ` set ns) ?h3 h'"
      "next_addr h' = next_addr ?h3" "budget h' = budget ?h3"
    using link_node_dlist [OF d3 c3 new, of index] unfolding el3 by blast
  have "frame ({l, ?nd} \<union> fst ` set ns) h2 h'"
    using h'(3) by (auto simp: frame_def)
  moreover have "dpl_insert_at_index cb h l e index copy = Inr (l, h')"
    using dlist_nonnull [OF d] el h'(1) upd_node_ok [OF nd2 ok2] b
    by (simp add: dpl_insert_at_index_def malloc_ok)
  ultimately show ?thesis using h' by simp
qed

lemma dpl_insert_at_index_dlist:
  assumes d: "dlist h l ns" and b: "0 < budget h"
  shows "\<exists>h'. dpl_insert_at_index cb h l e index False = Inr (l, h') \<and>
           dlist h' l (insert_nth (ins_pos index (length ns)) (next_addr h, e) ns) \<and>
           frame ({l, next_addr h} \<union> fst ` set ns) h h' \<and>
           next_addr h' = Suc (next_addr h) \<and> budget h' = budget h - 1"
proof -
  obtain h' where h': "dpl_insert_at_index cb h l e index False = Inr (l, h')"
    "dlist h' l (insert_nth (ins_pos index (length ns)) (next_addr h, e) ns)"
    "frame ({l, next_addr h} \<union> fst ` set ns) (alloced (Node raw_node) h) h'"
    "next_addr h' = Suc (next_addr h)" "budget h' = budget h - 1"
    using dpl_insert_at_index_copied [OF d b, of False cb e e "alloced (Node raw_node) h" index]
      dlist_ok [OF d] by auto
  then have "frame ({l, next_addr h} \<union> fst ` set ns) h h'" by (auto simp: frame_def)
  then show ?thesis using h' by blast
qed

lemma dpl_insert_at_index_no_memory:
  "l \<noteq> 0 \<Longrightarrow> budget h = 0 \<Longrightarrow> dpl_insert_at_index cb h l e index False = Inl NullDeref"
  by (simp add: dpl_insert_at_index_def malloc_fail)

end
