(* ===== verification/Dplist_Removal.thy ===== *)
theory Dplist_Removal
  imports Dplist_Updates
begin

text \<open>
  Removal of one node and release of a whole list. Both give the element to \<open>free\<close>
  whether or not the caller asked for it, so they need what the caller owns: an element
  pointer is NULL or the address of an object of the client that no one has freed.
\<close>

section \<open>Unlinking\<close>

lemma unlink_node_single:
  assumes d: "dlist h l [(a, e)]"
  shows "\<exists>h'. unlink_node h l a a index = Inr h' \<and> dlist h' l [] \<and> frame {l} h h' \<and>
           next_addr h' = next_addr h \<and> budget h' = budget h"
proof -
  have ok: "heap_ok h" and hd: "cells h l = Some (DList a)"
    and a: "cells h a = Some (Node \<lparr>nd_prev = 0, nd_next = 0, nd_element = e\<rparr>)"
    using d by (simp_all add: dlist_def)
  show ?thesis using ok hd a
    by (simp add: unlink_node_def heap_simps dlist_def frame_def)
qed

lemma unlink_node_front:
  assumes d: "dlist h l ((a, e) # (b, f) # ys)" and i: "index \<le> 0"
  shows "\<exists>h'. unlink_node h l a a index = Inr h' \<and> dlist h' l ((b, f) # ys) \<and>
           frame ({l} \<union> fst ` set ((b, f) # ys)) h h' \<and>
           next_addr h' = next_addr h \<and> budget h' = budget h"
proof -
  have ok: "heap_ok h" and hd: "cells h l = Some (DList a)"
    and a: "cells h a = Some (Node \<lparr>nd_prev = 0, nd_next = b, nd_element = e\<rparr>)"
    and b: "cells h b = Some (Node \<lparr>nd_prev = a, nd_next = first_of ys 0, nd_element = f\<rparr>)"
    and tl: "seg h b ys 0" and dist: "distinct (map fst ((a, e) # (b, f) # ys))"
    using d by (simp_all add: dlist_def)
  have ne: "b \<noteq> 0" "l \<noteq> a" "l \<noteq> b" "l \<notin> fst ` set ys"
    using dlist_struct_not_node [OF d] dlist_node_nonnull [OF d, of b f] by auto
  show ?thesis using ok hd a b tl dist ne i
    by (simp add: unlink_node_def heap_simps dlist_def frame_def)
qed

lemma unlink_node_middle:
  assumes d: "dlist h l (xs @ (p, ep) # (a, e) # (b, f) # ys)"
    and i: "index = int (length xs) + 1"
  shows "\<exists>h'. unlink_node h l (first_of (xs @ (p, ep) # (a, e) # (b, f) # ys) 0) a index = Inr h' \<and>
           dlist h' l (xs @ (p, ep) # (b, f) # ys) \<and>
           frame ({l} \<union> fst ` set (xs @ (p, ep) # (b, f) # ys)) h h' \<and>
           next_addr h' = next_addr h \<and> budget h' = budget h"
proof -
  let ?ns = "xs @ (p, ep) # (a, e) # (b, f) # ys"
  have ok: "heap_ok h" and hd: "cells h l = Some (DList (first_of ?ns 0))"
    and dist: "distinct (map fst ?ns)" and s: "seg h 0 xs p" "seg h b ys 0"
    and p: "cells h p = Some (Node \<lparr>nd_prev = last_of 0 xs, nd_next = a, nd_element = ep\<rparr>)"
    and a: "cells h a = Some (Node \<lparr>nd_prev = p, nd_next = b, nd_element = e\<rparr>)"
    and b: "cells h b = Some (Node \<lparr>nd_prev = a, nd_next = first_of ys 0, nd_element = f\<rparr>)"
    using d by (simp_all add: dlist_def)
  have ne: "l \<notin> fst ` set ?ns" "p \<noteq> 0" "a \<noteq> 0" "b \<noteq> 0"
    using dlist_struct_not_node [OF d] dlist_node_nonnull [OF d, of p ep]
      dlist_node_nonnull [OF d, of a e] dlist_node_nonnull [OF d, of b f] by auto
  obtain n where first: "read_node h (first_of ?ns 0) = Inr n" "nd_next n \<noteq> 0"
    by (rule dlist_first_next [OF d]) auto
  have size: "dpl_size h l = Inr (int (length ?ns))" by (rule dpl_size_dlist [OF d])
  have fo: "first_of (xs @ (p, ep) # (b, f) # ys) 0 = first_of ?ns 0"
    by (simp add: first_of_append)
  show ?thesis using ok hd s p a b ne dist size first i fo
    by (simp add: unlink_node_def heap_simps dlist_def frame_def image_Un)
qed

lemma unlink_node_end:
  assumes d: "dlist h l (xs @ [(p, ep), (a, e)])" and i: "int (length xs) < index"
  shows "\<exists>h'. unlink_node h l (first_of (xs @ [(p, ep), (a, e)]) 0) a index = Inr h' \<and>
           dlist h' l (xs @ [(p, ep)]) \<and>
           frame ({l} \<union> fst ` set (xs @ [(p, ep)])) h h' \<and>
           next_addr h' = next_addr h \<and> budget h' = budget h"
proof -
  let ?ns = "xs @ [(p, ep), (a, e)]"
  have ok: "heap_ok h" and hd: "cells h l = Some (DList (first_of ?ns 0))"
    and dist: "distinct (map fst ?ns)" and s: "seg h 0 xs p"
    and p: "cells h p = Some (Node \<lparr>nd_prev = last_of 0 xs, nd_next = a, nd_element = ep\<rparr>)"
    and a: "cells h a = Some (Node \<lparr>nd_prev = p, nd_next = 0, nd_element = e\<rparr>)"
    using d by (simp_all add: dlist_def)
  have ne: "l \<notin> fst ` set ?ns" "p \<noteq> 0" "a \<noteq> 0"
    using dlist_struct_not_node [OF d] dlist_node_nonnull [OF d, of p ep]
      dlist_node_nonnull [OF d, of a e] by auto
  obtain n where first: "read_node h (first_of ?ns 0) = Inr n" "nd_next n \<noteq> 0"
    by (rule dlist_first_next [OF d]) auto
  have size: "dpl_size h l = Inr (int (length ?ns))" by (rule dpl_size_dlist [OF d])
  have fo: "first_of (xs @ [(p, ep)]) 0 = first_of ?ns 0" by (simp add: first_of_append)
  show ?thesis using ok hd s p a ne dist size first i fo
    by (simp add: unlink_node_def heap_simps dlist_def frame_def image_Un)
qed

text \<open>All four cases together.\<close>

lemma unlink_node_dlist:
  assumes d: "dlist h l (xs @ (a, e) # ys)"
    and i: "ref_pos index (length (xs @ (a, e) # ys)) = length xs"
  shows "\<exists>h'. unlink_node h l (first_of (xs @ (a, e) # ys) 0) a index = Inr h' \<and>
           dlist h' l (xs @ ys) \<and> frame ({l} \<union> fst ` set (xs @ ys)) h h' \<and>
           next_addr h' = next_addr h \<and> budget h' = budget h"
proof (cases ys)
  case Nil
  note ys = this
  show ?thesis
  proof (cases xs rule: rev_cases)
    case Nil
    then show ?thesis using unlink_node_single [of h l a e index] d ys by simp
  next
    case (snoc zs p)
    then have "int (length zs) < index" using i ys by (simp add: ref_pos_def; linarith)
    then show ?thesis using unlink_node_end [of h l zs "fst p" "snd p" a e index] d ys snoc by simp
  qed
next
  case (Cons b bs)
  note ys = this
  show ?thesis
  proof (cases xs rule: rev_cases)
    case Nil
    then have "index \<le> 0" using i ys by (simp add: ref_pos_def)
    then show ?thesis
      using unlink_node_front [of h l a e "fst b" "snd b" bs index] d ys Nil by simp
  next
    case (snoc zs p)
    then have "index = int (length zs) + 1" using i ys by (simp add: ref_pos_def; linarith)
    then show ?thesis
      using unlink_node_middle [of h l zs "fst p" "snd p" a e "fst b" "snd b" bs index] d ys snoc
      by simp
  qed
qed

section \<open>Removal\<close>

definition owned_element :: "'o dheap \<Rightarrow> addr \<Rightarrow> bool" where
  "owned_element h e \<longleftrightarrow> e = 0 \<or> (\<exists>ob. cells h e = Some (Obj ob))"

text \<open>The two calls of \<open>free\<close>, on the element and on the node.\<close>

lemma free_element_and_node:
  assumes ok: "heap_ok h" and n: "cells h a = Some (Node n)" and own: "owned_element h e"
  shows "\<exists>h1 h'. cfree h e = Inr h1 \<and> cfree h1 a = Inr h' \<and> heap_ok h' \<and>
           cells h' = (cells h)(a := None, e := None) \<and>
           next_addr h' = next_addr h \<and> budget h' = budget h"
proof (cases "e = 0")
  case True
  have "(cells h)(a := None) = (cells h)(a := None, 0 := None)"
    using heap_ok_null [OF ok] by auto
  then show ?thesis using ok True cfree_ok [OF n ok] by simp
next
  case False
  then obtain ob where e: "cells h e = Some (Obj ob)" using own by (auto simp: owned_element_def)
  then have ne: "a \<noteq> e" using n by auto
  then have "cells (freed e h) a = Some (Node n)" using n by simp
  note fr = cfree_ok [OF this heap_ok_freed [OF ok]]
  show ?thesis using ok ne by (simp add: cfree_ok [OF e ok] fr fun_upd_twist)
qed

lemma release_node_plain:
  assumes ok: "heap_ok h" and n: "cells h a = Some (Node n)" and own: "owned_element h (nd_element n)"
  shows "\<exists>h'. release_node cb h a False = Inr h' \<and> heap_ok h' \<and>
           cells h' = (cells h)(a := None, nd_element n := None) \<and>
           next_addr h' = next_addr h \<and> budget h' = budget h"
  using free_element_and_node [OF ok n own]
  by (auto simp: release_node_def read_node_ok [OF n ok])

lemma dpl_remove_at_index_empty:
  "dlist h l [] \<Longrightarrow> dpl_remove_at_index cb h l index fe = Inr (l, h)"
  by (simp add: dpl_remove_at_index_def dlist_nonnull dlist_get_head)

lemma dpl_remove_at_index_dlist:
  assumes d: "dlist h l ns" and ne: "ns \<noteq> []"
    and pos: "ref_pos index (length ns) = i" and own: "owned_element h (snd (ns ! i))"
  shows "\<exists>h'. dpl_remove_at_index cb h l index False = Inr (l, h') \<and>
           dlist h' l (remove_nth i ns) \<and>
           cells h' (fst (ns ! i)) = None \<and> cells h' (snd (ns ! i)) = None \<and>
           frame ({l, snd (ns ! i)} \<union> fst ` set ns) h h' \<and>
           next_addr h' = next_addr h \<and> budget h' = budget h"
proof -
  have "i < length ns" using pos ne ref_pos_less by auto
  moreover obtain a e where ae: "ns ! i = (a, e)" by fastforce
  ultimately obtain xs ys where ns: "ns = xs @ (a, e) # ys" and i: "i = length xs"
    using split_at_nth [of i ns] that by (metis length_take min.absorb4)
  have ref: "ref_at ns index = a" using ne pos ae by (simp add: ref_at_def)
  obtain h1 where h1: "unlink_node h l (first_of ns 0) a index = Inr h1" "dlist h1 l (xs @ ys)"
      "frame ({l} \<union> fst ` set (xs @ ys)) h h1" "next_addr h1 = next_addr h" "budget h1 = budget h"
    using unlink_node_dlist [of h l xs a e ys index] d pos ns i by auto
  have out: "a \<notin> insert l (fst ` set (xs @ ys))"
    using dlist_struct_not_node [OF d] dlist_distinct [OF d] ns by auto
  obtain n where n: "cells h a = Some (Node n)" "nd_element n = e"
    using dlist_node [OF d, of a e] ns by auto
  have n1: "cells h1 a = Some (Node n)" using h1(3) out n by (simp add: frame_def)
  have eout: "e \<noteq> 0 \<Longrightarrow> e \<notin> insert l (fst ` set ns)"
    using own ae dlist_obj_not_node [OF d, of e] dlist_head [OF d] by (auto simp: owned_element_def)
  have "owned_element h1 (nd_element n)"
    using own ae n(2) eout h1(3) ns by (auto simp: owned_element_def frame_def)
  from release_node_plain [OF dlist_ok [OF h1(2)] n1 this, of cb] obtain h2 where
    h2: "release_node cb h1 a False = Inr h2" "heap_ok h2"
      "cells h2 = (cells h1)(a := None, e := None)"
      "next_addr h2 = next_addr h1" "budget h2 = budget h1"
    using n(2) by auto
  have "x \<noteq> e" if "x \<in> insert l (fst ` set (xs @ ys))" for x
    using that eout ns dlist_head [OF d] dlist_nonnull [OF d] dlist_node_nonnull [OF d] by fastforce
  then have "dlist h2 l (xs @ ys)" using h2 out by (intro dlist_cong [OF h1(2)]) auto
  moreover have "dpl_remove_at_index cb h l index False = Inr (l, h2)"
    using h1(1) h2(1) ne first_of_zero_iff [OF d] ref dlist_nonnull [OF d]
    by (simp add: dpl_remove_at_index_def dlist_get_head [OF d] dpl_get_reference_at_index_dlist [OF d])
  moreover have "frame ({l, e} \<union> fst ` set ns) h h2"
    using h1(3) h2(3) ns by (auto simp: frame_def)
  ultimately show ?thesis using h1 h2 ae ns i by simp
qed

section \<open>Removal by reference and by element\<close>

lemma dpl_remove_at_reference_dlist:
  assumes d: "dlist h l (xs @ (a, e) # ys)" and own: "owned_element h e"
  shows "\<exists>h'. dpl_remove_at_reference cb h l a False = Inr (l, h') \<and> dlist h' l (xs @ ys) \<and>
           cells h' a = None \<and> cells h' e = None \<and>
           frame ({l, e} \<union> fst ` set (xs @ (a, e) # ys)) h h'"
proof -
  let ?ns = "xs @ (a, e) # ys"
  have "map fst ?ns ! length xs = a" by (simp add: nth_append)
  then have ix: "dpl_get_index_of_reference h l a = Inr (int (length xs))"
    using index_where_eq_nth [OF dlist_distinct [OF d], of "length xs"]
    by (simp add: dpl_get_index_of_reference_dlist [OF d])
  have "ref_pos (int (length xs)) (length ?ns) = length xs" by (simp add: ref_pos_def)
  from dpl_remove_at_index_dlist [OF d _ this, of cb] own
  obtain h' where "dpl_remove_at_index cb h l (int (length xs)) False = Inr (l, h')"
    "dlist h' l (xs @ ys)" "cells h' a = None" "cells h' e = None"
    "frame ({l, e} \<union> fst ` set ?ns) h h'"
    by (auto simp: nth_append)
  then show ?thesis
    using ix dlist_nonnull [OF d] first_of_zero_iff [OF d] dlist_node_nonnull [OF d, of a e]
    by (simp add: dpl_remove_at_reference_def dlist_get_head [OF d])
qed

lemma dpl_remove_at_reference_absent:
  "dlist h l ns \<Longrightarrow> ns \<noteq> [] \<Longrightarrow> r \<noteq> 0 \<Longrightarrow> r \<notin> fst ` set ns \<Longrightarrow>
     dpl_remove_at_reference cb h l r fe = Inr (l, h)"
  by (simp add: dpl_remove_at_reference_def dlist_nonnull dlist_get_head first_of_zero_iff
      dpl_get_index_of_reference_def search_ref_absent)

text \<open>The first match goes, and nothing changes when there is none.\<close>

lemma dpl_remove_element_dlist:
  assumes d: "dlist h l ns" and c: "compares cb h cmp (insert element (snd ` set ns))"
    and j: "index_where (matches cmp element) (map snd ns) = j"
    and own: "j \<noteq> -1 \<Longrightarrow> owned_element h (snd (ns ! nat j))"
  shows "\<exists>h'. dpl_remove_element cb h l element False = Inr (l, h') \<and>
           dlist h' l (if j = -1 then ns else remove_nth (nat j) ns) \<and>
           frame ({l} \<union> set (map snd ns) \<union> fst ` set ns) h h' \<and> (j = -1 \<longrightarrow> h' = h)"
proof (cases "j = -1")
  case True
  then have "dpl_remove_element cb h l element False = Inr (l, h)"
    using j dlist_nonnull [OF d]
    by (simp add: dpl_remove_element_def dlist_get_head [OF d]
        dpl_get_index_of_element_dlist [OF d c])
  then show ?thesis using d True by simp
next
  case False
  have f: "0 \<le> j" "nat j < length ns" using index_where_found [OF j False] by auto
  then have ne: "ns \<noteq> []" and pos: "ref_pos j (length ns) = nat j" by (auto simp: ref_pos_def)
  obtain h' where h': "dpl_remove_at_index cb h l j False = Inr (l, h')"
    "dlist h' l (remove_nth (nat j) ns)" "frame ({l, snd (ns ! nat j)} \<union> fst ` set ns) h h'"
    using dpl_remove_at_index_dlist [OF d ne pos own [OF False]] by blast
  have "frame ({l} \<union> set (map snd ns) \<union> fst ` set ns) h h'"
    by (rule frame_mono [OF h'(3)]) (use f in auto)
  then show ?thesis
    using h' False j ne first_of_zero_iff [OF d] dlist_nonnull [OF d]
    by (simp add: dpl_remove_element_def dlist_get_head [OF d]
        dpl_get_index_of_element_dlist [OF d c])
qed

section \<open>Release of a whole list\<close>

text \<open>The elements are owned one by one: no two nodes share one.\<close>

definition owned_elements :: "'o dheap \<Rightarrow> dnode list \<Rightarrow> bool" where
  "owned_elements h ns \<longleftrightarrow>
     (\<forall>e \<in> snd ` set ns. owned_element h e) \<and> distinct (filter (\<lambda>e. e \<noteq> 0) (map snd ns))"

lemma free_loop_plain:
  "heap_ok h \<Longrightarrow> cells h l = Some (DList (first_of ns 0)) \<Longrightarrow> seg h pr ns 0 \<Longrightarrow>
   distinct (map fst ns) \<Longrightarrow> owned_elements h ns \<Longrightarrow> length ns < fuel \<Longrightarrow>
   \<exists>h'. free_loop fuel cb h l False = Inr h' \<and> heap_ok h' \<and> cells h' l = Some (DList 0) \<and>
        (\<forall>a \<in> fst ` set ns \<union> snd ` set ns. cells h' a = None) \<and>
        frame ({l} \<union> fst ` set ns \<union> snd ` set ns) h h'"
proof (induction ns arbitrary: h pr fuel)
  case Nil
  then show ?case by (cases fuel) (simp_all add: heap_simps)
next
  case (Cons n ns)
  obtain f where f: "fuel = Suc f" "length ns < f" using Cons.prems by (cases fuel) auto
  obtain a e where n: "n = (a, e)" by fastforce
  have ok: "heap_ok h" and tl: "seg h a ns 0"
    and a: "cells h a = Some (Node \<lparr>nd_prev = pr, nd_next = first_of ns 0, nd_element = e\<rparr>)"
    and hd: "cells h l = Some (DList a)"
    using Cons.prems n by simp_all
  let ?h1 = "written l (DList (first_of ns 0)) h"
  have ok1: "heap_ok ?h1" and ne: "l \<noteq> a" "a \<noteq> 0" using ok hd a heap_ok_live [OF ok a] by auto
  have a1: "cells ?h1 a = Some (Node \<lparr>nd_prev = pr, nd_next = first_of ns 0, nd_element = e\<rparr>)"
    using a ne by simp
  have own: "owned_element h e" using Cons.prems(5) n by (simp add: owned_elements_def)
  have le: "e \<noteq> l" using own hd ok by (auto simp: owned_element_def)
  have en: "x \<noteq> e" if "x \<in> fst ` set ns" for x
    using that own seg_live [OF tl] ok by (force simp: owned_element_def)
  have "owned_element ?h1 e" using own le by (simp add: owned_element_def)
  then obtain hf h2 where fr: "cfree ?h1 e = Inr hf" "cfree hf a = Inr h2"
    and h2: "heap_ok h2" "cells h2 = (cells ?h1)(a := None, e := None)"
    using free_element_and_node [OF ok1 a1] by blast
  have an: "a \<notin> fst ` set ns" using Cons.prems(4) n by auto
  have step: "free_loop fuel cb h l False = free_loop f cb h2 l False"
    using f(1) ne fr
    by (simp add: get_head_ok [OF hd ok] set_head_ok [OF hd ok] read_node_ok [OF a ok]
        read_node_ok [OF a1 ok1])
  have "cells h2 l = Some (DList (first_of ns 0))" using h2(2) ne le by auto
  moreover have "seg h2 a ns 0"
  proof (rule seg_cong [THEN iffD2, OF _ tl])
    fix x assume x: "x \<in> fst ` set ns"
    then have "x \<noteq> l" using seg_live [OF tl] hd by force
    then show "cells h2 x = cells h x" using h2(2) en [OF x] an x by auto
  qed
  moreover have "owned_elements h2 ns"
  proof -
    have "owned_element h2 y" if y: "y \<in> snd ` set ns" for y
    proof (cases "y = 0")
      case False
      then obtain ob where ob: "cells h y = Some (Obj ob)"
        using y Cons.prems(5) by (auto simp: owned_elements_def owned_element_def)
      have "y \<noteq> e" using False y Cons.prems(5) n by (auto simp: owned_elements_def split: if_splits)
      then show ?thesis using ob hd a h2(2) by (auto simp: owned_element_def)
    qed (simp add: owned_element_def)
    then show ?thesis using Cons.prems(5) by (auto simp: owned_elements_def split: if_splits)
  qed
  ultimately obtain h3 where h3: "free_loop f cb h2 l False = Inr h3" "heap_ok h3"
      "cells h3 l = Some (DList 0)" "\<forall>x \<in> fst ` set ns \<union> snd ` set ns. cells h3 x = None"
      "frame ({l} \<union> fst ` set ns \<union> snd ` set ns) h2 h3"
    using Cons.IH [of h2 a f] h2(1) Cons.prems(4) f(2) by auto
  have dead: "cells h3 x = None" if "cells h2 x = None" "x \<noteq> l" for x
    using that h3(4,5) by (cases "x \<in> fst ` set ns \<union> snd ` set ns") (auto simp: frame_def)
  have "cells h3 a = None" "cells h3 e = None" using dead [of a] dead [of e] h2(2) ne le by auto
  moreover have "frame ({l} \<union> fst ` set (n # ns) \<union> snd ` set (n # ns)) h h3"
    using h3(5) h2(2) n by (auto simp: frame_def)
  ultimately show ?case using step h3 n by auto
qed

lemma dpl_free_dlist:
  assumes d: "dlist h l ns" and own: "owned_elements h ns"
  shows "\<exists>h'. dpl_free cb h l False = Inr (0, h') \<and> heap_ok h' \<and>
           (\<forall>a \<in> {l} \<union> fst ` set ns \<union> snd ` set ns. cells h' a = None) \<and>
           frame ({l} \<union> fst ` set ns \<union> snd ` set ns) h h'"
proof -
  obtain h1 where h1: "free_loop (next_addr h) cb h l False = Inr h1" "heap_ok h1"
      "cells h1 l = Some (DList 0)" "\<forall>a \<in> fst ` set ns \<union> snd ` set ns. cells h1 a = None"
      "frame ({l} \<union> fst ` set ns \<union> snd ` set ns) h h1"
    using free_loop_plain [OF dlist_ok [OF d] dlist_head [OF d] dlist_seg [OF d]
        dlist_distinct [OF d] own dlist_length [OF d], of cb] by blast
  have "dpl_free cb h l False = Inr (0, freed l h1)"
    using h1 dlist_nonnull [OF d] cfree_ok [OF h1(3,2)] by (simp add: dpl_free_def)
  then show ?thesis using h1 by (auto simp: frame_def)
qed

lemma dpl_free_null [simp]: "dpl_free cb h 0 fe = Inr (0, h)"
  by (simp add: dpl_free_def)

text \<open>
  A callback that releases the element and leaves the pointer as it was makes the
  \<open>free\<close> that follows it release the element a second time.
\<close>

definition frees_keeps :: "'o callbacks \<Rightarrow> bool" where
  "frees_keeps cb \<longleftrightarrow> (\<forall>h e. element_free cb h e = bindE (cfree h e) (\<lambda>h'. Inr (e, h')))"

lemma release_node_double_free:
  assumes ok: "heap_ok h" and n: "cells h a = Some (Node n)"
    and e: "cells h (nd_element n) = Some (Obj ob)" and fk: "frees_keeps cb"
  shows "release_node cb h a True = Inl BadFree"
proof -
  let ?h1 = "freed (nd_element n) h"
  have ne: "a \<noteq> nd_element n" using n e by auto
  have n1: "cells ?h1 a = Some (Node n)" using n ne by simp
  let ?n' = "nd_element_update (\<lambda>_. nd_element n) n"
  have ok1: "heap_ok ?h1" using ok by simp
  have "heap_ok (written a (Node ?n') ?h1)" using ok1 n1 by simp
  then have rd: "read_node (written a (Node ?n') ?h1) a = Inr ?n'" by (intro read_node_ok) simp_all
  have "nd_element n \<noteq> 0" using heap_ok_live [OF ok e] by simp
  then have "cfree (written a (Node ?n') ?h1) (nd_element n) = Inl BadFree"
    using ne by (intro cfree_dead) simp_all
  then show ?thesis using fk rd
    by (simp add: release_node_def read_node_ok [OF n ok] frees_keeps_def cfree_ok [OF e ok]
        upd_node_ok [OF n1 ok1])
qed

end
