(* ===== verification/Dplist_Sorted.thy ===== *)
theory Dplist_Sorted
  imports Dplist_Removal
begin

text \<open>
  Sorted insertion. The contract of the comparison callback in lib/dplist.h is the locale
  \<open>element_order\<close>: it answers \<open>-1\<close>, \<open>0\<close> or \<open>1\<close> and orders the
  elements. The components that provide a callback interpret it. Under the contract the
  search stops and keeps the list sorted; with an answer of \<open>2\<close> the search does not
  come to an end.
\<close>

section \<open>The contract of the comparison callback\<close>

locale element_order =
  fixes cmp :: "'k \<Rightarrow> 'k \<Rightarrow> int"
  assumes cmp_range: "cmp x y \<in> {-1, 0, 1}"
    and cmp_flip: "cmp y x = - cmp x y"
    and cmp_trans: "cmp x y \<le> 0 \<Longrightarrow> cmp y z \<le> 0 \<Longrightarrow> cmp x z \<le> 0"
begin

text \<open>The order on the contents of the nodes: NULL comes before everything.\<close>

definition le :: "'k option \<Rightarrow> 'k option \<Rightarrow> bool" where
  "le x y = (case x of None \<Rightarrow> True
     | Some k \<Rightarrow> (case y of None \<Rightarrow> False | Some m \<Rightarrow> cmp k m \<le> 0))"

text \<open>Where the search stops for the key \<open>k\<close>.\<close>

definition pos :: "'k \<Rightarrow> 'k option list \<Rightarrow> nat" where
  "pos k xs = length (takeWhile (\<lambda>y. case y of None \<Rightarrow> True | Some m \<Rightarrow> cmp k m = 1) xs)"

lemma cmp_refl: "cmp x x = 0"
  using cmp_flip [of x x] by simp

lemma le_refl [simp]: "le x x"
  by (simp add: le_def cmp_refl split: option.split)

lemma le_trans: "le x y \<Longrightarrow> le y z \<Longrightarrow> le x z"
  by (auto simp: le_def split: option.splits intro: cmp_trans)

lemma cmp_one: "cmp k m = 1 \<longleftrightarrow> \<not> cmp k m \<le> 0"
  using cmp_range [of k m] by auto

lemma le_total: "le x y \<or> le y x"
proof (cases x; cases y)
  fix k m assume "x = Some k" "y = Some m"
  then show ?thesis using cmp_flip [of k m] by (auto simp: le_def)
qed (simp_all add: le_def)

lemma passed_le: "(case y of None \<Rightarrow> True | Some m \<Rightarrow> cmp k m = 1) \<longleftrightarrow> \<not> le (Some k) y"
  by (simp add: le_def cmp_one split: option.split)

lemma pos_eq: "pos k xs = length (takeWhile (\<lambda>y. \<not> le (Some k) y) xs)"
  by (simp only: pos_def passed_le)

lemma pos_le: "pos k xs \<le> length xs"
  by (simp add: pos_def length_takeWhile_le)

lemma sorted_insert_key:
  assumes s: "sorted_wrt le xs"
  shows "sorted_wrt le (insert_nth (pos k xs) (Some k) xs)"
proof -
  let ?P = "\<lambda>y. \<not> le (Some k) y"
  have split: "take (pos k xs) xs = takeWhile ?P xs" "drop (pos k xs) xs = dropWhile ?P xs"
    by (simp_all only: pos_eq takeWhile_eq_take [symmetric] dropWhile_eq_drop [symmetric])
  have before: "le y (Some k)" if "y \<in> set (takeWhile ?P xs)" for y
    using set_takeWhileD [OF that] le_total by blast
  have s2: "sorted_wrt le (takeWhile ?P xs @ dropWhile ?P xs)" using s by simp
  have after: "le (Some k) y" if "y \<in> set (dropWhile ?P xs)" for y
  proof (cases "dropWhile ?P xs")
    case (Cons z zs)
    have "\<not> ?P z" using hd_dropWhile [of ?P xs] Cons by simp
    moreover have "z = y \<or> le z y"
      using that s2 Cons by (auto simp: sorted_wrt_append)
    ultimately show ?thesis using le_trans [of "Some k" z y] by auto
  next
    case Nil
    then have "y \<in> set []" using that by (simp only:)
    then show ?thesis by simp
  qed
  show ?thesis
    unfolding insert_nth_def split
  proof (rule sorted_wrt_append [THEN iffD2], intro conjI ballI)
    show "sorted_wrt le (takeWhile ?P xs)"
      using s2 by (rule sorted_wrt_append [THEN iffD1, THEN conjunct1])
    have "sorted_wrt le (dropWhile ?P xs)"
      using s2 by (rule sorted_wrt_append [THEN iffD1, THEN conjunct2, THEN conjunct1])
    then show "sorted_wrt le (Some k # dropWhile ?P xs)"
      by (intro sorted_wrt.simps(2) [THEN iffD2] conjI ballI after)
    fix x y assume x: "x \<in> set (takeWhile ?P xs)" and "y \<in> set (Some k # dropWhile ?P xs)"
    then consider "y = Some k" | "y \<in> set (dropWhile ?P xs)" by auto
    then show "le x y" by cases (use x before [OF x] after le_trans in blast)+
  qed
qed

lemma sorted_insert_null:
  "sorted_wrt le xs \<Longrightarrow> sorted_wrt le (None # xs)"
  by (simp add: le_def)

end

section \<open>The search\<close>

text \<open>The keys that the callback sees behind the element pointers.\<close>

definition key_of :: "(addr \<Rightarrow> 'k) \<Rightarrow> addr \<Rightarrow> 'k option" where
  "key_of key e = (if e = 0 then None else Some (key e))"

definition keys :: "(addr \<Rightarrow> 'k) \<Rightarrow> dnode list \<Rightarrow> 'k option list" where
  "keys key ns = map (key_of key \<circ> snd) ns"

text \<open>The search loop without the heap.\<close>

definition passes :: "('k \<Rightarrow> 'k \<Rightarrow> int) \<Rightarrow> 'k \<Rightarrow> 'k option list \<Rightarrow> nat" where
  "passes cmp k xs = length (takeWhile (\<lambda>y. case y of None \<Rightarrow> True | Some m \<Rightarrow> cmp k m = 1) xs)"

lemma sorted_loop_seg:
  assumes ok: "heap_ok h" and range: "\<And>x y. cmp x y \<in> {-1, 0, 1 :: int}" and e: "e \<noteq> 0"
  shows "seg h pr ns 0 \<Longrightarrow> length ns < fuel \<Longrightarrow>
     compares cb h (\<lambda>x y. cmp (key x) (key y)) (insert e (snd ` set ns)) \<Longrightarrow>
     sorted_loop fuel cb h (first_of ns 0) e index =
     Inr (index + int (passes cmp (key e) (keys key ns)))"
proof (induction ns arbitrary: pr fuel index)
  case Nil
  then show ?case by (cases fuel) (simp_all add: passes_def keys_def)
next
  case (Cons n ns)
  obtain f where f: "fuel = Suc f" "length ns < f" using Cons.prems by (cases fuel) auto
  note rd = seg_first [OF Cons.prems(1) ok]
  have c: "snd n \<noteq> 0 \<Longrightarrow> element_compare cb h e (snd n) = Inr (cmp (key e) (key (snd n)))"
    using Cons.prems(3) e by (simp add: compares_def)
  have "compares cb h (\<lambda>x y. cmp (key x) (key y)) (insert e (snd ` set ns))"
    using Cons.prems(3) by (simp add: compares_def)
  note IH = Cons.IH [OF seg_tail [OF Cons.prems(1)] f(2) this, of "index + 1"]
  show ?case
    using rd f(1) IH c range [of "key e" "key (snd n)"]
    by (auto simp: passes_def keys_def key_of_def)
qed

text \<open>
  Where the code inserts: at the front for a NULL element or an empty list, else where the
  search stops.
\<close>

definition sorted_index :: "('k \<Rightarrow> 'k \<Rightarrow> int) \<Rightarrow> (addr \<Rightarrow> 'k) \<Rightarrow> addr \<Rightarrow> dnode list \<Rightarrow> nat" where
  "sorted_index cmp key e ns = (if e = 0 then 0 else passes cmp (key e) (keys key ns))"

lemma passes_le: "passes cmp k (keys key ns) \<le> length ns"
  by (metis keys_def length_map length_takeWhile_le passes_def)

lemma sorted_index_le: "sorted_index cmp key e ns \<le> length ns"
  by (simp add: sorted_index_def passes_le)

lemma dpl_insert_sorted_dlist:
  assumes d: "dlist h l ns" and b: "0 < budget h"
    and range: "\<And>x y. cmp x y \<in> {-1, 0, 1 :: int}"
    and c: "compares cb h (\<lambda>x y. cmp (key x) (key y)) (insert e (snd ` set ns))"
  shows "\<exists>h'. dpl_insert_sorted cb h l e False = Inr (l, h') \<and>
           dlist h' l (insert_nth (sorted_index cmp key e ns) (next_addr h, e) ns) \<and>
           frame ({l, next_addr h} \<union> fst ` set ns) h h'"
proof -
  let ?i = "sorted_index cmp key e ns"
  have "ins_pos (int ?i) (length ns) = ?i" using sorted_index_le [of cmp key e ns] by (simp add: ins_pos_def)
  then obtain h' where h': "dpl_insert_at_index cb h l e (int ?i) False = Inr (l, h')"
      "dlist h' l (insert_nth ?i (next_addr h, e) ns)"
      "frame ({l, next_addr h} \<union> fst ` set ns) h h'"
    using dpl_insert_at_index_dlist [OF d b, of cb e "int ?i"] by auto
  have "dpl_insert_sorted cb h l e False = dpl_insert_at_index cb h l e (int ?i) False"
  proof (cases "ns = [] \<or> e = 0")
    case True
    then have "?i = 0" using sorted_index_le [of cmp key e ns] by (auto simp: sorted_index_def)
    then show ?thesis using True dlist_nonnull [OF d] first_of_zero_iff [OF d]
      by (auto simp: dpl_insert_sorted_def dlist_get_head [OF d])
  next
    case False
    then have "sorted_loop (next_addr h) cb h (first_of ns 0) e 0 = Inr (int ?i)"
      using sorted_loop_seg [where cmp = cmp and key = key and index = 0,
          OF dlist_ok [OF d] range _ dlist_seg [OF d] dlist_length [OF d] c]
      by (simp add: sorted_index_def)
    then show ?thesis using False dlist_nonnull [OF d] first_of_zero_iff [OF d]
      by (simp add: dpl_insert_sorted_def dlist_get_head [OF d])
  qed
  then show ?thesis using h' by simp
qed

text \<open>An answer above 1 leaves the search at the same node for ever.\<close>

lemma sorted_loop_stuck:
  assumes "cells h a = Some (Node n)" "heap_ok h" "nd_element n \<noteq> 0"
    and "element_compare cb h e (nd_element n) = Inr c" "1 < c"
  shows "sorted_loop fuel cb h a e index = Inl Diverges"
  using assms heap_ok_live [OF assms(2,1)]
  by (induction fuel) (simp_all add: read_node_ok)

section \<open>Sorted insertion keeps a list sorted\<close>

context element_order
begin

lemma insert_sorted_keys:
  assumes "sorted_wrt le (keys key ns)"
  shows "sorted_wrt le (keys key (insert_nth (sorted_index cmp key e ns) (a, e) ns))"
proof (cases "e = 0")
  case True
  then show ?thesis using sorted_insert_null [OF assms]
    by (simp add: sorted_index_def keys_def key_of_def)
next
  case False
  have "keys key (insert_nth (passes cmp (key e) (keys key ns)) (a, e) ns) =
      insert_nth (pos (key e) (keys key ns)) (Some (key e)) (keys key ns)"
    using False by (simp add: keys_def map_insert_nth key_of_def pos_def passes_def)
  then show ?thesis using sorted_insert_key [OF assms, of "key e"] False
    by (simp add: sorted_index_def)
qed

end

section \<open>Insertion at a reference\<close>

lemma dpl_insert_at_reference_dlist:
  assumes d: "dlist h l (xs @ (r, f) # ys)" and b: "0 < budget h"
  shows "\<exists>h'. dpl_insert_at_reference cb h l e r False = Inr (l, h') \<and>
           dlist h' l (xs @ (next_addr h, e) # (r, f) # ys) \<and>
           frame ({l, next_addr h} \<union> fst ` set (xs @ (r, f) # ys)) h h'"
proof -
  let ?ns = "xs @ (r, f) # ys"
  have "map fst ?ns ! length xs = r" by (simp add: nth_append)
  then have ix: "dpl_get_index_of_reference h l r = Inr (int (length xs))"
    using index_where_eq_nth [OF dlist_distinct [OF d], of "length xs"]
    by (simp add: dpl_get_index_of_reference_dlist [OF d])
  have "insert_nth (ins_pos (int (length xs)) (length ?ns)) (next_addr h, e) ?ns =
      xs @ (next_addr h, e) # (r, f) # ys"
    by (simp add: ins_pos_def insert_nth_def)
  then show ?thesis
    using dpl_insert_at_index_dlist [OF d b, of cb e "int (length xs)"] ix dlist_nonnull [OF d]
      dlist_node_nonnull [OF d, of r f]
    by (auto simp: dpl_insert_at_reference_def)
qed

lemma dpl_insert_at_reference_absent:
  "dlist h l ns \<Longrightarrow> r \<noteq> 0 \<Longrightarrow> r \<notin> fst ` set ns \<Longrightarrow>
     dpl_insert_at_reference cb h l e r copy = Inr (l, h)"
  by (simp add: dpl_insert_at_reference_def dlist_nonnull dpl_get_index_of_reference_def
      search_ref_absent)

end
