(* ===== verification/Dplist_Objects.thy ===== *)
theory Dplist_Objects
  imports Dplist_Sorted
begin

text \<open>
  Lists whose nodes own objects of the client, each node its own: the content of such a list
  is the sequence of its objects' values. The components that keep their data in dplists work
  with these lemmas.
\<close>

text \<open>\<open>f\<close> makes an object of a value.\<close>

definition elem_list :: "('v \<Rightarrow> 'o) \<Rightarrow> 'o dheap \<Rightarrow> addr \<Rightarrow> dnode list \<Rightarrow> 'v list \<Rightarrow> bool" where
  "elem_list f h l ns vs \<longleftrightarrow>
     dlist h l ns \<and> distinct (map snd ns) \<and>
     map (cells h \<circ> snd) ns = map (\<lambda>v. Some (Obj (f v))) vs"

lemma elem_list_dlist: "elem_list f h l ns vs \<Longrightarrow> dlist h l ns"
  and elem_list_distinct: "elem_list f h l ns vs \<Longrightarrow> distinct (map snd ns)"
  by (simp_all add: elem_list_def)

lemma elem_list_ok: "elem_list f h l ns vs \<Longrightarrow> heap_ok h"
  using elem_list_dlist dlist_ok by blast

lemma elem_list_length: "elem_list f h l ns vs \<Longrightarrow> length ns = length vs"
  by (auto simp: elem_list_def dest: map_eq_imp_length_eq)

lemma elem_list_nth:
  "elem_list f h l ns vs \<Longrightarrow> i < length vs \<Longrightarrow> cells h (snd (ns ! i)) = Some (Obj (f (vs ! i)))"
  by (metis (no_types, lifting) comp_apply nth_map elem_list_def elem_list_length)

lemma elem_list_element:
  assumes "elem_list f h l ns vs" and "e \<in> snd ` set ns"
  obtains v where "cells h e = Some (Obj (f v))"
proof -
  from assms(2) obtain i where "i < length ns" "snd (ns ! i) = e"
    by (metis imageE in_set_conv_nth)
  then show ?thesis using elem_list_nth [OF assms(1), of i] elem_list_length [OF assms(1)] that by auto
qed

lemma elem_list_empty: "dlist h l [] \<Longrightarrow> elem_list f h l [] []"
  by (simp add: elem_list_def)

lemma elem_list_size: "elem_list f h l ns vs \<Longrightarrow> dpl_size h l = Inr (int (length vs))"
  using dpl_size_dlist elem_list_dlist elem_list_length by metis

lemma elem_list_cong:
  assumes t: "elem_list f h l ns vs" and ok: "heap_ok h'"
    and same: "\<And>a. a \<in> {l} \<union> fst ` set ns \<union> snd ` set ns \<Longrightarrow> cells h' a = cells h a"
  shows "elem_list f h' l ns vs"
  unfolding elem_list_def
proof (intro conjI)
  show "dlist h' l ns" by (rule dlist_cong [OF elem_list_dlist [OF t] ok]) (use same in auto)
  show "distinct (map snd ns)" by (rule elem_list_distinct [OF t])
  have "map (cells h' \<circ> snd) ns = map (cells h \<circ> snd) ns" using same by simp
  then show "map (cells h' \<circ> snd) ns = map (\<lambda>v. Some (Obj (f v))) vs"
    using t by (simp only: elem_list_def)
qed

text \<open>The objects of the list are apart from the list's own nodes and struct.\<close>

lemma elem_list_apart:
  assumes t: "elem_list f h l ns vs" and e: "cells h e = Some (Obj ob)"
  shows "e \<notin> insert l (fst ` set ns)"
  using dlist_obj_not_node [OF elem_list_dlist [OF t] e] dlist_head [OF elem_list_dlist [OF t]] e
  by auto

text \<open>The element that \<open>dpl_get_element_at_index\<close> finds.\<close>

lemma elem_list_get:
  assumes t: "elem_list f h l ns vs" and i: "ref_pos index (length vs) = i" "vs \<noteq> []"
  shows "dpl_get_element_at_index h l index = Inr (snd (ns ! i))"
    and "cells h (snd (ns ! i)) = Some (Obj (f (vs ! i)))"
proof -
  have "ns \<noteq> []" using i(2) elem_list_length [OF t] by auto
  then show "dpl_get_element_at_index h l index = Inr (snd (ns ! i))"
    using dpl_get_element_at_index_dlist [OF elem_list_dlist [OF t]] i elem_list_length [OF t]
    by (simp add: element_at_def)
  have "i < length vs" using i ref_pos_less [of "length vs" index] by simp
  then show "cells h (snd (ns ! i)) = Some (Obj (f (vs ! i)))" by (rule elem_list_nth [OF t])
qed

section \<open>Insertion\<close>

text \<open>An object that is in no node yet becomes an element.\<close>

lemma elem_list_extend:
  assumes t: "elem_list f h l ns vs" and d': "dlist h' l (insert_nth k (nd, e) ns)"
    and e: "cells h' e = Some (Obj (f v))" "e \<notin> snd ` set ns"
    and keep: "\<And>x ob. cells h x = Some (Obj ob) \<Longrightarrow> x \<in> snd ` set ns \<Longrightarrow> cells h' x = Some (Obj ob)"
  shows "elem_list f h' l (insert_nth k (nd, e) ns) (insert_nth k v vs)"
proof -
  have "map (cells h' \<circ> snd) ns = map (cells h \<circ> snd) ns"
    using elem_list_element [OF t] keep by (intro map_cong refl) (metis comp_apply image_eqI)
  then have "map (cells h' \<circ> snd) ns = map (\<lambda>v. Some (Obj (f v))) vs"
    using t by (simp only: elem_list_def)
  then have "map (cells h' \<circ> snd) (insert_nth k (nd, e) ns) = map (\<lambda>v. Some (Obj (f v))) (insert_nth k v vs)"
    using e(1) by (simp add: map_insert_nth)
  moreover have "distinct (map snd (insert_nth k (nd, e) ns))"
    unfolding map_insert_nth using e(2) elem_list_distinct [OF t]
    by (intro distinct_insert_nth) simp_all
  ultimately show ?thesis using d' by (simp add: elem_list_def)
qed

lemma elem_list_insert:
  assumes t: "elem_list f h l ns vs" and e: "cells h e = Some (Obj (f v))"
    and new: "e \<notin> snd ` set ns" and b: "0 < budget h"
  shows "\<exists>h'. dpl_insert_at_index cb h l e index False = Inr (l, h') \<and>
           elem_list f h' l (insert_nth (ins_pos index (length vs)) (next_addr h, e) ns)
             (insert_nth (ins_pos index (length vs)) v vs) \<and>
           frame ({l, next_addr h} \<union> fst ` set ns) h h' \<and>
           next_addr h' = Suc (next_addr h) \<and> budget h' = budget h - 1"
proof -
  note d = elem_list_dlist [OF t]
  obtain h' where h': "dpl_insert_at_index cb h l e index False = Inr (l, h')"
      "dlist h' l (insert_nth (ins_pos index (length vs)) (next_addr h, e) ns)"
      "frame ({l, next_addr h} \<union> fst ` set ns) h h'"
      "next_addr h' = Suc (next_addr h)" "budget h' = budget h - 1"
    using dpl_insert_at_index_dlist [OF d b, of cb e index] elem_list_length [OF t] by auto
  have keep: "cells h' x = Some (Obj ob)" if x: "cells h x = Some (Obj ob)" for x ob
  proof -
    have "x \<noteq> next_addr h" using x heap_ok_fresh [OF dlist_ok [OF d]] by auto
    then show ?thesis using elem_list_apart [OF t x] frameD [OF h'(3), of x] x by simp
  qed
  from elem_list_extend [OF t h'(2) keep [OF e] new keep] h' show ?thesis by blast
qed

text \<open>Insertion of a copy that the callback has made in a new object.\<close>

lemma elem_list_insert_copy:
  assumes t: "elem_list f h l ns vs" and b: "0 < budget h"
    and cp: "element_copy cb (alloced (Node raw_node) h) e = Inr (e', h2)"
    and ok2: "heap_ok h2" and new: "cells h2 e' = Some (Obj (f v))" "cells (alloced (Node raw_node) h) e' = None"
    and fr: "frame {e'} (alloced (Node raw_node) h) h2"
  shows "\<exists>h'. dpl_insert_at_index cb h l e index True = Inr (l, h') \<and>
           elem_list f h' l (insert_nth (ins_pos index (length vs)) (next_addr h, e') ns)
             (insert_nth (ins_pos index (length vs)) v vs) \<and>
           frame ({l, next_addr h} \<union> fst ` set ns) h2 h' \<and>
           next_addr h' = next_addr h2 \<and> budget h' = budget h2"
proof -
  note d = elem_list_dlist [OF t]
  let ?h1 = "alloced (Node raw_node) h"
  have el: "(if True then element_copy cb ?h1 e else Inr (e, ?h1)) = Inr (e', h2)" using cp by simp
  have same: "cells h2 a = cells ?h1 a" if "cells ?h1 a \<noteq> None" for a
    using that new(2) by (intro frameD [OF fr]) auto
  obtain h' where h': "dpl_insert_at_index cb h l e index True = Inr (l, h')"
      "dlist h' l (insert_nth (ins_pos index (length vs)) (next_addr h, e') ns)"
      "frame ({l, next_addr h} \<union> fst ` set ns) h2 h'"
      "next_addr h' = next_addr h2" "budget h' = budget h2"
    using dpl_insert_at_index_copied [OF d b el ok2 same, of index] elem_list_length [OF t] by auto
  have ok: "heap_ok h" by (rule dlist_ok [OF d])
  have keep: "cells h' x = Some (Obj ob)" if x: "cells h x = Some (Obj ob)" for x ob
  proof -
    have ne: "x \<noteq> next_addr h" using x heap_ok_fresh [OF ok] by auto
    then have "cells h2 x = Some (Obj ob)" using same [of x] x by simp
    then show ?thesis using elem_list_apart [OF t x] ne frameD [OF h'(3), of x] by simp
  qed
  have e1: "e' \<noteq> next_addr h" and e2: "cells h e' = None" using new(2) by (auto split: if_splits)
  have "e' \<notin> insert l (fst ` set ns)"
    using e2 dlist_head [OF d] dlist_nodeE [OF d, of e'] by auto
  then have e': "cells h' e' = Some (Obj (f v))" using new(1) e1 frameD [OF h'(3), of e'] by simp
  have "e' \<notin> snd ` set ns" using e2 elem_list_element [OF t, of e'] by auto
  from elem_list_extend [OF t h'(2) e' this keep] h' show ?thesis by blast
qed

section \<open>Removal\<close>

lemma nth_notin_remove_nth:
  "distinct xs \<Longrightarrow> i < length xs \<Longrightarrow> xs ! i \<notin> set (remove_nth i xs)"
  using split_at_nth [of i xs] by (metis distinct_append distinct.simps(2) not_distinct_conv_prefix
      remove_nth_def Un_iff set_append disjoint_iff list.set_intros(1))

lemma distinct_remove_nth: "distinct xs \<Longrightarrow> distinct (remove_nth i xs)"
  by (auto simp: remove_nth_def distinct_append dest: in_set_takeD in_set_dropD
      set_take_disj_set_drop_if_distinct [of xs i "Suc i"])

lemma elem_list_remove:
  assumes t: "elem_list f h l ns vs" and ne: "vs \<noteq> []" and pos: "ref_pos index (length vs) = i"
  shows "\<exists>h'. dpl_remove_at_index cb h l index False = Inr (l, h') \<and>
           elem_list f h' l (remove_nth i ns) (remove_nth i vs) \<and>
           frame ({l, snd (ns ! i)} \<union> fst ` set ns) h h' \<and>
           cells h' (fst (ns ! i)) = None \<and> cells h' (snd (ns ! i)) = None \<and>
           next_addr h' = next_addr h \<and> budget h' = budget h"
proof -
  note d = elem_list_dlist [OF t] and len = elem_list_length [OF t]
  have ne': "ns \<noteq> []" and pos': "ref_pos index (length ns) = i" and il: "i < length ns"
    using ne pos len ref_pos_less [of "length vs" index] by auto
  let ?e = "snd (ns ! i)"
  have ce: "cells h ?e = Some (Obj (f (vs ! i)))" using elem_list_nth [OF t, of i] il len by simp
  then have own: "owned_element h ?e" by (simp add: owned_element_def)
  obtain h' where h': "dpl_remove_at_index cb h l index False = Inr (l, h')"
      "dlist h' l (remove_nth i ns)" "frame ({l, ?e} \<union> fst ` set ns) h h'"
      "cells h' (fst (ns ! i)) = None" "cells h' ?e = None" "next_addr h' = next_addr h" "budget h' = budget h"
    using dpl_remove_at_index_dlist [OF d ne' pos' own, of cb] by blast
  have keep: "cells h' (snd n) = cells h (snd n)" if n: "n \<in> set (remove_nth i ns)" for n
  proof -
    have "?e \<notin> set (remove_nth i (map snd ns))"
      using nth_notin_remove_nth [OF elem_list_distinct [OF t], of i] il by simp
    moreover have "snd n \<in> set (remove_nth i (map snd ns))" using n by (simp add: map_remove_nth [symmetric])
    ultimately have "snd n \<noteq> ?e" by metis
    moreover have "snd n \<in> snd ` set ns" using n set_remove_nth_subset by fastforce
    ultimately show ?thesis
      using elem_list_element [OF t] elem_list_apart [OF t, of "snd n"] h'(3)
      by (metis UnE emptyE frame_def insert_iff)
  qed
  have "map (cells h' \<circ> snd) (remove_nth i ns) = map (cells h \<circ> snd) (remove_nth i ns)"
    using keep by simp
  then have "map (cells h' \<circ> snd) (remove_nth i ns) = map (\<lambda>v. Some (Obj (f v))) (remove_nth i vs)"
    using t by (simp only: elem_list_def map_remove_nth)
  moreover have "distinct (map snd (remove_nth i ns))"
    using distinct_remove_nth [OF elem_list_distinct [OF t]] by (simp add: map_remove_nth)
  ultimately have "elem_list f h' l (remove_nth i ns) (remove_nth i vs)"
    using h'(2) by (simp add: elem_list_def)
  then show ?thesis using h' by blast
qed

section \<open>Writing to an element\<close>

lemma elem_list_write:
  assumes t: "elem_list f h l ns vs" and i: "i < length vs"
  shows "elem_list f (written (snd (ns ! i)) (Obj (f v)) h) l ns (vs[i := v])"
proof -
  let ?e = "snd (ns ! i)" and ?h' = "written (snd (ns ! i)) (Obj (f v)) h"
  note d = elem_list_dlist [OF t] and len = elem_list_length [OF t] and nth = elem_list_nth [OF t]
  have ok: "heap_ok ?h'" using elem_list_ok [OF t] nth [OF i] by simp
  have "dlist ?h' l ns"
    using elem_list_apart [OF t nth [OF i]] by (intro dlist_cong [OF d ok]) auto
  moreover have "map (cells ?h' \<circ> snd) ns = map (\<lambda>v. Some (Obj (f v))) (vs[i := v])"
  proof (rule nth_equalityI)
    fix j assume "j < length (map (cells ?h' \<circ> snd) ns)"
    then have j: "j < length vs" using len by simp
    have "snd (ns ! j) = ?e \<longleftrightarrow> j = i"
      using elem_list_distinct [OF t] i j len nth_eq_iff_index_eq [of "map snd ns" j i] by simp
    then show "map (cells ?h' \<circ> snd) ns ! j = map (\<lambda>v. Some (Obj (f v))) (vs[i := v]) ! j"
      using nth [OF j] j i len by (cases "j = i") auto
  qed (simp add: len)
  ultimately show ?thesis using elem_list_distinct [OF t] by (simp add: elem_list_def)
qed

text \<open>Releasing the list releases the objects with it.\<close>

lemma elem_list_free:
  assumes t: "elem_list f h l ns vs"
  shows "\<exists>h'. dpl_free cb h l False = Inr (0, h') \<and> heap_ok h' \<and>
           (\<forall>a \<in> {l} \<union> fst ` set ns \<union> snd ` set ns. cells h' a = None) \<and>
           frame ({l} \<union> fst ` set ns \<union> snd ` set ns) h h'"
proof -
  have "owned_elements h ns"
    using elem_list_element [OF t] elem_list_distinct [OF t]
    by (auto simp: owned_elements_def owned_element_def distinct_filter)
  from dpl_free_dlist [OF elem_list_dlist [OF t] this] show ?thesis .
qed

end
