(* ===== verification/CDouble.thy ===== *)
theory CDouble
  imports Complex_Main "HOL-Library.Word"
begin

text \<open>
  The C type \<open>double\<close>: a finite value, an infinity or a NaN. The arithmetic operations
  follow IEEE 754: the exact result of the operation on the operands, rounded; infinities and
  NaNs as the standard has them. How a finite result is rounded is the parameter
  \<open>rnd\<close>, which also decides what overflows: \<open>rnd = Fin\<close> is arithmetic without
  rounding. The sign of a zero is not kept: no operation of the sources divides by a value
  that can be zero. A bit pattern of eight bytes is read as the standard says
  (\<open>double_of_bits\<close>).
\<close>

datatype double = Fin rat | PInf | NInf | NaN

definition signed_inf :: "bool \<Rightarrow> double" where
  "signed_inf neg = (if neg then NInf else PInf)"

fun dneg :: "double \<Rightarrow> double" where
  "dneg (Fin a) = Fin (- a)"
| "dneg PInf = NInf"
| "dneg NInf = PInf"
| "dneg NaN = NaN"

fun dadd :: "(rat \<Rightarrow> double) \<Rightarrow> double \<Rightarrow> double \<Rightarrow> double" where
  "dadd rnd NaN y = NaN"
| "dadd rnd x NaN = NaN"
| "dadd rnd (Fin a) (Fin b) = rnd (a + b)"
| "dadd rnd PInf NInf = NaN"
| "dadd rnd NInf PInf = NaN"
| "dadd rnd PInf y = PInf"
| "dadd rnd NInf y = NInf"
| "dadd rnd (Fin a) y = y"

definition dsub :: "(rat \<Rightarrow> double) \<Rightarrow> double \<Rightarrow> double \<Rightarrow> double" where
  "dsub rnd x y = dadd rnd x (dneg y)"

text \<open>The sign of an operand that is not a NaN; \<open>0\<close> for the value zero.\<close>

fun dsgn :: "double \<Rightarrow> rat" where
  "dsgn (Fin a) = sgn a"
| "dsgn PInf = 1"
| "dsgn NInf = -1"
| "dsgn NaN = 0"

fun dmul :: "(rat \<Rightarrow> double) \<Rightarrow> double \<Rightarrow> double \<Rightarrow> double" where
  "dmul rnd NaN y = NaN"
| "dmul rnd x NaN = NaN"
| "dmul rnd (Fin a) (Fin b) = rnd (a * b)"
| "dmul rnd x y = (if dsgn x = 0 \<or> dsgn y = 0 then NaN else signed_inf (dsgn x * dsgn y < 0))"

text \<open>Division; the divisor zero gives a NaN or the infinity for a positive zero.\<close>

fun ddiv :: "(rat \<Rightarrow> double) \<Rightarrow> double \<Rightarrow> double \<Rightarrow> double" where
  "ddiv rnd NaN y = NaN"
| "ddiv rnd x NaN = NaN"
| "ddiv rnd (Fin a) (Fin b) =
     (if b = 0 then (if a = 0 then NaN else signed_inf (a < 0)) else rnd (a / b))"
| "ddiv rnd (Fin a) y = Fin 0"
| "ddiv rnd x (Fin b) = signed_inf ((x = NInf) \<noteq> (b < 0))"
| "ddiv rnd x y = NaN"

text \<open>Comparison: false as soon as a NaN takes part.\<close>

fun dless :: "double \<Rightarrow> double \<Rightarrow> bool" where
  "dless (Fin a) (Fin b) = (a < b)"
| "dless NInf (Fin b) = True"
| "dless (Fin a) PInf = True"
| "dless NInf PInf = True"
| "dless x y = False"

text \<open>Conversion of an \<open>int\<close>, which is exact.\<close>

definition double_of_int :: "int \<Rightarrow> double" where
  "double_of_int i = Fin (of_int i)"

lemma dadd_NaN [simp]: "dadd rnd NaN y = NaN" "dadd rnd x NaN = NaN"
  by (cases x; simp)+

lemma dmul_NaN [simp]: "dmul rnd NaN y = NaN" "dmul rnd x NaN = NaN"
  by (cases x; simp)+

lemma ddiv_NaN [simp]: "ddiv rnd NaN y = NaN" "ddiv rnd x NaN = NaN"
  by (cases x; simp)+

lemma dsub_NaN [simp]: "dsub rnd NaN y = NaN" "dsub rnd x NaN = NaN"
  by (simp_all add: dsub_def)

lemma dsub_Fin [simp]: "dsub rnd (Fin a) (Fin b) = rnd (a - b)"
  by (simp add: dsub_def)

lemma dless_NaN [simp]: "\<not> dless NaN y" "\<not> dless x NaN"
  by (cases x; simp)+

lemma dless_irrefl [simp]: "\<not> dless x x"
  by (cases x) simp_all

lemma dless_trans: "dless x y \<Longrightarrow> dless y z \<Longrightarrow> dless x z"
  by (cases x; cases y; cases z) simp_all

section \<open>Bit patterns\<close>

text \<open>Sign bit, eleven bits of exponent, fifty-two bits of fraction.\<close>

definition double_of_bits :: "64 word \<Rightarrow> double" where
  "double_of_bits w =
     (let neg = bit w 63;
          ex = unat (take_bit 11 (drop_bit 52 w));
          fr = unat (take_bit 52 w);
          mag = (if ex = 0 then of_nat fr / 2 ^ 1074
                 else if 1075 \<le> ex then of_nat (2 ^ 52 + fr) * 2 ^ (ex - 1075)
                 else of_nat (2 ^ 52 + fr) / 2 ^ (1075 - ex))
      in if ex = 2047 then (if fr = 0 then signed_inf neg else NaN)
         else Fin (if neg then - mag else mag))"

lemma double_of_bits_20: "double_of_bits 0x4034000000000000 = Fin 20"
  by (simp add: double_of_bits_def)

lemma double_of_bits_NaN: "double_of_bits 0x7FF8000000000000 = NaN"
  by (simp add: double_of_bits_def)

end
