(* ===== verification/CFormat.thy ===== *)
theory CFormat
  imports CDouble "HOL-Library.Char_ord"
begin

text \<open>
  The formatted output and input that the sources use: \<open>%d\<close>, \<open>%ld\<close>, \<open>%hu\<close>,
  \<open>%hd\<close> and \<open>%f\<close> of the \<open>printf\<close> family, \<open>snprintf\<close>'s truncation, and
  \<open>%hd\<close> of \<open>scanf\<close>. Text is a list of bytes.
\<close>

section \<open>Output\<close>

definition newline :: char where
  "newline = CHR 0x0A"

definition digit_char :: "nat \<Rightarrow> char" where
  "digit_char n = char_of (48 + n)"

fun show_nat :: "nat \<Rightarrow> string" where
  "show_nat n = (if n < 10 then [digit_char n] else show_nat (n div 10) @ [digit_char (n mod 10)])"

declare show_nat.simps [simp del]

definition show_int :: "int \<Rightarrow> string" where
  "show_int i = (if i < 0 then ''-'' @ show_nat (nat (- i)) else show_nat (nat i))"

text \<open>\<open>%hu\<close> and \<open>%hd\<close> of a \<open>uint16_t\<close>: the second reads it as signed.\<close>

definition fmt_hu :: "16 word \<Rightarrow> string" where
  "fmt_hu w = show_nat (unat w)"

definition fmt_hd :: "16 word \<Rightarrow> string" where
  "fmt_hd w = show_int (sint w)"

text \<open>\<open>%d\<close> of a \<open>uint16_t\<close>, which is promoted to \<open>int\<close>, and \<open>%ld\<close> of a \<open>time_t\<close>.\<close>

definition fmt_d16 :: "16 word \<Rightarrow> string" where
  "fmt_d16 w = show_int (uint w)"

definition fmt_ld :: "64 word \<Rightarrow> string" where
  "fmt_ld w = show_int (sint w)"

text \<open>Rounding to the nearest integer, ties to even, as \<open>printf\<close> rounds.\<close>

definition round_even :: "rat \<Rightarrow> int" where
  "round_even r =
     (let f = \<lfloor>r\<rfloor>; d = r - of_int f in
      if d < 1/2 then f else if 1/2 < d then f + 1 else if even f then f else f + 1)"

text \<open>
  \<open>%f\<close> (and \<open>%lf\<close>): six digits after the point. The model of \<open>double\<close> has one zero and one NaN; a
  library that prints the sign of a negative zero or of a NaN writes a \<open>-\<close> more for them.
\<close>

definition pad6 :: "nat \<Rightarrow> string" where
  "pad6 n = map (\<lambda>k. digit_char (n div 10 ^ k mod 10)) [5, 4, 3, 2, 1, 0]"

fun fmt_f :: "double \<Rightarrow> string" where
  "fmt_f (Fin q) =
     (let n = nat (round_even (\<bar>q\<bar> * 1000000)) in
      (if q < 0 then ''-'' else '''') @ show_nat (n div 1000000) @ ''.'' @ pad6 (n mod 1000000))"
| "fmt_f PInf = ''inf''"
| "fmt_f NInf = ''-inf''"
| "fmt_f NaN = ''nan''"

text \<open>\<open>snprintf (buf, n, ...)\<close> keeps what fits beside the terminating zero.\<close>

definition snprintf :: "nat \<Rightarrow> string \<Rightarrow> string" where
  "snprintf n s = take (n - 1) s"

section \<open>Input\<close>

definition is_space :: "char \<Rightarrow> bool" where
  "is_space c = (let n = of_char c :: nat in n = 32 \<or> 9 \<le> n \<and> n \<le> 13)"

definition is_digit :: "char \<Rightarrow> bool" where
  "is_digit c = (let n = of_char c :: nat in 48 \<le> n \<and> n \<le> 57)"

definition digit_val :: "char \<Rightarrow> nat" where
  "digit_val c = of_char c - 48"

definition digits_val :: "string \<Rightarrow> nat" where
  "digits_val ds = foldl (\<lambda>n c. 10 * n + digit_val c) 0 ds"

datatype scanned = Eof | NoMatch string | Scanned int string

text \<open>
  One \<open>%d\<close> conversion: white space, an optional sign, digits. At the end of the input it
  reports so; without a digit it does not match and has consumed the white space and the
  sign. The last argument of \<open>Scanned\<close> is what is left of the input.
\<close>

definition scan_int :: "string \<Rightarrow> scanned" where
  "scan_int s =
     (case dropWhile is_space s of
        [] \<Rightarrow> Eof
      | c # cs \<Rightarrow>
          (let (neg, body) = (if c = CHR ''-'' then (True, cs)
                              else if c = CHR ''+'' then (False, cs) else (False, c # cs));
               ds = takeWhile is_digit body
           in if ds = [] then NoMatch body
              else Scanned (if neg then - int (digits_val ds) else int (digits_val ds))
                     (dropWhile is_digit body)))"

text \<open>
  \<open>%hd\<close>: the value goes through \<open>long\<close>, where it saturates, to the low two bytes.
\<close>

definition to_short :: "int \<Rightarrow> 16 word" where
  "to_short i = word_of_int (max (- (2 ^ 63)) (min (2 ^ 63 - 1) i))"

text \<open>
  \<open>fscanf (fp, "%hd %hd", &a, &b)\<close>: the return value, the two variables and the rest
  of the input. A variable that is not reached keeps its value.
\<close>

definition fscanf_hd_hd :: "string \<Rightarrow> 16 word \<Rightarrow> 16 word \<Rightarrow> int \<times> 16 word \<times> 16 word \<times> string" where
  "fscanf_hd_hd s a b =
     (case scan_int s of
        Eof \<Rightarrow> (-1, a, b, [])
      | NoMatch r \<Rightarrow> (0, a, b, r)
      | Scanned i r \<Rightarrow>
          (case scan_int r of
             Eof \<Rightarrow> (1, to_short i, b, [])
           | NoMatch r' \<Rightarrow> (1, to_short i, b, r')
           | Scanned j r' \<Rightarrow> (2, to_short i, to_short j, r')))"

section \<open>Printing and reading back\<close>

lemma of_char_digit [simp]: "n < 10 \<Longrightarrow> of_char (digit_char n) = (48 + n :: nat)"
  by (simp add: digit_char_def)

lemma is_digit_digit [simp]: "n < 10 \<Longrightarrow> is_digit (digit_char n)"
  by (simp add: is_digit_def)

lemma digit_val_digit [simp]: "n < 10 \<Longrightarrow> digit_val (digit_char n) = n"
  by (simp add: digit_val_def)

lemma digits_val_snoc: "digits_val (ds @ [c]) = 10 * digits_val ds + digit_val c"
  by (simp add: digits_val_def)

lemma show_nat_nonempty: "show_nat n \<noteq> []"
  by (subst show_nat.simps) simp

lemma show_nat_digits: "c \<in> set (show_nat n) \<Longrightarrow> is_digit c"
proof (induction n rule: show_nat.induct)
  case (1 n)
  then show ?case by (subst (asm) (2) show_nat.simps) (auto split: if_splits)
qed

lemma digits_val_show_nat: "digits_val (show_nat n) = n"
proof (induction n rule: show_nat.induct)
  case (1 n)
  show ?case
  proof (cases "n < 10")
    case True
    then show ?thesis by (subst show_nat.simps) (simp add: digits_val_def)
  next
    case False
    then show ?thesis using 1 by (subst show_nat.simps) (simp add: digits_val_snoc)
  qed
qed

lemma show_nat_inject: "show_nat m = show_nat n \<Longrightarrow> m = n"
  by (metis digits_val_show_nat)

lemma digit_not_space: "is_digit c \<Longrightarrow> \<not> is_space c"
  by (auto simp: is_digit_def is_space_def Let_def)

lemma digit_not_sign: "is_digit c \<Longrightarrow> c \<noteq> CHR ''-'' \<and> c \<noteq> CHR ''+''"
  by (auto simp: is_digit_def)

text \<open>A printed number followed by something that is not a digit is read back as it was.\<close>

lemma scan_show_nat:
  assumes "rest = [] \<or> \<not> is_digit (hd rest)" and "\<forall>c \<in> set ws. is_space c"
  shows "scan_int (ws @ show_nat n @ rest) = Scanned (int n) rest"
proof -
  obtain c cs where s: "show_nat n = c # cs" using show_nat_nonempty [of n] by (cases "show_nat n") auto
  have dig: "\<forall>x \<in> set (show_nat n). is_digit x" using show_nat_digits by blast
  then have c: "is_digit c" using s by simp
  have dw: "dropWhile is_space (ws @ show_nat n @ rest) = show_nat n @ rest"
    using assms(2) digit_not_space [OF c] s by (simp add: dropWhile_append3)
  have tw: "takeWhile is_digit (show_nat n @ rest) = show_nat n"
    and dr: "dropWhile is_digit (show_nat n @ rest) = rest"
    using dig assms(1) by (cases rest; auto simp: takeWhile_append2 dropWhile_append2)+
  show ?thesis
    unfolding scan_int_def dw
    using digit_not_sign [OF c] c tw dr digits_val_show_nat [of n] unfolding s by simp
qed

lemma saturate_small: "n < 65536 \<Longrightarrow> max (- (2 ^ 63)) (min (2 ^ 63 - 1) (int n)) = int n"
  by (simp add: min_def max_def)

lemma to_short_uint: "to_short (int (unat w)) = w"
proof -
  have "unat w < 2 ^ LENGTH(16)" by (rule unsigned_less)
  then have "unat w < 65536" by simp
  from saturate_small [OF this] show ?thesis by (simp only: to_short_def) simp
qed

text \<open>Reading a conversion consumes at least one character.\<close>

lemma scan_int_shorter: "scan_int s = Scanned i r \<Longrightarrow> length r < length s"
proof -
  assume sc: "scan_int s = Scanned i r"
  obtain c cs where d: "dropWhile is_space s = c # cs"
    using sc by (cases "dropWhile is_space s") (auto simp: scan_int_def)
  have len: "length (c # cs) \<le> length s" by (metis d length_dropWhile_le)
  define body where "body = (if c = CHR ''-'' \<or> c = CHR ''+'' then cs else c # cs)"
  have b: "takeWhile is_digit body \<noteq> []" "r = dropWhile is_digit body"
    using sc d by (auto simp: scan_int_def body_def Let_def split: if_splits)
  have le: "length body \<le> length (c # cs)" by (simp add: body_def)
  have "length body = length (takeWhile is_digit body) + length r"
    using b(2) by (metis length_append takeWhile_dropWhile_id)
  moreover have "0 < length (takeWhile is_digit body)" using b(1) by simp
  ultimately show ?thesis using le len by linarith
qed

lemma scan_int_nomatch_le: "scan_int s = NoMatch r \<Longrightarrow> length r \<le> length s"
proof -
  assume sc: "scan_int s = NoMatch r"
  obtain c cs where d: "dropWhile is_space s = c # cs"
    using sc by (cases "dropWhile is_space s") (auto simp: scan_int_def)
  have "length (c # cs) \<le> length s" by (metis d length_dropWhile_le)
  then show ?thesis using sc d by (auto simp: scan_int_def Let_def split: if_splits)
qed

lemma fscanf_hd_hd_shorter:
  "fscanf_hd_hd s a b = (k, a', b', r) \<Longrightarrow> 0 < k \<Longrightarrow> length r < length s"
  by (auto simp: fscanf_hd_hd_def split: scanned.splits
      dest!: scan_int_shorter scan_int_nomatch_le)

end
