(* ===== verification/Config.thy ===== *)
theory Config
  imports CFormat
begin

text \<open>
  The measurement that the components hand to each other, config.h: a sensor's id, a
  temperature and a time stamp (\<open>time_t\<close> has eight bytes).
\<close>

record sensor_data_t =
  data_id :: "16 word"
  data_value :: double
  data_ts :: "64 word"

end
