(* ===== verification/Datamgr.thy ===== *)
theory Datamgr
  imports Dplist_Objects Config
begin

text \<open>
  The data manager, datamgr.c, over the C heap: sensors and their temperature lists are
  dplists, each sensor and each temperature an object of its own. One round of the main loop,
  from the measurement that \<open>sbuffer_get_data\<close> has copied out to the messages that the
  round logs, is \<open>process_measurement\<close>; the loop around it, which waits for the shared
  buffer, is the manager of the theory Threads. The room map is the text of the file.
\<close>

section \<open>Structs\<close>

record sensor_t =
  sensor_id :: "16 word"
  room_id :: "16 word"
  running_avg :: double
  last_modified :: "64 word"
  temperatures :: addr

text \<open>The objects that the data manager gets from \<open>malloc\<close>.\<close>

datatype dm_obj = Sensor sensor_t | Temp double | Data sensor_data_t

type_synonym dm_heap = "dm_obj dheap"

definition RUN_AVG_LENGTH :: nat where "RUN_AVG_LENGTH = 5"
definition SET_MIN_TEMP :: int where "SET_MIN_TEMP = 10"
definition SET_MAX_TEMP :: int where "SET_MAX_TEMP = 20"

definition read_sensor :: "dm_heap \<Rightarrow> addr \<Rightarrow> sensor_t res" where
  "read_sensor h p =
     bindE (load h p) (\<lambda>c. case c of Obj (Sensor s) \<Rightarrow> Inr s | _ \<Rightarrow> Inl InvalidPtr)"

definition upd_sensor :: "dm_heap \<Rightarrow> addr \<Rightarrow> (sensor_t \<Rightarrow> sensor_t) \<Rightarrow> dm_heap res" where
  "upd_sensor h p f = bindE (read_sensor h p) (\<lambda>s. store h p (Obj (Sensor (f s))))"

definition read_temp :: "dm_heap \<Rightarrow> addr \<Rightarrow> double res" where
  "read_temp h p =
     bindE (load h p) (\<lambda>c. case c of Obj (Temp v) \<Rightarrow> Inr v | _ \<Rightarrow> Inl InvalidPtr)"

definition read_data :: "dm_heap \<Rightarrow> addr \<Rightarrow> sensor_data_t res" where
  "read_data h p =
     bindE (load h p) (\<lambda>c. case c of Obj (Data d) \<Rightarrow> Inr d | _ \<Rightarrow> Inl InvalidPtr)"

section \<open>Callbacks\<close>

text \<open>
  \<open>((sensor_t *) p)->sensor_id\<close>. The main loop passes the address of the \<open>id\<close> of a
  \<open>sensor_data_t\<close> as well: the \<open>uint16_t\<close> at the start of either struct.
\<close>

definition id_at :: "dm_heap \<Rightarrow> addr \<Rightarrow> 16 word res" where
  "id_at h p =
     bindE (load h p) (\<lambda>c. case c of
         Obj (Sensor s) \<Rightarrow> Inr (sensor_id s)
       | Obj (Data d) \<Rightarrow> Inr (data_id d)
       | _ \<Rightarrow> Inl InvalidPtr)"

definition compare_ids :: "16 word \<Rightarrow> 16 word \<Rightarrow> int" where
  "compare_ids x y = (if x < y then -1 else if x = y then 0 else 1)"

definition sensor_compare :: "dm_heap \<Rightarrow> addr \<Rightarrow> addr \<Rightarrow> int res" where
  "sensor_compare h sensor1 sensor2 =
     bindE (id_at h sensor1) (\<lambda>x. bindE (id_at h sensor2) (\<lambda>y. Inr (compare_ids x y)))"

text \<open>
  Lists that are released with \<open>free_element\<close> false and filled with \<open>insert_copy\<close>
  false do not call their callbacks: the temperature lists are given these.
\<close>

definition temp_callbacks :: "'o callbacks" where
  "temp_callbacks = \<lparr>element_copy = (\<lambda>h e. Inl InvalidPtr), element_free = (\<lambda>h e. Inl InvalidPtr),
                     element_compare = (\<lambda>h x y. Inl InvalidPtr)\<rparr>"

definition sensor_free :: "dm_heap \<Rightarrow> addr \<Rightarrow> (addr \<times> dm_heap) res" where
  "sensor_free h sensor =
     bindE (read_sensor h sensor) (\<lambda>s.
     bindE (dpl_free temp_callbacks h (temperatures s) False) (\<lambda>(t, h1).
     bindE (upd_sensor h1 sensor (temperatures_update (\<lambda>_. t))) (\<lambda>h2.
     bindE (cfree h2 sensor) (\<lambda>h3. Inr (0, h3)))))"

text \<open>
  The copy does not get the running average, and its list gets the element pointers of the
  original. \<open>raw\<close> is what \<open>malloc\<close> leaves in a sensor, by address.
\<close>

fun copy_loop :: "nat \<Rightarrow> dm_heap \<Rightarrow> addr \<Rightarrow> addr \<Rightarrow> int \<Rightarrow> dm_heap res" where
  "copy_loop 0 h from into i = Inr h"
| "copy_loop (Suc k) h from into i =
     bindE (dpl_get_element_at_index h from i) (\<lambda>e.
     bindE (dpl_insert_at_index temp_callbacks h into e i False) (\<lambda>(_, h1).
     copy_loop k h1 from into (i + 1)))"

definition sensor_copy :: "(addr \<Rightarrow> sensor_t) \<Rightarrow> dm_heap \<Rightarrow> addr \<Rightarrow> (addr \<times> dm_heap) res" where
  "sensor_copy raw h sensor =
     (let (copy, h1) = malloc (Obj (Sensor (raw (next_addr h)))) h in
      bindE (assertE (copy \<noteq> 0)) (\<lambda>_.
      bindE (read_sensor h1 sensor) (\<lambda>s.
      bindE (upd_sensor h1 copy (\<lambda>c. c\<lparr>sensor_id := sensor_id s, room_id := room_id s,
               last_modified := last_modified s\<rparr>)) (\<lambda>h2.
      bindE (dpl_create h2) (\<lambda>(t, h3).
      bindE (upd_sensor h3 copy (temperatures_update (\<lambda>_. t))) (\<lambda>h4.
      bindE (copy_loop RUN_AVG_LENGTH h4 (temperatures s) t 0) (\<lambda>h5.
      Inr (copy, h5))))))))"

definition sensor_callbacks :: "(addr \<Rightarrow> sensor_t) \<Rightarrow> dm_obj callbacks" where
  "sensor_callbacks raw = \<lparr>element_copy = sensor_copy raw, element_free = sensor_free,
                           element_compare = sensor_compare\<rparr>"

section \<open>Reading the room map\<close>

lemma bindE_cong [fundef_cong]:
  "r = r' \<Longrightarrow> (\<And>x. r' = Inr x \<Longrightarrow> f x = f' x) \<Longrightarrow> bindE r f = bindE r' f'"
  by (cases r') simp_all

text \<open>The body of the reading loop: a sensor with an empty list, inserted at position 150.\<close>

definition add_sensor ::
    "(addr \<Rightarrow> sensor_t) \<Rightarrow> dm_heap \<Rightarrow> addr \<Rightarrow> 16 word \<Rightarrow> 16 word \<Rightarrow> (addr \<times> dm_heap) res" where
  "add_sensor raw h sensorList room_bfr sensor_bfr =
     (let (sensor, h1) = malloc (Obj (Sensor (raw (next_addr h)))) h in
      bindE (assertE (sensor \<noteq> 0)) (\<lambda>_.
      bindE (upd_sensor h1 sensor (sensor_id_update (\<lambda>_. sensor_bfr))) (\<lambda>h2.
      bindE (upd_sensor h2 sensor (room_id_update (\<lambda>_. room_bfr))) (\<lambda>h3.
      bindE (dpl_create h3) (\<lambda>(t, h4).
      bindE (upd_sensor h4 sensor (temperatures_update (\<lambda>_. t))) (\<lambda>h5.
      dpl_insert_at_index (sensor_callbacks raw) h5 sensorList sensor 150 False))))))"

text \<open>
  \<open>room_bfr\<close> and \<open>sensor_bfr\<close> are not initialised and keep their value when
  \<open>fscanf\<close> converts only one number.
\<close>

function read_map ::
    "(addr \<Rightarrow> sensor_t) \<Rightarrow> string \<Rightarrow> 16 word \<Rightarrow> 16 word \<Rightarrow> dm_heap \<Rightarrow> addr \<Rightarrow> (addr \<times> dm_heap) res" where
  "read_map raw fp room_bfr sensor_bfr h sensorList =
     (case fscanf_hd_hd fp room_bfr sensor_bfr of (n, room, sensor, rest) \<Rightarrow>
        if 0 < n
        then bindE (add_sensor raw h sensorList room sensor) (\<lambda>r.
             read_map raw rest room sensor (snd r) (fst r))
        else Inr (sensorList, h))"
  by pat_completeness auto
termination
  by (relation "measure (\<lambda>(raw, fp, r, s, h, l). length fp)") (auto dest: fscanf_hd_hd_shorter [OF sym])

declare read_map.simps [simp del]

text \<open>What happens before the main loop: the list, the map, the buffer for one measurement.\<close>

definition datamgr_start ::
    "(addr \<Rightarrow> sensor_t) \<Rightarrow> sensor_data_t \<Rightarrow> string \<Rightarrow> 16 word \<Rightarrow> 16 word \<Rightarrow> dm_heap \<Rightarrow>
     (addr \<times> addr \<times> dm_heap) res" where
  "datamgr_start raw raw_data fp_sensor_map room_bfr sensor_bfr h =
     bindE (dpl_create h) (\<lambda>(l, h1).
     bindE (read_map raw fp_sensor_map room_bfr sensor_bfr h1 l) (\<lambda>(sensorList, h2).
     let (buffer_data, h3) = malloc (Obj (Data raw_data)) h2 in
     bindE (assertE (buffer_data \<noteq> 0)) (\<lambda>_. Inr (sensorList, buffer_data, h3))))"

section \<open>One measurement\<close>

text \<open>
  The two formulas of the running average. The first is used while the list holds at most
  \<open>RUN_AVG_LENGTH\<close> temperatures.
\<close>

definition average_grow :: "(rat \<Rightarrow> double) \<Rightarrow> double \<Rightarrow> int \<Rightarrow> double \<Rightarrow> double" where
  "average_grow rnd avg size_temp first_element =
     ddiv rnd (dadd rnd (dmul rnd avg (double_of_int (size_temp - 1))) first_element)
       (double_of_int size_temp)"

definition average_slide :: "(rat \<Rightarrow> double) \<Rightarrow> double \<Rightarrow> int \<Rightarrow> double \<Rightarrow> double \<Rightarrow> double" where
  "average_slide rnd avg size_temp remove first_element =
     ddiv rnd
       (dadd rnd (dsub rnd
          (dmul rnd (dsub rnd (double_of_int size_temp) (double_of_int 1)) avg) remove)
          first_element)
       (dsub rnd (double_of_int size_temp) (double_of_int 1))"

text \<open>
  The new temperature goes to the front of the sensor's list; the average follows, and the
  oldest temperature leaves when there are more than \<open>RUN_AVG_LENGTH\<close>.
\<close>

definition update_sensor ::
    "(rat \<Rightarrow> double) \<Rightarrow> dm_heap \<Rightarrow> addr \<Rightarrow> double \<Rightarrow> dm_heap res" where
  "update_sensor rnd h sensor new_value =
     (let (added_element, h1) = malloc (Obj (Temp new_value)) h in
      bindE (assertE (added_element \<noteq> 0)) (\<lambda>_.
      bindE (read_sensor h1 sensor) (\<lambda>s.
      bindE (dpl_insert_at_index temp_callbacks h1 (temperatures s) added_element (-1) False) (\<lambda>(t, h2).
      bindE (upd_sensor h2 sensor (temperatures_update (\<lambda>_. t))) (\<lambda>h3.
      bindE (dpl_size h3 t) (\<lambda>size_temp.
      bindE (dpl_get_element_at_index h3 t 0) (\<lambda>p.
      bindE (read_temp h3 p) (\<lambda>first_element.
      if size_temp \<le> int RUN_AVG_LENGTH then
        upd_sensor h3 sensor (running_avg_update (\<lambda>a. average_grow rnd a size_temp first_element))
      else
        bindE (dpl_get_element_at_index h3 t (int RUN_AVG_LENGTH)) (\<lambda>q.
        bindE (read_temp h3 q) (\<lambda>remove.
        bindE (upd_sensor h3 sensor
                (running_avg_update (\<lambda>a. average_slide rnd a size_temp remove first_element))) (\<lambda>h4.
        bindE (dpl_remove_at_index temp_callbacks h4 t (int RUN_AVG_LENGTH) False) (\<lambda>(_, h5).
        Inr h5))))))))))))"

definition too_cold_msg :: "16 word \<Rightarrow> double \<Rightarrow> string" where
  "too_cold_msg i avg =
     ''The sensor node with '' @ fmt_hu i @ '' reports it'' @ [CHR 0xE2, CHR 0x80, CHR 0x99] @
     ''s too cold (running avg temperature = '' @ fmt_f avg @ '') '' @ [newline]"

definition too_warm_msg :: "16 word \<Rightarrow> 16 word \<Rightarrow> double \<Rightarrow> 64 word \<Rightarrow> string" where
  "too_warm_msg room i avg t =
     ''It'' @ [CHR 0x27] @ ''s too warm in room '' @ fmt_hu room @ '' for sensor '' @ fmt_hu i @
     '' with a running average of '' @ fmt_f avg @ '' on '' @ fmt_ld t @ '' '' @ [newline]"

definition invalid_id_msg :: "16 word \<Rightarrow> string" where
  "invalid_id_msg i =
     ''Received sensor data with invalid sensor node ID '' @ fmt_d16 i @ '' '' @ [newline]"

text \<open>The messages that a sensor's new average gives rise to.\<close>

definition threshold_msgs :: "sensor_t \<Rightarrow> sensor_data_t \<Rightarrow> string list" where
  "threshold_msgs s d =
     (if dless (running_avg s) (double_of_int SET_MIN_TEMP)
      then [too_cold_msg (data_id d) (running_avg s)]
      else if dless (double_of_int SET_MAX_TEMP) (running_avg s)
      then [too_warm_msg (room_id s) (data_id d) (running_avg s) (data_ts d)]
      else [])"

definition process_measurement ::
    "(addr \<Rightarrow> sensor_t) \<Rightarrow> (rat \<Rightarrow> double) \<Rightarrow> dm_heap \<Rightarrow> addr \<Rightarrow> addr \<Rightarrow> (string list \<times> dm_heap) res" where
  "process_measurement raw rnd h sensorList buffer_data =
     bindE (dpl_get_index_of_element (sensor_callbacks raw) h sensorList buffer_data) (\<lambda>index_of_sensor.
     bindE (read_data h buffer_data) (\<lambda>d.
     if 0 \<le> index_of_sensor then
       bindE (dpl_get_element_at_index h sensorList index_of_sensor) (\<lambda>sensor.
       bindE (update_sensor rnd h sensor (data_value d)) (\<lambda>h1.
       bindE (upd_sensor h1 sensor (last_modified_update (\<lambda>_. data_ts d))) (\<lambda>h2.
       bindE (read_sensor h2 sensor) (\<lambda>s. Inr (threshold_msgs s d, h2)))))
     else Inr ([invalid_id_msg (data_id d)], h)))"

text \<open>
  The measurements of a run of the loop, in the order in which the shared buffer hands them
  over: each is written to \<open>*buffer_data\<close> and processed.
\<close>

definition store_data :: "dm_heap \<Rightarrow> addr \<Rightarrow> sensor_data_t \<Rightarrow> dm_heap res" where
  "store_data h p d = bindE (read_data h p) (\<lambda>_. store h p (Obj (Data d)))"

fun process_all ::
    "(addr \<Rightarrow> sensor_t) \<Rightarrow> (rat \<Rightarrow> double) \<Rightarrow> dm_heap \<Rightarrow> addr \<Rightarrow> addr \<Rightarrow> sensor_data_t list \<Rightarrow>
     (string list \<times> dm_heap) res" where
  "process_all raw rnd h sensorList buffer_data [] = Inr ([], h)"
| "process_all raw rnd h sensorList buffer_data (d # ds) =
     bindE (store_data h buffer_data d) (\<lambda>h1.
     bindE (process_measurement raw rnd h1 sensorList buffer_data) (\<lambda>(ms, h2).
     bindE (process_all raw rnd h2 sensorList buffer_data ds) (\<lambda>(ms', h3).
     Inr (ms @ ms', h3))))"

section \<open>Release and queries\<close>

definition datamgr_free :: "(addr \<Rightarrow> sensor_t) \<Rightarrow> dm_heap \<Rightarrow> addr \<Rightarrow> (addr \<times> dm_heap) res" where
  "datamgr_free raw h sensorList = dpl_free (sensor_callbacks raw) h sensorList True"

text \<open>
  The end of \<open>datamgr_parse_sensor_data\<close>, and the whole function: \<open>ds\<close> are the measurements that the
  loop gets from the shared buffer before it ends.
\<close>

definition datamgr_finish :: "(addr \<Rightarrow> sensor_t) \<Rightarrow> dm_heap \<Rightarrow> addr \<Rightarrow> addr \<Rightarrow> dm_heap res" where
  "datamgr_finish raw h sensorList buffer_data =
     bindE (cfree h buffer_data) (\<lambda>h1.
     bindE (datamgr_free raw h1 sensorList) (\<lambda>(_, h2). Inr h2))"

definition datamgr_parse_sensor_data ::
    "(addr \<Rightarrow> sensor_t) \<Rightarrow> (rat \<Rightarrow> double) \<Rightarrow> sensor_data_t \<Rightarrow> 16 word \<Rightarrow> 16 word \<Rightarrow> string \<Rightarrow>
     sensor_data_t list \<Rightarrow> dm_heap \<Rightarrow> (string list \<times> dm_heap) res" where
  "datamgr_parse_sensor_data raw rnd raw_data room_bfr sensor_bfr fp_sensor_map ds h =
     bindE (datamgr_start raw raw_data fp_sensor_map room_bfr sensor_bfr h) (\<lambda>(sensorList, buffer_data, h1).
     bindE (process_all raw rnd h1 sensorList buffer_data ds) (\<lambda>(ms, h2).
     bindE (datamgr_finish raw h2 sensorList buffer_data) (\<lambda>h3. Inr (ms, h3))))"

text \<open>
  The loop that the three queries share: the first sensor with the id; \<open>exit\<close> when there
  is none. The size is computed in every round.
\<close>

fun find_sensor :: "nat \<Rightarrow> dm_heap \<Rightarrow> addr \<Rightarrow> 16 word \<Rightarrow> int \<Rightarrow> sensor_t res" where
  "find_sensor 0 h sensorList i index = Inl Diverges"
| "find_sensor (Suc fuel) h sensorList i index =
     bindE (dpl_size h sensorList) (\<lambda>n.
     if index < n then
       bindE (dpl_get_element_at_index h sensorList index) (\<lambda>p.
       bindE (read_sensor h p) (\<lambda>desired_sensor.
       if sensor_id desired_sensor = i then Inr desired_sensor
       else find_sensor fuel h sensorList i (index + 1)))
     else Inl (ExitCall 1))"

definition datamgr_get_room_id :: "dm_heap \<Rightarrow> 16 word \<Rightarrow> addr \<Rightarrow> 16 word res" where
  "datamgr_get_room_id h i sensorList =
     bindE (find_sensor (next_addr h) h sensorList i 0) (\<lambda>s. Inr (room_id s))"

definition datamgr_get_avg :: "dm_heap \<Rightarrow> 16 word \<Rightarrow> addr \<Rightarrow> double res" where
  "datamgr_get_avg h i sensorList =
     bindE (find_sensor (next_addr h) h sensorList i 0) (\<lambda>s. Inr (running_avg s))"

definition datamgr_get_last_modified :: "dm_heap \<Rightarrow> 16 word \<Rightarrow> addr \<Rightarrow> 64 word res" where
  "datamgr_get_last_modified h i sensorList =
     bindE (find_sensor (next_addr h) h sensorList i 0) (\<lambda>s. Inr (last_modified s))"

definition datamgr_get_total_sensors :: "dm_heap \<Rightarrow> addr \<Rightarrow> int res" where
  "datamgr_get_total_sensors h sensorList = dpl_size h sensorList"

text \<open>
  \<open>print_sensor_list\<close>: what it writes to the standard output. Both loops compute the size of
  their list in every round.
\<close>

definition sensor_line :: "sensor_t \<Rightarrow> string" where
  "sensor_line s =
     ''sensor id = '' @ fmt_d16 (sensor_id s) @ ''----> room_id='' @ fmt_d16 (room_id s) @
     ''----> avg='' @ fmt_f (running_avg s) @ [newline] @
     ''########PRINTING TEMPERATURES####################'' @ [newline]"

fun print_temperatures :: "nat \<Rightarrow> dm_heap \<Rightarrow> addr \<Rightarrow> int \<Rightarrow> string res" where
  "print_temperatures 0 h t j = Inl Diverges"
| "print_temperatures (Suc fuel) h t j =
     bindE (dpl_size h t) (\<lambda>n.
     if j < n then
       bindE (dpl_get_element_at_index h t j) (\<lambda>p.
       bindE (read_temp h p) (\<lambda>v.
       bindE (print_temperatures fuel h t (j + 1)) (\<lambda>out.
       Inr ('' '' @ fmt_f v @ [newline] @ out))))
     else Inr [])"

fun print_sensors :: "nat \<Rightarrow> dm_heap \<Rightarrow> addr \<Rightarrow> int \<Rightarrow> string res" where
  "print_sensors 0 h sensorList i = Inl Diverges"
| "print_sensors (Suc fuel) h sensorList i =
     bindE (dpl_size h sensorList) (\<lambda>n.
     if i < n then
       bindE (dpl_get_element_at_index h sensorList i) (\<lambda>p.
       bindE (read_sensor h p) (\<lambda>s.
       bindE (print_temperatures (next_addr h) h (temperatures s) 0) (\<lambda>temps.
       bindE (print_sensors fuel h sensorList (i + 1)) (\<lambda>out.
       Inr (sensor_line s @ temps @ out)))))
     else Inr [])"

definition print_sensor_list :: "dm_heap \<Rightarrow> addr \<Rightarrow> string res" where
  "print_sensor_list h sensorList = print_sensors (next_addr h) h sensorList 0"

section \<open>The callback's contract\<close>

text \<open>The comparison callback is a total order on the ids.\<close>

interpretation ids: element_order compare_ids
proof
  fix x y z :: "16 word"
  show "compare_ids x y \<in> {-1, 0, 1}" by (simp add: compare_ids_def)
  show "compare_ids y x = - compare_ids x y" by (auto simp: compare_ids_def)
  show "compare_ids x y \<le> 0 \<Longrightarrow> compare_ids y z \<le> 0 \<Longrightarrow> compare_ids x z \<le> 0"
    by (auto simp: compare_ids_def split: if_splits)
qed

lemma compare_ids_zero: "compare_ids x y = 0 \<longleftrightarrow> x = y"
  by (simp add: compare_ids_def)

end
