(* ===== verification/Dplist_Claims.thy ===== *)
theory Dplist_Claims
  imports Dplist_Objects Datamgr
begin

text \<open>
  The properties of lib/dplist.c, each with an application to a small heap: a list struct at
  address 1 with two nodes, at 2 and 3, whose elements are the objects at 4 and 5.
\<close>

section \<open>A heap with a list\<close>

definition demo_nodes :: "dnode list" where
  "demo_nodes = [(2, 4), (3, 5)]"

definition demo_heap :: "nat dheap" where
  "demo_heap =
     \<lparr>next_addr = 6, budget = 10,
      cells = (\<lambda>_. None)(1 := Some (DList 2),
        2 := Some (Node \<lparr>nd_prev = 0, nd_next = 3, nd_element = 4\<rparr>),
        3 := Some (Node \<lparr>nd_prev = 2, nd_next = 0, nd_element = 5\<rparr>),
        4 := Some (Obj 70), 5 := Some (Obj 90))\<rparr>"

text \<open>Callbacks that compare the objects as numbers and do not allocate.\<close>

definition num_compare :: "nat dheap \<Rightarrow> addr \<Rightarrow> addr \<Rightarrow> int res" where
  "num_compare h x y =
     (case (cells h x, cells h y) of
        (Some (Obj a), Some (Obj b)) \<Rightarrow> Inr (if a < b then -1 else if a = b then 0 else 1)
      | _ \<Rightarrow> Inl InvalidPtr)"

definition num_callbacks :: "nat callbacks" where
  "num_callbacks = \<lparr>element_copy = (\<lambda>h e. Inr (e, h)),
     element_free = (\<lambda>h e. bindE (cfree h e) (\<lambda>h'. Inr (e, h'))), element_compare = num_compare\<rparr>"

lemma demo_ok: "heap_ok demo_heap"
  by (auto simp: heap_ok_def demo_heap_def split: if_splits)

lemma demo_list: "dlist demo_heap 1 demo_nodes"
  using demo_ok by (simp add: dlist_def demo_nodes_def) (simp add: demo_heap_def)

lemma demo_cells:
  "cells demo_heap 4 = Some (Obj 70)" "cells demo_heap 5 = Some (Obj 90)"
  "cells demo_heap 2 = Some (Node \<lparr>nd_prev = 0, nd_next = 3, nd_element = 4\<rparr>)"
  "budget demo_heap = 10" "next_addr demo_heap = 6"
  by (simp_all add: demo_heap_def)


section \<open>Insertion and removal by index\<close>

lemma element_at_insert:
  assumes "0 \<le> index" "nat index \<le> length ns"
  shows "element_at (insert_nth (ins_pos index (length ns)) (a, e) ns) index = e"
proof -
  have k: "ins_pos index (length ns) = nat index" using assms by (simp add: ins_pos_def)
  have "ref_pos index (length (insert_nth (nat index) (a, e) ns)) = nat index"
    using assms by (simp add: ref_pos_def)
  moreover have "insert_nth (nat index) (a, e) ns ! nat index = (a, e)"
    using assms by (simp add: insert_nth_def nth_append)
  moreover have "insert_nth (nat index) (a, e) ns \<noteq> []" by (simp add: insert_nth_def)
  ultimately show ?thesis unfolding k by (simp add: element_at_def)
qed

text \<open>C6. Inserting an element (without copying it) into a well-formed list returns the same list,
  well-formed, with one new node at the position that the header documents: at the front for an
  index of at most zero, at the end for one past the end, otherwise in front of the node at the
  index. The size grows by one, the element is found again at its index, and nothing but the list
  struct, the new node and the old nodes is written to.\<close>

theorem insert_at_index_correct:
  assumes "dlist h l ns" and "0 < budget h"
  shows "\<exists>h' nd. dpl_insert_at_index cb h l e index False = Inr (l, h') \<and>
     dlist h' l (take (nat index) ns @ (nd, e) # drop (nat index) ns) \<and>
     dpl_size h' l = Inr (int (length ns) + 1) \<and>
     (0 \<le> index \<and> index \<le> int (length ns) \<longrightarrow> dpl_get_element_at_index h' l index = Inr e) \<and>
     cells h nd = None \<and> frame ({l, nd} \<union> fst ` set ns) h h'"
proof -
  obtain h' where h': "dpl_insert_at_index cb h l e index False = Inr (l, h')"
      "dlist h' l (insert_nth (ins_pos index (length ns)) (next_addr h, e) ns)"
      "frame ({l, next_addr h} \<union> fst ` set ns) h h'"
    using dpl_insert_at_index_dlist [OF assms, of cb e index] by blast
  have pos: "insert_nth (ins_pos index (length ns)) (next_addr h, e) ns =
      take (nat index) ns @ (next_addr h, e) # drop (nat index) ns"
    by (simp add: insert_nth_def ins_pos_def min_def)
  have "0 \<le> index \<and> index \<le> int (length ns) \<longrightarrow> dpl_get_element_at_index h' l index = Inr e"
    using dpl_get_element_at_index_dlist [OF h'(2), of index] element_at_insert [of index ns "next_addr h" e]
    by (simp add: nat_le_iff)
  then show ?thesis
    using h' dpl_size_dlist [OF h'(2)] heap_ok_fresh [OF dlist_ok [OF assms(1)]]
    by (intro exI [of _ h'] exI [of _ "next_addr h"]) (simp add: pos)
qed

lemma insert_at_index_correct_witness:
  "\<exists>h' nd. dpl_insert_at_index num_callbacks demo_heap 1 77 1 False = Inr (1, h') \<and>
     dlist h' 1 [(2, 4), (nd, 77), (3, 5)]"
  using insert_at_index_correct [OF demo_list, of num_callbacks 77 1] demo_cells
  by (auto simp: demo_nodes_def)



text \<open>An insertion followed by a removal at the same index gives back the list as it was,
  and the inserted element is dead: the list takes over the ownership of what is inserted, also
  with \<open>insert_copy\<close> and \<open>free_element\<close> false.\<close>

theorem insert_remove_round_trip:
  assumes "dlist h l ns" and "0 < budget h" and "0 \<le> index" "index \<le> int (length ns)"
    and "cells h e = Some (Obj ob)"
  shows "\<exists>h1 h2. dpl_insert_at_index cb h l e index False = Inr (l, h1) \<and>
     dpl_remove_at_index cb h1 l index False = Inr (l, h2) \<and> dlist h2 l ns \<and> cells h2 e = None"
proof -
  let ?k = "ins_pos index (length ns)"
  obtain h1 where h1: "dpl_insert_at_index cb h l e index False = Inr (l, h1)"
      "dlist h1 l (insert_nth ?k (next_addr h, e) ns)"
      "frame ({l, next_addr h} \<union> fst ` set ns) h h1"
    using dpl_insert_at_index_dlist [OF assms(1,2), of cb e index] by blast
  have k: "?k = nat index" "?k \<le> length ns" using assms(3,4) by (simp_all add: ins_pos_def)
  have "e \<notin> {l, next_addr h} \<union> fst ` set ns"
    using dlist_obj_not_node [OF assms(1,5)] dlist_head [OF assms(1)] assms(5)
      heap_ok_fresh [OF dlist_ok [OF assms(1)]] by auto
  then have own: "owned_element h1 e" using frameD [OF h1(3)] assms(5) by (simp add: owned_element_def)
  have nth: "insert_nth ?k (next_addr h, e) ns ! ?k = (next_addr h, e)"
    using k(2) by (simp add: insert_nth_def nth_append)
  have "ref_pos index (length (insert_nth ?k (next_addr h, e) ns)) = ?k"
    using assms(3,4) k by (simp add: ref_pos_def nat_le_iff)
  moreover have "insert_nth ?k (next_addr h, e) ns \<noteq> []" by (simp add: insert_nth_def)
  ultimately obtain h2 where "dpl_remove_at_index cb h1 l index False = Inr (l, h2)"
      "dlist h2 l (remove_nth ?k (insert_nth ?k (next_addr h, e) ns))" "cells h2 e = None"
    using dpl_remove_at_index_dlist [OF h1(2), of index ?k cb] own nth by auto
  then show ?thesis using h1(1) remove_insert_nth [OF k(2)] by metis
qed

definition demo_heap_spare :: "nat dheap" where
  "demo_heap_spare = demo_heap\<lparr>next_addr := 7, cells := (cells demo_heap)(6 := Some (Obj 33))\<rparr>"

lemma demo_spare: "dlist demo_heap_spare 1 demo_nodes" "budget demo_heap_spare = 10"
  "cells demo_heap_spare 6 = Some (Obj 33)"
proof -
  have "heap_ok demo_heap_spare"
    by (auto simp: heap_ok_def demo_heap_spare_def demo_heap_def split: if_splits)
  then show "dlist demo_heap_spare 1 demo_nodes"
    by (intro dlist_cong [OF demo_list]) (auto simp: demo_heap_spare_def demo_nodes_def)
qed (simp_all add: demo_heap_spare_def demo_cells)

lemma insert_remove_round_trip_witness:
  "\<exists>h1 h2. dpl_insert_at_index num_callbacks demo_heap_spare 1 6 2 False = Inr (1, h1) \<and>
     dpl_remove_at_index num_callbacks h1 1 2 False = Inr (1, h2) \<and> dlist h2 1 demo_nodes \<and>
     cells h2 6 = None"
  by (rule insert_remove_round_trip [OF demo_spare(1)]) (simp_all add: demo_spare(2,3) demo_nodes_def)

text \<open>When no memory is left, an insertion into a list dereferences NULL: the node that
  \<open>malloc\<close> returns is not checked, although the header promises an \<open>assert\<close>; an empty
  list cannot be created either.\<close>

theorem insert_without_memory:
  assumes "budget h = 0" and "l \<noteq> 0"
  shows "dpl_insert_at_index cb h l e index False = Inl NullDeref \<and> dpl_create h = Inl NullDeref"
  using dpl_insert_at_index_no_memory [OF assms(2,1)] dpl_create_fail [OF assms(1)] by simp_all

lemma insert_without_memory_witness:
  "dpl_insert_at_index num_callbacks (demo_heap\<lparr>budget := 0\<rparr>) 1 77 0 False = Inl NullDeref \<and>
   dpl_create (demo_heap\<lparr>budget := 0\<rparr>) = Inl NullDeref"
  using insert_without_memory [of "demo_heap\<lparr>budget := 0\<rparr>" 1] by simp

section \<open>Search\<close>

text \<open>Access by index on a list that is not empty never fails: every index, negative or past
  the end, is clamped to a node of the list, and the reference and the element are those of the
  same node; on an empty list both are NULL.\<close>

theorem access_by_index:
  assumes "dlist h l ns"
  shows "dpl_get_reference_at_index h l index =
           Inr (if ns = [] then 0 else fst (ns ! min (nat index) (length ns - 1))) \<and>
         dpl_get_element_at_index h l index =
           Inr (if ns = [] then 0 else snd (ns ! min (nat index) (length ns - 1)))"
  using dpl_get_reference_at_index_dlist [OF assms] dpl_get_element_at_index_dlist [OF assms]
  by (simp_all add: ref_at_def element_at_def ref_pos_def)

lemma access_by_index_witness:
  "dpl_get_reference_at_index demo_heap 1 (-5) = Inr 2 \<and> dpl_get_element_at_index demo_heap 1 99 = Inr 5"
  using access_by_index [OF demo_list] by (simp add: demo_nodes_def)

text \<open>The search for an element returns the index of the first node that matches it, which is
  then a node of the list, and \<open>-1\<close> exactly when no node matches; an element matches when the
  comparison callback says \<open>0\<close>, and NULL matches NULL only.\<close>

theorem index_of_element_first:
  assumes "dlist h l ns" and "compares cb h cmp (insert element (snd ` set ns))"
  shows "\<exists>k. dpl_get_index_of_element cb h l element = Inr k \<and>
     (k = -1 \<longleftrightarrow> (\<forall>n \<in> set ns. \<not> matches cmp element (snd n))) \<and>
     (k \<noteq> -1 \<longrightarrow> 0 \<le> k \<and> nat k < length ns \<and> matches cmp element (snd (ns ! nat k)) \<and>
        (\<forall>j < nat k. \<not> matches cmp element (snd (ns ! j))))"
proof -
  let ?k = "index_where (matches cmp element) (map snd ns)"
  have none: "?k = -1 \<longleftrightarrow> (\<forall>n \<in> set ns. \<not> matches cmp element (snd n))"
    by (simp add: index_where_Nil_iff)
  have some: "0 \<le> ?k \<and> nat ?k < length ns \<and> matches cmp element (snd (ns ! nat ?k)) \<and>
      (\<forall>j < nat ?k. \<not> matches cmp element (snd (ns ! j)))" if "?k \<noteq> -1"
    using index_where_found [OF refl that] by auto
  show ?thesis
    using dpl_get_index_of_element_dlist [OF assms] none some by blast
qed

lemma demo_compares:
  "compares num_callbacks demo_heap (\<lambda>x y. if x < y then -1 else if x = y then 0 else 1) {4, 5}"
  by (simp add: compares_def num_callbacks_def num_compare_def demo_cells)

lemma index_of_element_first_witness:
  "dpl_get_index_of_element num_callbacks demo_heap 1 5 = Inr 1"
proof -
  let ?cmp = "\<lambda>x y :: addr. if x < y then -1 else if x = y then 0 else 1 :: int"
  have "insert 5 (snd ` set demo_nodes) = {4, 5}" by (auto simp: demo_nodes_def)
  with demo_compares have c: "compares num_callbacks demo_heap ?cmp (insert 5 (snd ` set demo_nodes))" by simp
  obtain k where k: "dpl_get_index_of_element num_callbacks demo_heap 1 5 = Inr k"
      "k = -1 \<longleftrightarrow> (\<forall>n \<in> set demo_nodes. \<not> matches ?cmp 5 (snd n))"
      "k \<noteq> -1 \<longrightarrow> 0 \<le> k \<and> nat k < length demo_nodes \<and> matches ?cmp 5 (snd (demo_nodes ! nat k))"
    using index_of_element_first [OF demo_list c] by blast
  have "k \<noteq> -1" using k(2) by (simp add: demo_nodes_def matches_def)
  then have "0 \<le> k" "nat k < 2" "nat k \<noteq> 0" using k(3) by (auto simp: demo_nodes_def matches_def)
  then have "k = 1" by linarith
  then show ?thesis using k(1) by simp
qed

lemma next_reference_dlist:
  "dlist h l (xs @ (r, e) # ys) \<Longrightarrow> dpl_get_next_reference h l r = Inr (first_of ys 0)"
  by (simp add: dpl_get_next_reference_def search_ref_present)

lemma previous_reference_dlist:
  "dlist h l (xs @ (r, e) # ys) \<Longrightarrow> dpl_get_previous_reference h l r = Inr (last_of 0 xs)"
  by (simp add: dpl_get_previous_reference_def search_ref_present)

lemma reference_walk_inner:
  assumes "dlist h l ns" and lt: "Suc i < length ns"
  shows "dpl_get_next_reference h l (fst (ns ! i)) = Inr (fst (ns ! Suc i)) \<and>
         dpl_get_previous_reference h l (fst (ns ! Suc i)) = Inr (fst (ns ! i))"
proof -
  obtain xs n m ys where ns: "ns = xs @ n # m # ys" and i: "Suc i = Suc (length xs)"
    using split_around [of "Suc i" ns] lt by blast
  have 1: "dlist h l (xs @ (fst n, snd n) # m # ys)" and 2: "dlist h l ((xs @ [n]) @ (fst m, snd m) # ys)"
    using assms(1) ns by simp_all
  show ?thesis
    using next_reference_dlist [OF 1] previous_reference_dlist [OF 2] ns i by (simp add: nth_append)
qed

lemma reference_walk_ends:
  assumes "dlist h l ns" and "ns \<noteq> []"
  shows "dpl_get_previous_reference h l (fst (hd ns)) = Inr 0 \<and>
         dpl_get_next_reference h l (fst (last ns)) = Inr 0"
proof -
  obtain n ys where h: "ns = n # ys" using assms(2) by (cases ns) auto
  obtain m xs where t: "ns = xs @ [m]" using assms(2) by (cases ns rule: rev_cases) auto
  have 1: "dlist h l ([] @ (fst n, snd n) # ys)" and 2: "dlist h l (xs @ (fst m, snd m) # [])"
    using assms(1) h t by simp_all
  have "hd ns = n" using h by simp
  moreover have "last ns = m" unfolding t by simp
  ultimately show ?thesis using previous_reference_dlist [OF 1] next_reference_dlist [OF 2] by simp
qed

text \<open>C36. Walking by references follows the list: the reference after a node is the next node's
  and the one before it the previous node's, so that the two are inverse to each other; the ends
  of the list give NULL, and a pointer that is no node of the list gives NULL both ways.\<close>

theorem reference_walk:
  assumes "dlist h l ns"
  shows "(\<forall>i. Suc i < length ns \<longrightarrow>
            dpl_get_next_reference h l (fst (ns ! i)) = Inr (fst (ns ! Suc i)) \<and>
            dpl_get_previous_reference h l (fst (ns ! Suc i)) = Inr (fst (ns ! i))) \<and>
         (ns \<noteq> [] \<longrightarrow> dpl_get_previous_reference h l (fst (hd ns)) = Inr 0 \<and>
            dpl_get_next_reference h l (fst (last ns)) = Inr 0) \<and>
         (\<forall>r. r \<notin> fst ` set ns \<longrightarrow>
            dpl_get_next_reference h l r = Inr 0 \<and> dpl_get_previous_reference h l r = Inr 0)"
  using reference_walk_inner [OF assms] reference_walk_ends [OF assms]
    search_ref_absent [OF assms]
  by (simp add: dpl_get_next_reference_def dpl_get_previous_reference_def)

lemma reference_walk_witness:
  "dpl_get_next_reference demo_heap 1 2 = Inr 3 \<and> dpl_get_previous_reference demo_heap 1 3 = Inr 2 \<and>
   dpl_get_previous_reference demo_heap 1 2 = Inr 0 \<and> dpl_get_next_reference demo_heap 1 9 = Inr 0"
proof -
  note w = reference_walk [OF demo_list]
  have "\<forall>r. r \<notin> {2, 3} \<longrightarrow> dpl_get_next_reference demo_heap 1 r = Inr 0"
    using w by (simp add: demo_nodes_def)
  then show ?thesis using w [THEN conjunct1, rule_format, of 0] w
    by (simp add: demo_nodes_def)
qed

section \<open>Sorted insertion\<close>

text \<open>C24. With a comparison callback that keeps the contract of the header (it answers
  \<open>-1\<close>, \<open>0\<close> or \<open>1\<close> and orders the keys of the elements), sorted
  insertion comes to an end, adds exactly one node with the element and keeps a sorted list
  sorted, NULL elements being the smallest.\<close>

theorem insert_sorted_correct:
  assumes "dlist h l ns" and "0 < budget h" and "element_order cmp"
    and "compares cb h (\<lambda>x y. cmp (key x) (key y)) (insert e (snd ` set ns))"
    and "sorted_wrt (element_order.le cmp) (keys key ns)"
  shows "\<exists>h' i nd. dpl_insert_sorted cb h l e False = Inr (l, h') \<and> i \<le> length ns \<and>
     dlist h' l (insert_nth i (nd, e) ns) \<and>
     sorted_wrt (element_order.le cmp) (keys key (insert_nth i (nd, e) ns))"
  using dpl_insert_sorted_dlist [where cmp = cmp and key = key,
      OF assms(1,2) element_order.cmp_range [OF assms(3)] assms(4)]
    element_order.insert_sorted_keys [OF assms(3,5)] sorted_index_le by blast

definition demo_key :: "addr \<Rightarrow> 16 word" where
  "demo_key e = (if e = 4 then 3 else if e = 5 then 9 else 5)"

lemma demo_sensor_sorted: "sorted_wrt ids.le (keys demo_key demo_nodes)"
  by (simp add: keys_def key_of_def demo_nodes_def ids.le_def compare_ids_def demo_key_def)

text \<open>The same two-node list in the data manager's heap, with two sensors and a third to insert.\<close>

definition demo_sensors :: dm_heap where
  "demo_sensors =
     \<lparr>next_addr = 7, budget = 10,
      cells = (\<lambda>a. if a = 1 then Some (DList 2)
        else if a = 2 then Some (Node \<lparr>nd_prev = 0, nd_next = 3, nd_element = 4\<rparr>)
        else if a = 3 then Some (Node \<lparr>nd_prev = 2, nd_next = 0, nd_element = 5\<rparr>)
        else if a = 4 then Some (Obj (Data \<lparr>data_id = 3, data_value = double_of_int 0, data_ts = 0\<rparr>))
        else if a = 5 then Some (Obj (Data \<lparr>data_id = 9, data_value = double_of_int 0, data_ts = 0\<rparr>))
        else if a = 6 then Some (Obj (Data \<lparr>data_id = 5, data_value = double_of_int 0, data_ts = 0\<rparr>))
        else None)\<rparr>"

lemma demo_sensors_list: "dlist demo_sensors 1 demo_nodes"
  by (simp add: dlist_def demo_nodes_def demo_sensors_def heap_ok_def)

lemma demo_sensors_compares:
  "compares (sensor_callbacks raw) demo_sensors
     (\<lambda>x y. compare_ids (demo_key x) (demo_key y)) (insert 6 (snd ` set demo_nodes))"
  by (simp add: compares_def demo_nodes_def sensor_callbacks_def sensor_compare_def id_at_def
      demo_sensors_def load_def demo_key_def)

lemma demo_sensors_budget: "0 < budget demo_sensors"
  by (simp add: demo_sensors_def)

lemma insert_sorted_correct_witness:
  "\<exists>h' i nd. dpl_insert_sorted (sensor_callbacks (\<lambda>_. undefined)) demo_sensors 1 6 False = Inr (1, h') \<and>
     i \<le> length demo_nodes \<and> dlist h' 1 (insert_nth i (nd, 6) demo_nodes) \<and>
     sorted_wrt ids.le (keys demo_key (insert_nth i (nd, 6) demo_nodes))"
  by (rule insert_sorted_correct [OF demo_sensors_list demo_sensors_budget ids.element_order_axioms
        demo_sensors_compares demo_sensor_sorted])

text \<open>Outside that contract sorted insertion need not come to an end: a callback that answers
  more than \<open>1\<close> for the first element, as one that subtracts two numbers does, keeps the
  loop at the same node for ever.\<close>

theorem insert_sorted_diverges:
  assumes "dlist h l (n # ns)" and "e \<noteq> 0" and "snd n \<noteq> 0"
    and "element_compare cb h e (snd n) = Inr c" and "1 < c"
  shows "dpl_insert_sorted cb h l e copy = Inl Diverges"
proof -
  obtain d where d: "cells h (fst n) = Some (Node d)" "nd_element d = snd n"
    using dlist_node [OF assms(1), of "fst n" "snd n"] by auto
  have "sorted_loop (next_addr h) cb h (fst n) e 0 = Inl Diverges"
    using sorted_loop_stuck [OF d(1) dlist_ok [OF assms(1)]] d(2) assms(3,4,5) by simp
  moreover have "fst n \<noteq> 0" using heap_ok_live [OF dlist_ok [OF assms(1)] d(1)] by simp
  ultimately show ?thesis using assms(2) dlist_nonnull [OF assms(1)]
    by (simp add: dpl_insert_sorted_def dlist_get_head [OF assms(1)])
qed

text \<open>A callback that subtracts.\<close>

definition minus_callbacks :: "nat callbacks" where
  "minus_callbacks = num_callbacks\<lparr>element_compare :=
     (\<lambda>h x y. case (cells h x, cells h y) of (Some (Obj a), Some (Obj b)) \<Rightarrow> Inr (int a - int b)
                                           | _ \<Rightarrow> Inl InvalidPtr)\<rparr>"

lemma insert_sorted_diverges_witness:
  "dpl_insert_sorted minus_callbacks demo_heap 1 5 False = Inl Diverges"
  using insert_sorted_diverges [OF demo_list [unfolded demo_nodes_def], of 5 minus_callbacks 20]
  by (simp add: minus_callbacks_def demo_cells)

section \<open>Release\<close>



text \<open>Removal with \<open>free_element\<close> true and a callback that releases the element but
  leaves the pointer to it (as \<open>callback_free\<close> of the connection manager does) releases the
  element a second time, whatever the list and the index.\<close>

theorem remove_double_free:
  assumes "dlist h l ns" and "ns \<noteq> []" and "i = min (nat index) (length ns - 1)"
    and "cells h (snd (ns ! i)) = Some (Obj ob)" and "frees_keeps cb"
  shows "dpl_remove_at_index cb h l index True = Inl BadFree"
proof -
  have "i < length ns" using assms(2,3) by (cases ns) auto
  moreover obtain a e where ae: "ns ! i = (a, e)" by fastforce
  ultimately obtain xs ys where ns: "ns = xs @ (a, e) # ys" and i: "i = length xs"
    using split_at_nth [of i ns] by (metis length_take min.absorb4)
  have d: "dlist h l (xs @ (a, e) # ys)" using assms(1) ns by simp
  have pos: "ref_pos index (length (xs @ (a, e) # ys)) = length xs"
    using assms(3) i ns by (simp add: ref_pos_def)
  obtain h1 where h1: "unlink_node h l (first_of ns 0) a index = Inr h1" "dlist h1 l (xs @ ys)"
      "frame ({l} \<union> fst ` set (xs @ ys)) h h1"
    using unlink_node_dlist [OF d pos] ns by auto
  obtain n where n: "cells h a = Some (Node n)" "nd_element n = e"
    using dlist_node [OF assms(1), of a e] ns by auto
  have "a \<notin> {l} \<union> fst ` set (xs @ ys)"
    using dlist_struct_not_node [OF d] dlist_distinct [OF d] by auto
  then have n1: "cells h1 a = Some (Node n)" using frameD [OF h1(3)] n by simp
  have "e \<notin> {l} \<union> fst ` set (xs @ ys)"
    using dlist_obj_not_node [OF d, of e] dlist_head [OF d] assms(4) ae by auto
  then have "cells h1 (nd_element n) = Some (Obj ob)" using frameD [OF h1(3)] n assms(4) ae by simp
  note rl = release_node_double_free [OF dlist_ok [OF h1(2)] n1 this assms(5)]
  have "ref_at ns index = a" using pos ns i ae assms(2) by (simp add: ref_at_def)
  then show ?thesis using h1(1) rl assms(2) first_of_zero_iff [OF assms(1)] dlist_nonnull [OF assms(1)]
    by (simp add: dpl_remove_at_index_def dlist_get_head [OF assms(1)]
        dpl_get_reference_at_index_dlist [OF assms(1)])
qed

lemma remove_double_free_witness:
  "dpl_remove_at_index num_callbacks demo_heap 1 0 True = Inl BadFree"
  using remove_double_free [OF demo_list, of 0 0 70 num_callbacks] demo_cells
  by (simp add: demo_nodes_def frees_keeps_def num_callbacks_def)

end
