(* ===== verification/Sbuffer.thy ===== *)
theory Sbuffer
  imports CHeap
begin

text \<open>
  The shared buffer of sbuffer.c: a singly linked list with a head and a tail pointer, a
  reader/writer lock and two barriers. A call that has to wait for the lock returns
  \<open>None\<close>: the caller makes it again. The part of each operation that runs while the lock
  is held is a definition of its own, because the threads of the gateway interleave at the
  lock operations. The barriers appear here as the number of threads that they wait for; who
  waits at them is part of the threads' state.
\<close>

section \<open>Structs\<close>

text \<open>The return codes of sbuffer.h.\<close>

definition SBUFFER_FAILURE :: int where "SBUFFER_FAILURE = -1"
definition SBUFFER_SUCCESS :: int where "SBUFFER_SUCCESS = 0"
definition SBUFFER_NO_DATA :: int where "SBUFFER_NO_DATA = 1"

lemmas sbuffer_codes = SBUFFER_FAILURE_def SBUFFER_SUCCESS_def SBUFFER_NO_DATA_def

record 'd sbuffer_node =
  sn_next :: addr
  sn_data :: 'd

record rwlock =
  rw_readers :: nat
  rw_writer :: bool

record sbuffer =
  sb_head :: addr
  sb_tail :: addr
  sb_lock :: rwlock
  sb_loop_barrier :: nat
  sb_prep_barrier :: nat

datatype 'd scell =
    SNode "'d sbuffer_node"
  | SBuf sbuffer

type_synonym 'd sheap = "'d scell heap"

section \<open>Field access\<close>

definition read_snode :: "'d sheap \<Rightarrow> addr \<Rightarrow> 'd sbuffer_node res" where
  "read_snode h p =
     bindE (load h p) (\<lambda>c. case c of SNode n \<Rightarrow> Inr n | _ \<Rightarrow> Inl InvalidPtr)"

definition upd_snode ::
    "'d sheap \<Rightarrow> addr \<Rightarrow> ('d sbuffer_node \<Rightarrow> 'd sbuffer_node) \<Rightarrow> 'd sheap res" where
  "upd_snode h p f = bindE (read_snode h p) (\<lambda>n. store h p (SNode (f n)))"

definition read_buf :: "'d sheap \<Rightarrow> addr \<Rightarrow> sbuffer res" where
  "read_buf h p =
     bindE (load h p) (\<lambda>c. case c of SBuf s \<Rightarrow> Inr s | _ \<Rightarrow> Inl InvalidPtr)"

definition upd_buf :: "'d sheap \<Rightarrow> addr \<Rightarrow> (sbuffer \<Rightarrow> sbuffer) \<Rightarrow> 'd sheap res" where
  "upd_buf h p f = bindE (read_buf h p) (\<lambda>s. store h p (SBuf (f s)))"

section \<open>The reader/writer lock\<close>

definition unlocked :: rwlock where
  "unlocked = \<lparr>rw_readers = 0, rw_writer = False\<rparr>"

definition pthread_rwlock_rdlock :: "'d sheap \<Rightarrow> addr \<Rightarrow> 'd sheap option res" where
  "pthread_rwlock_rdlock h b =
     bindE (read_buf h b) (\<lambda>s.
     if rw_writer (sb_lock s) then Inr None
     else bindE (upd_buf h b (sb_lock_update (rw_readers_update Suc))) (\<lambda>h1. Inr (Some h1)))"

definition pthread_rwlock_wrlock :: "'d sheap \<Rightarrow> addr \<Rightarrow> 'd sheap option res" where
  "pthread_rwlock_wrlock h b =
     bindE (read_buf h b) (\<lambda>s.
     if rw_writer (sb_lock s) \<or> 0 < rw_readers (sb_lock s) then Inr None
     else bindE (upd_buf h b (sb_lock_update (rw_writer_update (\<lambda>_. True)))) (\<lambda>h1. Inr (Some h1)))"

text \<open>One unlock function for both kinds of holder: the writer, when there is one.\<close>

definition unlock_rw :: "rwlock \<Rightarrow> rwlock" where
  "unlock_rw l =
     (if rw_writer l then l\<lparr>rw_writer := False\<rparr> else l\<lparr>rw_readers := rw_readers l - 1\<rparr>)"

definition pthread_rwlock_unlock :: "'d sheap \<Rightarrow> addr \<Rightarrow> 'd sheap res" where
  "pthread_rwlock_unlock h b = upd_buf h b (sb_lock_update unlock_rw)"

text \<open>A lock call followed by the code that runs once the lock is there.\<close>

definition locked :: "'h option res \<Rightarrow> ('h \<Rightarrow> 'a res) \<Rightarrow> 'a option res" where
  "locked l f =
     bindE l (\<lambda>granted. case granted of None \<Rightarrow> Inr None
                       | Some h \<Rightarrow> bindE (f h) (\<lambda>r. Inr (Some r)))"

section \<open>The operations\<close>

definition raw_buf :: sbuffer where
  "raw_buf = \<lparr>sb_head = 0, sb_tail = 0, sb_lock = unlocked, sb_loop_barrier = 0, sb_prep_barrier = 0\<rparr>"

text \<open>The result is the return code, the value left in \<open>*buffer\<close> and the heap.\<close>

definition sbuffer_init :: "'d sheap \<Rightarrow> (int \<times> addr \<times> 'd sheap) res" where
  "sbuffer_init h =
     (let (buffer, h1) = malloc (SBuf raw_buf) h in
      if buffer = 0 then Inr (SBUFFER_FAILURE, 0, h1)
      else
        bindE (upd_buf h1 buffer (sb_head_update (\<lambda>_. 0))) (\<lambda>h2.
        bindE (upd_buf h2 buffer (sb_tail_update (\<lambda>_. 0))) (\<lambda>h3.
        bindE (upd_buf h3 buffer (sb_lock_update (\<lambda>_. unlocked))) (\<lambda>h4.
        bindE (upd_buf h4 buffer (sb_loop_barrier_update (\<lambda>_. 2))) (\<lambda>h5.
        bindE (upd_buf h5 buffer (sb_prep_barrier_update (\<lambda>_. 2))) (\<lambda>h6.
        Inr (SBUFFER_SUCCESS, buffer, h6)))))))"

text \<open>
  \<open>sbuffer_get_data\<close> under the read lock. On an empty buffer it returns with the lock
  held; its callers unlock.
\<close>

definition get_locked :: "'d sheap \<Rightarrow> addr \<Rightarrow> (int \<times> 'd option \<times> 'd sheap) res" where
  "get_locked h buffer =
     (if buffer = 0 then Inr (SBUFFER_FAILURE, None, h)
      else bindE (read_buf h buffer) (\<lambda>s.
        if sb_head s = 0 then Inr (SBUFFER_NO_DATA, None, h)
        else bindE (read_snode h (sb_head s)) (\<lambda>n.
             bindE (pthread_rwlock_unlock h buffer) (\<lambda>h1.
             Inr (SBUFFER_SUCCESS, Some (sn_data n), h1)))))"

definition sbuffer_get_data :: "'d sheap \<Rightarrow> addr \<Rightarrow> (int \<times> 'd option \<times> 'd sheap) option res" where
  "sbuffer_get_data h buffer =
     locked (pthread_rwlock_rdlock h buffer) (\<lambda>h1. get_locked h1 buffer)"

fun sfree_loop :: "nat \<Rightarrow> 'd sheap \<Rightarrow> addr \<Rightarrow> 'd sheap res" where
  "sfree_loop 0 h buffer = Inl Diverges"
| "sfree_loop (Suc fuel) h buffer =
     bindE (read_buf h buffer) (\<lambda>s.
     if sb_head s = 0 then Inr h
     else
       bindE (read_snode h (sb_head s)) (\<lambda>n.
       bindE (upd_buf h buffer (sb_head_update (\<lambda>_. sn_next n))) (\<lambda>h1.
       bindE (cfree h1 (sb_head s)) (\<lambda>h2.
       sfree_loop fuel h2 buffer))))"

definition sbuffer_free :: "'d sheap \<Rightarrow> addr \<Rightarrow> (int \<times> addr \<times> 'd sheap) res" where
  "sbuffer_free h buffer =
     (if buffer = 0 then Inr (SBUFFER_FAILURE, buffer, h)
      else
        bindE (sfree_loop (next_addr h) h buffer) (\<lambda>h1.
        bindE (cfree h1 buffer) (\<lambda>h2.
        Inr (SBUFFER_SUCCESS, 0, h2))))"

text \<open>
  The part of \<open>sbuffer_remove\<close> that the serial thread of \<open>loop_barrier\<close> executes
  under the write lock. An empty buffer is the early return that keeps the lock.
\<close>

definition remove_locked :: "'d sheap \<Rightarrow> addr \<Rightarrow> (int \<times> 'd option \<times> 'd sheap) res" where
  "remove_locked h buffer =
     (if buffer = 0 then Inr (SBUFFER_FAILURE, None, h)
      else bindE (read_buf h buffer) (\<lambda>s.
        if sb_head s = 0 then Inr (SBUFFER_NO_DATA, None, h)
        else
          bindE (read_snode h (sb_head s)) (\<lambda>n.
          bindE (if sb_head s = sb_tail s
                 then upd_buf h buffer (\<lambda>t. t\<lparr>sb_head := 0, sb_tail := 0\<rparr>)
                 else upd_buf h buffer (sb_head_update (\<lambda>_. sn_next n))) (\<lambda>h1.
          bindE (cfree h1 (sb_head s)) (\<lambda>h2.
          bindE (pthread_rwlock_unlock h2 buffer) (\<lambda>h3.
          Inr (SBUFFER_SUCCESS, Some (sn_data n), h3)))))))"

text \<open>
  \<open>sbuffer_remove\<close> after its barrier: \<open>serial\<close> tells whether this thread is the one
  that \<open>pthread_barrier_wait\<close> chose.
\<close>

definition sbuffer_remove ::
    "'d sheap \<Rightarrow> addr \<Rightarrow> bool \<Rightarrow> (int \<times> 'd option \<times> 'd sheap) option res" where
  "sbuffer_remove h buffer serial =
     (if serial then
        locked (pthread_rwlock_wrlock h buffer) (\<lambda>h1. remove_locked h1 buffer)
      else Inr (Some (SBUFFER_SUCCESS, None, h)))"

text \<open>
  \<open>sbuffer_insert\<close> under the write lock. The assertion comes before the test that would
  return \<open>SBUFFER_FAILURE\<close> for a failed allocation.
\<close>

definition insert_locked :: "'d sheap \<Rightarrow> addr \<Rightarrow> 'd \<Rightarrow> (int \<times> 'd sheap) res" where
  "insert_locked h buffer data =
     (if buffer = 0 then
        bindE (pthread_rwlock_unlock h buffer) (\<lambda>h1. Inr (SBUFFER_FAILURE, h1))
      else
        let (dummy, h1) = malloc (SNode \<lparr>sn_next = 0, sn_data = data\<rparr>) h in
        bindE (assertE (dummy \<noteq> 0)) (\<lambda>_.
        bindE (upd_snode h1 dummy (sn_data_update (\<lambda>_. data))) (\<lambda>h2.
        bindE (upd_snode h2 dummy (sn_next_update (\<lambda>_. 0))) (\<lambda>h3.
        bindE (read_buf h3 buffer) (\<lambda>s.
        bindE (if sb_tail s = 0
               then upd_buf h3 buffer (\<lambda>t. t\<lparr>sb_head := dummy, sb_tail := dummy\<rparr>)
               else bindE (upd_snode h3 (sb_tail s) (sn_next_update (\<lambda>_. dummy))) (\<lambda>h4.
                    bindE (read_snode h4 (sb_tail s)) (\<lambda>n.
                    upd_buf h4 buffer (sb_tail_update (\<lambda>_. sn_next n))))) (\<lambda>h5.
        bindE (pthread_rwlock_unlock h5 buffer) (\<lambda>h6.
        Inr (SBUFFER_SUCCESS, h6))))))))"

definition sbuffer_insert :: "'d sheap \<Rightarrow> addr \<Rightarrow> 'd \<Rightarrow> (int \<times> 'd sheap) option res" where
  "sbuffer_insert h buffer data =
     locked (pthread_rwlock_wrlock h buffer) (\<lambda>h1. insert_locked h1 buffer data)"

end
