(* ===== verification/Sbuffer_Queue.thy ===== *)
theory Sbuffer_Queue
  imports Sbuffer
begin

text \<open>
  The shared buffer is a queue: the relation \<open>squeue h b lk ns\<close> says that the buffer at
  \<open>b\<close> is well-formed, that its lock is in the state \<open>lk\<close> and that it holds the
  nodes \<open>ns\<close> in this order. Each operation under its lock refines the operation of an
  abstract queue; the contract is the locale \<open>shared_queue\<close>, which the buffer interprets.
\<close>

section \<open>Representation\<close>

fun sseg :: "'d sheap \<Rightarrow> (addr \<times> 'd) list \<Rightarrow> addr \<Rightarrow> bool" where
  "sseg h [] nx = True"
| "sseg h ((a, d) # ns) nx =
     (cells h a = Some (SNode \<lparr>sn_next = first_of ns nx, sn_data = d\<rparr>) \<and> sseg h ns nx)"

definition buf_struct :: "rwlock \<Rightarrow> (addr \<times> 'd) list \<Rightarrow> sbuffer" where
  "buf_struct lk ns =
     \<lparr>sb_head = first_of ns 0, sb_tail = last_of 0 ns, sb_lock = lk,
      sb_loop_barrier = 2, sb_prep_barrier = 2\<rparr>"

definition squeue :: "'d sheap \<Rightarrow> addr \<Rightarrow> rwlock \<Rightarrow> (addr \<times> 'd) list \<Rightarrow> bool" where
  "squeue h b lk ns \<longleftrightarrow>
     heap_ok h \<and> cells h b = Some (SBuf (buf_struct lk ns)) \<and> sseg h ns 0 \<and> distinct (map fst ns)"

definition wlocked :: rwlock where
  "wlocked = \<lparr>rw_readers = 0, rw_writer = True\<rparr>"

definition rlocked :: "nat \<Rightarrow> rwlock" where
  "rlocked n = \<lparr>rw_readers = n, rw_writer = False\<rparr>"

lemma rlocked_0: "rlocked 0 = unlocked"
  by (simp add: rlocked_def unlocked_def)

lemmas lock_defs = wlocked_def rlocked_def unlocked_def unlock_rw_def

lemma sseg_cong:
  "(\<And>a. a \<in> fst ` set ns \<Longrightarrow> cells h' a = cells h a) \<Longrightarrow> sseg h' ns nx = sseg h ns nx"
proof (induction ns)
  case (Cons n ns)
  obtain a d where n: "n = (a, d)" by fastforce
  have "cells h' a = cells h a" using Cons.prems n by simp
  moreover have "sseg h' ns nx = sseg h ns nx" using Cons.prems by (intro Cons.IH) simp
  ultimately show ?case by (simp add: n)
qed simp

lemma sseg_append [simp]: "sseg h (xs @ ys) nx = (sseg h xs (first_of ys nx) \<and> sseg h ys nx)"
  by (induction xs) (auto simp: first_of_append)

lemma sseg_written [simp]: "p \<notin> fst ` set ns \<Longrightarrow> sseg (written p c h) ns nx = sseg h ns nx"
  by (rule sseg_cong) auto

lemma sseg_freed [simp]: "p \<notin> fst ` set ns \<Longrightarrow> sseg (freed p h) ns nx = sseg h ns nx"
  by (rule sseg_cong) auto

lemma sseg_alloced: "next_addr h \<notin> fst ` set ns \<Longrightarrow> sseg (alloced c h) ns nx = sseg h ns nx"
  by (rule sseg_cong) (metis cells_alloced fun_upd_other)

lemma sseg_live: "sseg h ns nx \<Longrightarrow> (a, d) \<in> set ns \<Longrightarrow> \<exists>n. cells h a = Some (SNode n)"
  by (induction ns) auto

lemma squeue_ok: "squeue h b lk ns \<Longrightarrow> heap_ok h"
  and squeue_struct: "squeue h b lk ns \<Longrightarrow> cells h b = Some (SBuf (buf_struct lk ns))"
  and squeue_seg: "squeue h b lk ns \<Longrightarrow> sseg h ns 0"
  and squeue_distinct: "squeue h b lk ns \<Longrightarrow> distinct (map fst ns)"
  by (simp_all add: squeue_def)

lemma squeue_nonnull: "squeue h b lk ns \<Longrightarrow> b \<noteq> 0"
  by (metis heap_ok_null option.distinct(1) squeue_def)

lemma squeue_nodeE:
  assumes "squeue h b lk ns" and "a \<in> fst ` set ns"
  obtains n where "cells h a = Some (SNode n)"
proof -
  from assms(2) obtain d where "(a, d) \<in> set ns" by auto
  with sseg_live [OF squeue_seg [OF assms(1)]] that show ?thesis by blast
qed

lemma squeue_struct_not_node: "squeue h b lk ns \<Longrightarrow> b \<notin> fst ` set ns"
  by (metis option.inject scell.distinct(1) squeue_nodeE squeue_struct)

lemma squeue_node_nonnull: "squeue h b lk ns \<Longrightarrow> a \<in> fst ` set ns \<Longrightarrow> a \<noteq> 0"
  by (metis heap_ok_null option.distinct(1) squeue_nodeE squeue_ok)

lemma squeue_length: "squeue h b lk ns \<Longrightarrow> length ns < next_addr h"
proof -
  assume q: "squeue h b lk ns"
  have "length (map fst ns) < next_addr h"
  proof (rule live_path_length [OF squeue_ok [OF q] squeue_distinct [OF q]])
    fix a assume "a \<in> set (map fst ns)"
    then show "cells h a \<noteq> None" using squeue_nodeE [OF q, of a] by auto
  qed
  then show ?thesis by simp
qed

section \<open>Field access in a well-formed buffer\<close>

lemma read_snode_ok [heap_simps]:
  "cells h p = Some (SNode n) \<Longrightarrow> heap_ok h \<Longrightarrow> read_snode h p = Inr n"
  by (simp add: read_snode_def load_ok)

lemma upd_snode_ok [heap_simps]:
  "cells h p = Some (SNode n) \<Longrightarrow> heap_ok h \<Longrightarrow> upd_snode h p f = Inr (written p (SNode (f n)) h)"
  by (simp add: upd_snode_def read_snode_ok store_ok)

lemma read_buf_ok [heap_simps]:
  "cells h p = Some (SBuf s) \<Longrightarrow> heap_ok h \<Longrightarrow> read_buf h p = Inr s"
  by (simp add: read_buf_def load_ok)

lemma upd_buf_ok [heap_simps]:
  "cells h p = Some (SBuf s) \<Longrightarrow> heap_ok h \<Longrightarrow> upd_buf h p f = Inr (written p (SBuf (f s)) h)"
  by (simp add: upd_buf_def read_buf_ok store_ok)

lemma read_buf_null [simp]: "read_buf h 0 = Inl NullDeref"
  by (simp add: read_buf_def)

lemma squeue_read_buf: "squeue h b lk ns \<Longrightarrow> read_buf h b = Inr (buf_struct lk ns)"
  by (simp add: read_buf_ok squeue_struct squeue_ok)

lemma squeue_alive: "squeue h b lk ns \<Longrightarrow> b \<in> alive h"
  by (simp add: alive_iff squeue_struct)

lemma squeue_node_alive: "squeue h b lk ns \<Longrightarrow> a \<in> fst ` set ns \<Longrightarrow> a \<in> alive h"
  using squeue_nodeE [of h b lk ns a] by (auto simp: alive_iff)

text \<open>Only the lock changes.\<close>

lemma squeue_set_lock:
  assumes q: "squeue h b lk ns"
  shows "squeue (written b (SBuf (buf_struct lk' ns)) h) b lk' ns"
proof -
  show ?thesis using q squeue_struct_not_node [OF q] by (simp add: squeue_def)
qed

lemma squeue_upd_lock:
  assumes q: "squeue h b lk ns"
  shows "\<exists>h'. upd_buf h b (sb_lock_update f) = Inr h' \<and> squeue h' b (f lk) ns \<and> budget h' = budget h \<and>
           alive h' = alive h"
proof -
  have "sb_lock_update f (buf_struct lk ns) = buf_struct (f lk) ns"
    by (simp add: buf_struct_def)
  then show ?thesis
    using upd_buf_ok [OF squeue_struct [OF q] squeue_ok [OF q], of "sb_lock_update f"]
      squeue_set_lock [OF q, of "f lk"] squeue_alive [OF q] by (simp add: insert_absorb)
qed

section \<open>The lock\<close>

lemma rdlock_squeue:
  assumes q: "squeue h b (rlocked n) ns"
  shows "\<exists>h'. pthread_rwlock_rdlock h b = Inr (Some h') \<and> squeue h' b (rlocked (Suc n)) ns \<and>
           budget h' = budget h \<and> alive h' = alive h"
  using squeue_upd_lock [OF q, of "rw_readers_update Suc"]
  by (auto simp: pthread_rwlock_rdlock_def squeue_read_buf [OF q] buf_struct_def rlocked_def)

lemma rdlock_waits:
  "squeue h b wlocked ns \<Longrightarrow> pthread_rwlock_rdlock h b = Inr None"
  by (simp add: pthread_rwlock_rdlock_def squeue_read_buf buf_struct_def wlocked_def)

lemma wrlock_squeue:
  assumes q: "squeue h b unlocked ns"
  shows "\<exists>h'. pthread_rwlock_wrlock h b = Inr (Some h') \<and> squeue h' b wlocked ns \<and>
           budget h' = budget h \<and> alive h' = alive h"
  using squeue_upd_lock [OF q, of "rw_writer_update (\<lambda>_. True)"]
  by (auto simp: pthread_rwlock_wrlock_def squeue_read_buf [OF q] buf_struct_def unlocked_def wlocked_def)

lemma wrlock_waits:
  "squeue h b lk ns \<Longrightarrow> rw_writer lk \<or> 0 < rw_readers lk \<Longrightarrow> pthread_rwlock_wrlock h b = Inr None"
  by (simp add: pthread_rwlock_wrlock_def squeue_read_buf buf_struct_def)

lemma unlock_squeue:
  "squeue h b lk ns \<Longrightarrow>
     \<exists>h'. pthread_rwlock_unlock h b = Inr h' \<and> squeue h' b (unlock_rw lk) ns \<and> budget h' = budget h \<and>
       alive h' = alive h"
  unfolding pthread_rwlock_unlock_def by (rule squeue_upd_lock)

lemma unlock_rw_simps [simp]:
  "unlock_rw wlocked = unlocked" "unlock_rw (rlocked (Suc n)) = rlocked n"
  by (simp_all add: lock_defs)

section \<open>Initialisation\<close>

lemma sbuffer_init_ok:
  assumes "heap_ok h" and "0 < budget h"
  shows "\<exists>h'. sbuffer_init h = Inr (SBUFFER_SUCCESS, next_addr h, h') \<and>
           squeue h' (next_addr h) unlocked [] \<and> budget h' = budget h - 1 \<and>
           alive h' = insert (next_addr h) (alive h)"
  using assms
  by (simp add: sbuffer_init_def malloc_ok heap_ok_pos upd_buf_ok squeue_def buf_struct_def
      raw_buf_def)

lemma sbuffer_init_no_memory: "budget h = 0 \<Longrightarrow> sbuffer_init h = Inr (SBUFFER_FAILURE, 0, h)"
  by (simp add: sbuffer_init_def malloc_fail)

section \<open>Reading\<close>

lemma get_locked_empty:
  "squeue h b lk [] \<Longrightarrow> get_locked h b = Inr (SBUFFER_NO_DATA, None, h)"
  by (simp add: get_locked_def squeue_nonnull squeue_read_buf buf_struct_def)

lemma get_locked_data:
  assumes q: "squeue h b lk ((a, d) # ns)"
  shows "\<exists>h'. get_locked h b = Inr (SBUFFER_SUCCESS, Some d, h') \<and>
           squeue h' b (unlock_rw lk) ((a, d) # ns) \<and> budget h' = budget h \<and> alive h' = alive h"
proof -
  have "a \<noteq> 0" using squeue_node_nonnull [OF q] by simp
  moreover obtain n where "read_snode h a = Inr n" "sn_data n = d"
    using squeue_seg [OF q] read_snode_ok [OF _ squeue_ok [OF q], of a] by fastforce
  ultimately show ?thesis using unlock_squeue [OF q]
    by (auto simp: get_locked_def squeue_nonnull [OF q] squeue_read_buf [OF q] buf_struct_def)
qed

section \<open>Removal\<close>

lemma remove_locked_empty:
  "squeue h b lk [] \<Longrightarrow> remove_locked h b = Inr (SBUFFER_NO_DATA, None, h)"
  by (simp add: remove_locked_def squeue_nonnull squeue_read_buf buf_struct_def)

text \<open>The struct after the head has been taken out of the list.\<close>

lemma squeue_drop_first:
  assumes q: "squeue h b lk ((a, d) # ns)"
  shows "squeue (freed a (written b (SBuf (buf_struct lk ns)) h)) b lk ns"
proof -
  have "b \<noteq> a" using squeue_struct_not_node [OF q] by simp
  then show ?thesis using q squeue_struct_not_node [OF q] by (simp add: squeue_def)
qed

lemma remove_locked_data:
  assumes q: "squeue h b lk ((a, d) # ns)"
  shows "\<exists>h'. remove_locked h b = Inr (SBUFFER_SUCCESS, Some d, h') \<and>
           squeue h' b (unlock_rw lk) ns \<and> budget h' = budget h \<and> alive h' = alive h - {a}"
proof -
  let ?s = "buf_struct lk ((a, d) # ns)"
  let ?h1 = "written b (SBuf (buf_struct lk ns)) h"
  have ok: "heap_ok h" and st: "cells h b = Some (SBuf ?s)"
    and a: "cells h a = Some (SNode \<lparr>sn_next = first_of ns 0, sn_data = d\<rparr>)"
    and dist: "distinct (map fst ((a, d) # ns))"
    using q by (simp_all add: squeue_def)
  have ne: "a \<noteq> 0" "b \<noteq> a"
    using squeue_node_nonnull [OF q, of a] squeue_struct_not_node [OF q] by auto
  have single: "a = last_of a ns \<longleftrightarrow> ns = []"
    using dist by (cases ns rule: rev_cases) auto
  have "(if sb_head ?s = sb_tail ?s
         then upd_buf h b (\<lambda>t. t\<lparr>sb_head := 0, sb_tail := 0\<rparr>)
         else upd_buf h b (sb_head_update (\<lambda>_. first_of ns 0))) = Inr ?h1"
    using single upd_buf_ok [OF st ok] last_of_def by (cases ns) (auto simp: buf_struct_def)
  moreover have "cfree ?h1 a = Inr (freed a ?h1)"
    using cfree_ok [of ?h1 a] a ne ok st by simp
  moreover obtain h' where "pthread_rwlock_unlock (freed a ?h1) b = Inr h'"
      "squeue h' b (unlock_rw lk) ns" "budget h' = budget (freed a ?h1)" "alive h' = alive (freed a ?h1)"
    using unlock_squeue [OF squeue_drop_first [OF q]] by blast
  ultimately show ?thesis using ne read_snode_ok [OF a ok] squeue_nonnull [OF q] squeue_alive [OF q]
    by (cases "a = last_of a ns")
      (simp_all add: remove_locked_def squeue_read_buf [OF q] buf_struct_def insert_absorb)
qed

section \<open>Insertion\<close>

text \<open>A fresh node, not linked yet, beside the queue.\<close>

lemma squeue_fresh_node:
  assumes q: "squeue h b lk ns"
  shows "squeue (alloced (SNode n) h) b lk ns" and "next_addr h \<notin> insert b (fst ` set ns)"
proof -
  have dead: "cells h (next_addr h) = None" using squeue_ok [OF q] by simp
  have "next_addr h \<noteq> b" using dead squeue_struct [OF q] by auto
  moreover have out: "next_addr h \<notin> fst ` set ns"
    by (metis dead option.distinct(1) squeue_nodeE [OF q])
  ultimately show "next_addr h \<notin> insert b (fst ` set ns)" by simp
  show "squeue (alloced (SNode n) h) b lk ns"
    using q sseg_alloced [OF out] \<open>next_addr h \<noteq> b\<close> by (simp add: squeue_def)
qed

lemma squeue_link_last:
  assumes q: "squeue h b lk (xs @ [(p, e)])" and new: "a \<notin> insert b (fst ` set (xs @ [(p, e)]))"
    and a: "cells h a = Some (SNode \<lparr>sn_next = 0, sn_data = d\<rparr>)"
  shows "squeue (written b (SBuf (buf_struct lk (xs @ [(p, e), (a, d)])))
           (written p (SNode \<lparr>sn_next = a, sn_data = e\<rparr>) h)) b lk (xs @ [(p, e), (a, d)])"
  using q new a squeue_struct_not_node [OF q] by (auto simp: squeue_def)

lemma squeue_link_first:
  assumes q: "squeue h b lk []" and new: "a \<noteq> b"
    and a: "cells h a = Some (SNode \<lparr>sn_next = 0, sn_data = d\<rparr>)"
  shows "squeue (written b (SBuf (buf_struct lk [(a, d)])) h) b lk [(a, d)]"
  using q new a by (auto simp: squeue_def)

lemma insert_locked_squeue:
  assumes q: "squeue h b lk ns" and bud: "0 < budget h"
  shows "\<exists>h'. insert_locked h b d = Inr (SBUFFER_SUCCESS, h') \<and>
           squeue h' b (unlock_rw lk) (ns @ [(next_addr h, d)]) \<and> budget h' = budget h - 1 \<and>
           alive h' = insert (next_addr h) (alive h)"
proof -
  let ?a = "next_addr h" and ?n = "\<lparr>sn_next = 0, sn_data = d\<rparr>"
  let ?h3 = "written ?a (SNode ?n) (written ?a (SNode ?n) (alloced (SNode ?n) h))"
  note fresh = squeue_fresh_node [OF q]
  have q3: "squeue ?h3 b lk ns"
    using fresh(1) [of ?n] fresh(2) by (simp add: squeue_def)
  have a3: "cells ?h3 ?a = Some (SNode ?n)" by simp
  have nz: "?a \<noteq> 0" using heap_ok_pos [OF squeue_ok [OF q]] by simp
  have ok1: "heap_ok (alloced (SNode ?n) h)" using squeue_ok [OF q] by simp
  have upto: "insert_locked h b d =
      bindE (if sb_tail (buf_struct lk ns) = 0
             then upd_buf ?h3 b (\<lambda>t. t\<lparr>sb_head := ?a, sb_tail := ?a\<rparr>)
             else bindE (upd_snode ?h3 (sb_tail (buf_struct lk ns)) (sn_next_update (\<lambda>_. ?a))) (\<lambda>h4.
                  bindE (read_snode h4 (sb_tail (buf_struct lk ns))) (\<lambda>n.
                  upd_buf h4 b (sb_tail_update (\<lambda>_. sn_next n))))) (\<lambda>h5.
      bindE (pthread_rwlock_unlock h5 b) (\<lambda>h6. Inr (SBUFFER_SUCCESS, h6)))"
    using ok1 nz squeue_nonnull [OF q] squeue_read_buf [OF q3]
    by (simp add: insert_locked_def malloc_ok [OF bud] upd_snode_ok)
  obtain h5 where h5: "insert_locked h b d =
      bindE (Inr h5) (\<lambda>h5. bindE (pthread_rwlock_unlock h5 b) (\<lambda>h6. Inr (SBUFFER_SUCCESS, h6)))"
    and q5: "squeue h5 b lk (ns @ [(?a, d)])" and b5: "budget h5 = budget h - 1"
      and l5: "alive h5 = insert ?a (alive h)"
  proof (cases ns rule: rev_cases)
    case Nil
    have "upd_buf ?h3 b (\<lambda>t. t\<lparr>sb_head := ?a, sb_tail := ?a\<rparr>) =
        Inr (written b (SBuf (buf_struct lk [(?a, d)])) ?h3)"
      using upd_buf_ok [OF squeue_struct [OF q3] squeue_ok [OF q3]] Nil by (simp add: buf_struct_def)
    moreover have "squeue (written b (SBuf (buf_struct lk [(?a, d)])) ?h3) b lk [(?a, d)]"
      by (rule squeue_link_first) (use q3 Nil fresh(2) a3 in auto)
    ultimately show ?thesis using that upto Nil squeue_alive [OF q]
      by (simp add: buf_struct_def insert_absorb insert_commute [of b])
  next
    case (snoc xs pe)
    then obtain p e where ns: "ns = xs @ [(p, e)]" by (metis prod.collapse)
    let ?h4 = "written p (SNode \<lparr>sn_next = ?a, sn_data = e\<rparr>) ?h3"
    have p3: "cells ?h3 p = Some (SNode \<lparr>sn_next = 0, sn_data = e\<rparr>)"
      using squeue_seg [OF q3] ns by simp
    have pz: "p \<noteq> 0" "b \<noteq> p"
      using squeue_node_nonnull [OF q, of p] squeue_struct_not_node [OF q] ns by auto
    have "cells ?h3 p \<noteq> None" using p3 by (metis option.distinct(1))
    then have ok4: "heap_ok ?h4" by (rule heap_ok_written [OF squeue_ok [OF q3]])
    have st4: "cells ?h4 b = Some (SBuf (buf_struct lk ns))" using squeue_struct [OF q3] pz by simp
    have "read_snode ?h4 p = Inr \<lparr>sn_next = ?a, sn_data = e\<rparr>"
      using ok4 by (intro read_snode_ok) simp_all
    moreover have "upd_buf ?h4 b (sb_tail_update (\<lambda>_. ?a)) =
        Inr (written b (SBuf (buf_struct lk (ns @ [(?a, d)]))) ?h4)"
      using upd_buf_ok [OF st4 ok4] ns by (simp add: buf_struct_def first_of_append)
    moreover have "squeue (written b (SBuf (buf_struct lk (ns @ [(?a, d)]))) ?h4) b lk (ns @ [(?a, d)])"
      using squeue_link_last [of ?h3 b lk xs p e ?a d] q3 fresh(2) a3 ns by simp
    moreover have "p \<in> alive h" using squeue_node_alive [OF q, of p] ns by simp
    ultimately show ?thesis
      using that upto upd_snode_ok [OF p3 squeue_ok [OF q3]] pz ns squeue_alive [OF q]
      by (simp add: buf_struct_def last_of_def insert_absorb)
  qed
  then show ?thesis using unlock_squeue [OF q5] by auto
qed

lemma insert_locked_no_memory:
  "squeue h b lk ns \<Longrightarrow> budget h = 0 \<Longrightarrow> insert_locked h b d = Inl AssertFail"
  by (simp add: insert_locked_def squeue_nonnull malloc_fail)

end
