(* ===== verification/Sbuffer_Contract.thy ===== *)
theory Sbuffer_Contract
  imports Sbuffer_Queue
begin

text \<open>
  What the threads of the gateway rely on: the contract of the reader/writer lock
  (\<open>rw_lock\<close>) and of the queue behind it (\<open>shared_queue\<close>), over an abstract
  representation relation. The complete operations, lock call included, and every sequence
  of them follow from the contract alone; the shared buffer of sbuffer.c interprets it.
\<close>

section \<open>The contracts\<close>

locale rw_lock =
  fixes rd :: "'h \<Rightarrow> 'h option res" and wr :: "'h \<Rightarrow> 'h option res"
    and unl :: "'h \<Rightarrow> 'h res"
    and repr :: "'h \<Rightarrow> rwlock \<Rightarrow> 'd list \<Rightarrow> bool" and room :: "'h \<Rightarrow> nat"
  assumes rd_granted: "repr h (rlocked n) q \<Longrightarrow>
      \<exists>h'. rd h = Inr (Some h') \<and> repr h' (rlocked (Suc n)) q \<and> room h' = room h"
    and rd_waits: "repr h wlocked q \<Longrightarrow> rd h = Inr None"
    and wr_granted: "repr h unlocked q \<Longrightarrow>
      \<exists>h'. wr h = Inr (Some h') \<and> repr h' wlocked q \<and> room h' = room h"
    and wr_waits_reader: "repr h (rlocked (Suc n)) q \<Longrightarrow> wr h = Inr None"
    and wr_waits_writer: "repr h wlocked q \<Longrightarrow> wr h = Inr None"
    and unl_ok: "repr h lk q \<Longrightarrow>
      \<exists>h'. unl h = Inr h' \<and> repr h' (unlock_rw lk) q \<and> room h' = room h"
begin

text \<open>Readers do not exclude each other, a writer excludes everybody.\<close>

lemma lock_exclusion:
  "repr h wlocked q \<Longrightarrow> rd h = Inr None \<and> wr h = Inr None"
  by (simp add: rd_waits wr_waits_writer)

lemma rd_then_unlock:
  assumes "repr h (rlocked n) q"
  shows "\<exists>h1 h2. rd h = Inr (Some h1) \<and> unl h1 = Inr h2 \<and> repr h2 (rlocked n) q"
  using rd_granted [OF assms] unl_ok unlock_rw_simps(2) by metis

end

locale shared_queue = rw_lock +
  fixes peek :: "'a \<Rightarrow> (int \<times> 'b option \<times> 'a) res"
    and deq :: "'a \<Rightarrow> (int \<times> 'b option \<times> 'a) res"
    and enq :: "'a \<Rightarrow> 'b \<Rightarrow> (int \<times> 'a) res"
  assumes peek_empty: "repr h lk [] \<Longrightarrow> peek h = Inr (SBUFFER_NO_DATA, None, h)"
    and peek_data: "repr h lk (d # q) \<Longrightarrow>
      \<exists>h'. peek h = Inr (SBUFFER_SUCCESS, Some d, h') \<and> repr h' (unlock_rw lk) (d # q) \<and>
           room h' = room h"
    and deq_empty: "repr h lk [] \<Longrightarrow> deq h = Inr (SBUFFER_NO_DATA, None, h)"
    and deq_data: "repr h lk (d # q) \<Longrightarrow>
      \<exists>h'. deq h = Inr (SBUFFER_SUCCESS, Some d, h') \<and> repr h' (unlock_rw lk) q \<and>
           room h' = room h"
    and enq_ok: "repr h lk q \<Longrightarrow> 0 < room h \<Longrightarrow>
      \<exists>h'. enq h d = Inr (SBUFFER_SUCCESS, h') \<and> repr h' (unlock_rw lk) (q @ [d]) \<and>
           room h' = room h - 1"
    and enq_full: "repr h lk q \<Longrightarrow> room h = 0 \<Longrightarrow> enq h d = Inl AssertFail"

section \<open>Sequences of operations\<close>

datatype 'd qop = Ins 'd | Rem

text \<open>
  A client that runs a list of complete operations, one after the other, and collects what
  the removals return. A call that waits for ever is \<open>Diverges\<close>.
\<close>

fun run_ops ::
    "('h \<Rightarrow> 'd \<Rightarrow> (int \<times> 'h) option res) \<Rightarrow> ('h \<Rightarrow> (int \<times> 'd option \<times> 'h) option res) \<Rightarrow>
     'd qop list \<Rightarrow> 'h \<Rightarrow> ((int \<times> 'd option) list \<times> 'h) res" where
  "run_ops ins rem [] h = Inr ([], h)"
| "run_ops ins rem (Ins d # ops) h =
     bindE (ins h d) (\<lambda>r. case r of None \<Rightarrow> Inl Diverges
       | Some (code, h1) \<Rightarrow> run_ops ins rem ops h1)"
| "run_ops ins rem (Rem # ops) h =
     bindE (rem h) (\<lambda>r. case r of None \<Rightarrow> Inl Diverges
       | Some (code, x, h1) \<Rightarrow>
           bindE (run_ops ins rem ops h1) (\<lambda>(ds, h2). Inr ((code, x) # ds, h2)))"

text \<open>
  The same on an abstract queue; \<open>None\<close> when it takes something out of an empty queue.
\<close>

fun queue_ops :: "'d qop list \<Rightarrow> 'd list \<Rightarrow> ('d list \<times> 'd list) option" where
  "queue_ops [] q = Some ([], q)"
| "queue_ops (Ins d # ops) q = queue_ops ops (q @ [d])"
| "queue_ops (Rem # ops) [] = None"
| "queue_ops (Rem # ops) (d # q) = map_option (\<lambda>(ds, r). (d # ds, r)) (queue_ops ops q)"

fun inserted_by :: "'d qop list \<Rightarrow> 'd list" where
  "inserted_by [] = []"
| "inserted_by (Ins d # ops) = d # inserted_by ops"
| "inserted_by (Rem # ops) = inserted_by ops"

lemma queue_ops_fifo: "queue_ops ops q = Some (ds, r) \<Longrightarrow> ds @ r = q @ inserted_by ops"
  by (induction ops q arbitrary: ds rule: queue_ops.induct) auto

context shared_queue
begin

lemma insert_call:
  assumes "repr h unlocked q" and "0 < room h"
  shows "\<exists>h'. locked (wr h) (\<lambda>h1. enq h1 d) = Inr (Some (SBUFFER_SUCCESS, h')) \<and>
           repr h' unlocked (q @ [d]) \<and> room h' = room h - 1"
proof -
  obtain h1 where h1: "wr h = Inr (Some h1)" "repr h1 wlocked q" "room h1 = room h"
    using wr_granted [OF assms(1)] by blast
  then show ?thesis using enq_ok [OF h1(2), of d] assms(2) by (auto simp: locked_def)
qed

lemma remove_call:
  assumes "repr h unlocked (d # q)"
  shows "\<exists>h'. locked (wr h) deq = Inr (Some (SBUFFER_SUCCESS, Some d, h')) \<and>
           repr h' unlocked q \<and> room h' = room h"
proof -
  obtain h1 where h1: "wr h = Inr (Some h1)" "repr h1 wlocked (d # q)" "room h1 = room h"
    using wr_granted [OF assms] by blast
  then show ?thesis using deq_data [OF h1(2)] by (auto simp: locked_def)
qed

text \<open>A removal from the empty queue returns with the write lock held.\<close>

lemma remove_call_empty:
  assumes "repr h unlocked []"
  shows "\<exists>h'. locked (wr h) deq = Inr (Some (SBUFFER_NO_DATA, None, h')) \<and> repr h' wlocked []"
proof -
  obtain h1 where h1: "wr h = Inr (Some h1)" "repr h1 wlocked []"
    using wr_granted [OF assms] by blast
  then show ?thesis using deq_empty [OF h1(2)] by (simp add: locked_def)
qed

lemma get_call:
  assumes "repr h (rlocked n) (d # q)"
  shows "\<exists>h'. locked (rd h) peek = Inr (Some (SBUFFER_SUCCESS, Some d, h')) \<and>
           repr h' (rlocked n) (d # q) \<and> room h' = room h"
proof -
  obtain h1 where h1: "rd h = Inr (Some h1)" "repr h1 (rlocked (Suc n)) (d # q)" "room h1 = room h"
    using rd_granted [OF assms] by blast
  then show ?thesis using peek_data [OF h1(2)] by (auto simp: locked_def)
qed

lemma get_call_empty:
  assumes "repr h (rlocked n) []"
  shows "\<exists>h'. locked (rd h) peek = Inr (Some (SBUFFER_NO_DATA, None, h')) \<and>
           repr h' (rlocked (Suc n)) []"
proof -
  obtain h1 where h1: "rd h = Inr (Some h1)" "repr h1 (rlocked (Suc n)) []"
    using rd_granted [OF assms] by blast
  then show ?thesis using peek_empty [OF h1(2)] by (simp add: locked_def)
qed

lemma run_ops_queue:
  assumes "repr h unlocked q" and "queue_ops ops q = Some (ds, r)"
    and "length (inserted_by ops) \<le> room h"
  shows "\<exists>h'. run_ops (\<lambda>h d. locked (wr h) (\<lambda>h1. enq h1 d)) (\<lambda>h. locked (wr h) deq) ops h =
           Inr (map (\<lambda>d. (SBUFFER_SUCCESS, Some d)) ds, h') \<and> repr h' unlocked r"
  using assms
proof (induction ops q arbitrary: h ds rule: queue_ops.induct)
  case (2 d ops q)
  obtain h1 where h1: "locked (wr h) (\<lambda>h1. enq h1 d) = Inr (Some (SBUFFER_SUCCESS, h1))"
      "repr h1 unlocked (q @ [d])" "room h1 = room h - 1"
    using insert_call [OF "2.prems"(1), of d] "2.prems"(3) by auto
  then show ?case using "2.IH" [of h1 ds] "2.prems" by auto
next
  case (4 ops d q)
  then obtain ds' where ds: "queue_ops ops q = Some (ds', r)" "ds = d # ds'" by auto
  obtain h1 where h1: "locked (wr h) deq = Inr (Some (SBUFFER_SUCCESS, Some d, h1))"
      "repr h1 unlocked q" "room h1 = room h"
    using remove_call [OF "4.prems"(1)] by blast
  then show ?case using "4.IH" [of h1 ds'] "4.prems" ds by auto
qed simp_all

end

section \<open>The shared buffer provides the contract\<close>

text \<open>
  The buffer at \<open>b\<close> holds the queue \<open>q\<close>; beside its struct and its nodes exactly the addresses
  in \<open>X\<close> are alive, so that an operation that leaks or releases too much breaks the relation.
\<close>

definition buf_within :: "addr set \<Rightarrow> addr \<Rightarrow> 'd sheap \<Rightarrow> rwlock \<Rightarrow> 'd list \<Rightarrow> bool" where
  "buf_within X b h lk q \<longleftrightarrow>
     (\<exists>ns. squeue h b lk ns \<and> map snd ns = q \<and> alive h - insert b (fst ` set ns) = X)"

abbreviation buf_only :: "addr \<Rightarrow> 'd sheap \<Rightarrow> rwlock \<Rightarrow> 'd list \<Rightarrow> bool" where
  "buf_only \<equiv> buf_within {}"

definition buf_repr :: "addr \<Rightarrow> 'd sheap \<Rightarrow> rwlock \<Rightarrow> 'd list \<Rightarrow> bool" where
  "buf_repr b h lk q \<longleftrightarrow> (\<exists>ns. squeue h b lk ns \<and> map snd ns = q)"

lemma buf_repr_within: "buf_repr b h lk q \<longleftrightarrow> (\<exists>X. buf_within X b h lk q)"
  by (auto simp: buf_repr_def buf_within_def)

lemma buf_repr_Nil: "buf_repr b h lk [] \<longleftrightarrow> squeue h b lk []"
  by (simp add: buf_repr_def)

lemma buf_reprI: "squeue h b lk ns \<Longrightarrow> buf_repr b h lk (map snd ns)"
  by (auto simp: buf_repr_def)

lemma buf_withinE:
  assumes "buf_within X b h lk q"
  obtains ns where "squeue h b lk ns" "map snd ns = q" "alive h - insert b (fst ` set ns) = X"
  using assms by (auto simp: buf_within_def)

lemma buf_within_same:
  "squeue h' b lk ns \<Longrightarrow> map snd ns = q \<Longrightarrow> alive h - insert b (fst ` set ns) = X \<Longrightarrow> alive h' = alive h \<Longrightarrow>
   buf_within X b h' lk q"
  by (auto simp: buf_within_def)

lemma rdlock_within:
  "buf_within X b h (rlocked n) q \<Longrightarrow>
   \<exists>h'. pthread_rwlock_rdlock h b = Inr (Some h') \<and> buf_within X b h' (rlocked (Suc n)) q \<and> budget h' = budget h"
  by (erule buf_withinE) (metis rdlock_squeue buf_within_same)

lemma wrlock_within:
  "buf_within X b h unlocked q \<Longrightarrow>
   \<exists>h'. pthread_rwlock_wrlock h b = Inr (Some h') \<and> buf_within X b h' wlocked q \<and> budget h' = budget h"
  by (erule buf_withinE) (metis wrlock_squeue buf_within_same)

lemma unlock_within:
  "buf_within X b h lk q \<Longrightarrow>
   \<exists>h'. pthread_rwlock_unlock h b = Inr h' \<and> buf_within X b h' (unlock_rw lk) q \<and> budget h' = budget h"
  by (erule buf_withinE) (metis unlock_squeue buf_within_same)

lemma peek_within:
  assumes "buf_within X b h lk (d # q)"
  shows "\<exists>h'. get_locked h b = Inr (SBUFFER_SUCCESS, Some d, h') \<and>
     buf_within X b h' (unlock_rw lk) (d # q) \<and> budget h' = budget h"
proof -
  obtain a ns where q: "squeue h b lk ((a, d) # ns)" "map snd ((a, d) # ns) = d # q"
      "alive h - insert b (fst ` set ((a, d) # ns)) = X"
    using assms by (rule buf_withinE) (auto simp: map_eq_Cons_conv)
  from get_locked_data [OF q(1)] buf_within_same [OF _ q(2,3)] show ?thesis by blast
qed

lemma deq_within:
  assumes "buf_within X b h lk (d # q)"
  shows "\<exists>h'. remove_locked h b = Inr (SBUFFER_SUCCESS, Some d, h') \<and>
     buf_within X b h' (unlock_rw lk) q \<and> budget h' = budget h"
proof -
  obtain a ns where q: "squeue h b lk ((a, d) # ns)" "map snd ns = q"
      "alive h - insert b (insert a (fst ` set ns)) = X"
    using assms by (rule buf_withinE) (auto simp: map_eq_Cons_conv)
  obtain h' where h': "remove_locked h b = Inr (SBUFFER_SUCCESS, Some d, h')"
      "squeue h' b (unlock_rw lk) ns" "budget h' = budget h" "alive h' = alive h - {a}"
    using remove_locked_data [OF q(1)] by blast
  have "alive h' - insert b (fst ` set ns) = X" using q(3) h'(4) by auto
  then have "buf_within X b h' (unlock_rw lk) q" using h'(2) q(2) unfolding buf_within_def by blast
  with h' show ?thesis by blast
qed

lemma enq_within:
  assumes "buf_within X b h lk q" and "0 < budget h"
  shows "\<exists>h'. insert_locked h b d = Inr (SBUFFER_SUCCESS, h') \<and>
     buf_within X b h' (unlock_rw lk) (q @ [d]) \<and> budget h' = budget h - 1"
proof -
  obtain ns where q: "squeue h b lk ns" "map snd ns = q" "alive h - insert b (fst ` set ns) = X"
    using assms(1) by (rule buf_withinE)
  obtain h' where h': "insert_locked h b d = Inr (SBUFFER_SUCCESS, h')"
      "squeue h' b (unlock_rw lk) (ns @ [(next_addr h, d)])" "budget h' = budget h - 1"
      "alive h' = insert (next_addr h) (alive h)"
    using insert_locked_squeue [OF q(1) assms(2)] by blast
  have "next_addr h \<notin> alive h" using squeue_ok [OF q(1)] by (simp add: alive_iff)
  then have "alive h' - insert b (fst ` set (ns @ [(next_addr h, d)])) = X" using q(3) h'(4) by auto
  moreover have "map snd (ns @ [(next_addr h, d)]) = q @ [d]" using q(2) by simp
  ultimately have "buf_within X b h' (unlock_rw lk) (q @ [d])"
    using h'(2) unfolding buf_within_def by blast
  with h' show ?thesis by blast
qed

interpretation sbo: shared_queue
  "\<lambda>h. pthread_rwlock_rdlock h b" "\<lambda>h. pthread_rwlock_wrlock h b"
  "\<lambda>h. pthread_rwlock_unlock h b" "buf_within X b" budget
  "\<lambda>h. get_locked h b" "\<lambda>h. remove_locked h b" "\<lambda>h. insert_locked h b" for X b
proof (unfold_locales, goal_cases)
  case 1 then show ?case by (rule rdlock_within)
next
  case 2 then show ?case by (elim buf_withinE) (rule rdlock_waits)
next
  case 3 then show ?case by (rule wrlock_within)
next
  case 4 then show ?case by (elim buf_withinE) (simp add: wrlock_waits rlocked_def)
next
  case 5 then show ?case by (elim buf_withinE) (simp add: wrlock_waits wlocked_def)
next
  case 6 then show ?case by (rule unlock_within)
next
  case 7 then show ?case by (elim buf_withinE) (simp add: get_locked_empty)
next
  case 8 then show ?case by (rule peek_within)
next
  case 9 then show ?case by (elim buf_withinE) (simp add: remove_locked_empty)
next
  case 10 then show ?case by (rule deq_within)
next
  case 11 then show ?case by (rule enq_within)
next
  case 12 then show ?case by (elim buf_withinE) (simp add: insert_locked_no_memory)
qed

text \<open>Without regard to what else is alive.\<close>

interpretation sbq: shared_queue
  "\<lambda>h. pthread_rwlock_rdlock h b" "\<lambda>h. pthread_rwlock_wrlock h b"
  "\<lambda>h. pthread_rwlock_unlock h b" "buf_repr b" budget
  "\<lambda>h. get_locked h b" "\<lambda>h. remove_locked h b" "\<lambda>h. insert_locked h b" for b
  unfolding buf_repr_within
  by unfold_locales
    (blast dest: sbo.rd_granted sbo.rd_waits sbo.wr_granted sbo.wr_waits_reader sbo.wr_waits_writer sbo.unl_ok
      sbo.peek_empty sbo.peek_data sbo.deq_empty sbo.deq_data sbo.enq_ok sbo.enq_full)+

section \<open>Release of the buffer\<close>

lemma sfree_loop_seg:
  "heap_ok h \<Longrightarrow> cells h b = Some (SBuf s) \<Longrightarrow> sb_head s = first_of ns 0 \<Longrightarrow> sseg h ns 0 \<Longrightarrow>
   distinct (map fst ns) \<Longrightarrow> length ns < fuel \<Longrightarrow>
   \<exists>h' s'. sfree_loop fuel h b = Inr h' \<and> heap_ok h' \<and> cells h' b = Some (SBuf s') \<and>
           (\<forall>a \<in> fst ` set ns. cells h' a = None) \<and> frame ({b} \<union> fst ` set ns) h h'"
proof (induction ns arbitrary: h s fuel)
  case Nil
  then show ?case by (cases fuel) (simp_all add: read_buf_ok)
next
  case (Cons n ns)
  obtain f where f: "fuel = Suc f" "length ns < f" using Cons.prems by (cases fuel) auto
  obtain a d where n: "n = (a, d)" by fastforce
  have a: "cells h a = Some (SNode \<lparr>sn_next = first_of ns 0, sn_data = d\<rparr>)"
    using Cons.prems(4) n by simp
  let ?h1 = "written b (SBuf (s\<lparr>sb_head := first_of ns 0\<rparr>)) h"
  have ne: "a \<noteq> b" "a \<noteq> 0" using a Cons.prems(2) heap_ok_live [OF Cons.prems(1) a] by auto
  have ok1: "heap_ok ?h1" using Cons.prems(1,2) by simp
  have fr: "cfree ?h1 a = Inr (freed a ?h1)" using cfree_ok [of ?h1 a, OF _ ok1] a ne by simp
  have bn: "b \<notin> fst ` set ns"
  proof
    assume "b \<in> fst ` set ns"
    then obtain e where "(b, e) \<in> set ns" by auto
    then show False using sseg_live [of h ns 0 b e] Cons.prems(2,4) n by auto
  qed
  have seg: "sseg (freed a ?h1) ns 0" using Cons.prems(4,5) n bn by simp
  have "\<exists>h' s'. sfree_loop f (freed a ?h1) b = Inr h' \<and> heap_ok h' \<and> cells h' b = Some (SBuf s') \<and>
      (\<forall>x \<in> fst ` set ns. cells h' x = None) \<and> frame ({b} \<union> fst ` set ns) (freed a ?h1) h'"
    by (rule Cons.IH [where s = "s\<lparr>sb_head := first_of ns 0\<rparr>"])
      (use ok1 ne seg Cons.prems(5) f in simp_all)
  then obtain h' s' where h': "sfree_loop f (freed a ?h1) b = Inr h'" "heap_ok h'"
      "cells h' b = Some (SBuf s')" "\<forall>x \<in> fst ` set ns. cells h' x = None"
      "frame ({b} \<union> fst ` set ns) (freed a ?h1) h'"
    by blast
  have "cells h' a = None" using h'(5) ne Cons.prems(5) n by (auto simp: frame_def)
  moreover have "frame ({b} \<union> fst ` set (n # ns)) h h'"
    using h'(5) n by (auto simp: frame_def)
  ultimately show ?case
    using h' f(1) fr ne n Cons.prems(3)
    by (simp add: read_buf_ok [OF Cons.prems(2,1)] upd_buf_ok [OF Cons.prems(2,1)]
        read_snode_ok [OF a Cons.prems(1)])
qed

lemma sbuffer_free_squeue:
  assumes q: "squeue h b lk ns"
  shows "\<exists>h'. sbuffer_free h b = Inr (SBUFFER_SUCCESS, 0, h') \<and> heap_ok h' \<and>
           (\<forall>a \<in> insert b (fst ` set ns). cells h' a = None) \<and> frame (insert b (fst ` set ns)) h h'"
proof -
  obtain h1 s' where h1: "sfree_loop (next_addr h) h b = Inr h1" "heap_ok h1"
      "cells h1 b = Some (SBuf s')" "\<forall>a \<in> fst ` set ns. cells h1 a = None"
      "frame ({b} \<union> fst ` set ns) h h1"
    using sfree_loop_seg [OF squeue_ok [OF q] squeue_struct [OF q] _ squeue_seg [OF q]
        squeue_distinct [OF q] squeue_length [OF q]]
    by (auto simp: buf_struct_def)
  then have "sbuffer_free h b = Inr (SBUFFER_SUCCESS, 0, freed b h1)"
    using squeue_nonnull [OF q] cfree_ok [OF h1(3,2)] by (simp add: sbuffer_free_def)
  then show ?thesis using h1 by (auto simp: frame_def)
qed

end
