(* ===== verification/Sbuffer_Claims.thy ===== *)
theory Sbuffer_Claims
  imports Sbuffer_Contract
begin

text \<open>
  The properties of sbuffer.c, each with an application to a small heap: a buffer struct at
  address 1 and a queue of two numbers in the nodes at 2 and 3.
\<close>

definition demo_buf :: "rwlock \<Rightarrow> nat sheap" where
  "demo_buf lk =
     \<lparr>next_addr = 4, budget = 10,
      cells = (\<lambda>a. if a = 1 then Some (SBuf \<lparr>sb_head = 2, sb_tail = 3, sb_lock = lk,
                                  sb_loop_barrier = 2, sb_prep_barrier = 2\<rparr>)
        else if a = 2 then Some (SNode \<lparr>sn_next = 3, sn_data = 20\<rparr>)
        else if a = 3 then Some (SNode \<lparr>sn_next = 0, sn_data = 30\<rparr>)
        else None)\<rparr>"

definition demo_buf_empty :: "nat sheap" where
  "demo_buf_empty =
     \<lparr>next_addr = 2, budget = 10,
      cells = (\<lambda>a. if a = 1 then Some (SBuf (buf_struct unlocked ([] :: (addr \<times> nat) list))) else None)\<rparr>"

lemma demo_buf_squeue: "squeue (demo_buf lk) 1 lk [(2, 20), (3, 30)]"
  by (simp add: squeue_def demo_buf_def heap_ok_def buf_struct_def)

lemma demo_buf_repr: "buf_repr 1 (demo_buf lk) lk [20, 30]"
  using buf_reprI [OF demo_buf_squeue] by simp

lemma demo_buf_empty_repr: "buf_repr 1 demo_buf_empty unlocked []"
  by (simp add: buf_repr_Nil squeue_def demo_buf_empty_def heap_ok_def)

text \<open>C3. A buffer that \<open>sbuffer_init\<close> has made is a first-in-first-out queue: any sequence
  of insertions and (serial) removals that never takes from an empty queue runs to its end, every
  call succeeds, the removals return exactly the measurements that the abstract queue returns, and
  what has been removed followed by what is left is what has been inserted, in that order.\<close>

theorem sbuffer_fifo:
  assumes "heap_ok h" and "length (inserted_by ops) < budget h" and "queue_ops ops [] = Some (ds, r)"
  shows "\<exists>b h1 h2. sbuffer_init h = Inr (SBUFFER_SUCCESS, b, h1) \<and>
     run_ops (\<lambda>h d. sbuffer_insert h b d) (\<lambda>h. sbuffer_remove h b True) ops h1 =
       Inr (map (\<lambda>d. (SBUFFER_SUCCESS, Some d)) ds, h2) \<and>
     buf_repr b h2 unlocked r \<and> ds @ r = inserted_by ops"
proof -
  obtain h1 where h1: "sbuffer_init h = Inr (SBUFFER_SUCCESS, next_addr h, h1)"
      "squeue h1 (next_addr h) unlocked []" "budget h1 = budget h - 1"
    using sbuffer_init_ok [OF assms(1)] assms(2) by auto
  have "length (inserted_by ops) \<le> budget h1" using assms(2) h1(3) by simp
  from sbq.run_ops_queue [OF buf_repr_Nil [THEN iffD2, OF h1(2)] assms(3) this] h1(1)
    queue_ops_fifo [OF assms(3)]
  show ?thesis by (simp add: sbuffer_insert_def sbuffer_remove_def)
qed

lemma sbuffer_fifo_witness:
  "\<exists>b h1 h2. sbuffer_init (empty_heap 5) = Inr (SBUFFER_SUCCESS, b, h1) \<and>
     run_ops (\<lambda>h d. sbuffer_insert h b d) (\<lambda>h. sbuffer_remove h b True)
       [Ins (7 :: nat), Ins 8, Rem, Ins 9, Rem] h1 =
     Inr ([(SBUFFER_SUCCESS, Some 7), (SBUFFER_SUCCESS, Some 8)], h2) \<and> buf_repr b h2 unlocked [9]"
  using sbuffer_fifo [of "empty_heap 5" "[Ins (7 :: nat), Ins 8, Rem, Ins 9, Rem]" "[7, 8]" "[9]"]
  by (simp add: empty_heap_def [of 5] heap_ok_def)

text \<open>C34. Reading never changes the queue, and the readers do not exclude each other: with any
  number of them inside, a call returns the oldest measurement and gives its read lock back. On an
  empty buffer it returns \<open>SBUFFER_NO_DATA\<close> and keeps the read lock, so that a writer waits
  until the caller has unlocked.\<close>

theorem get_data_reads_head:
  assumes "buf_repr b h (rlocked n) q"
  shows "\<exists>code h'.
     sbuffer_get_data h b = Inr (Some (code, (case q of [] \<Rightarrow> None | d # _ \<Rightarrow> Some d), h')) \<and>
     buf_repr b h' (rlocked (if q = [] then Suc n else n)) q \<and>
     code = (if q = [] then SBUFFER_NO_DATA else SBUFFER_SUCCESS) \<and>
     (q = [] \<longrightarrow> (\<forall>d. sbuffer_insert h' b d = Inr None))"
proof (cases q)
  case Nil
  obtain h' where h': "locked (pthread_rwlock_rdlock h b) (\<lambda>h. get_locked h b) =
      Inr (Some (SBUFFER_NO_DATA, None, h'))" "buf_repr b h' (rlocked (Suc n)) []"
    using sbq.get_call_empty [of b h n] assms Nil by auto
  then show ?thesis using Nil sbq.wr_waits_reader [OF h'(2)]
    by (simp add: sbuffer_get_data_def sbuffer_insert_def locked_def)
next
  case (Cons d ds)
  obtain h' where h': "locked (pthread_rwlock_rdlock h b) (\<lambda>h. get_locked h b) =
      Inr (Some (SBUFFER_SUCCESS, Some d, h'))" "buf_repr b h' (rlocked n) (d # ds)"
    using sbq.get_call [of b h n d ds] assms Cons by auto
  show ?thesis
    unfolding sbuffer_get_data_def h'(1)
    by (intro exI [of _ SBUFFER_SUCCESS] exI [of _ h']) (simp add: Cons h'(2))
qed

lemma get_data_reads_head_witness:
  "\<exists>h'. sbuffer_get_data (demo_buf (rlocked 3)) 1 = Inr (Some (SBUFFER_SUCCESS, Some 20, h')) \<and>
     buf_repr 1 h' (rlocked 3) [20, 30]"
proof -
  have "\<exists>code h'. sbuffer_get_data (demo_buf (rlocked 3)) 1 = Inr (Some (code, Some 20, h')) \<and>
     buf_repr 1 h' (rlocked 3) [20, 30] \<and> code = SBUFFER_SUCCESS"
    using get_data_reads_head [OF demo_buf_repr, of 3] by (simp only: list.case list.distinct if_False) blast
  then show ?thesis by blast
qed

text \<open>C35. The early return of \<open>sbuffer_remove\<close> on an empty buffer keeps the write lock:
  after it every reader and every writer waits, for ever unless the caller unlocks.\<close>

theorem remove_from_empty_keeps_lock:
  assumes "buf_repr b h unlocked []"
  shows "\<exists>h'. sbuffer_remove h b True = Inr (Some (SBUFFER_NO_DATA, None, h')) \<and>
     sbuffer_get_data h' b = Inr None \<and> sbuffer_remove h' b True = Inr None \<and>
     (\<forall>d. sbuffer_insert h' b d = Inr None)"
proof -
  obtain h' where h': "locked (pthread_rwlock_wrlock h b) (\<lambda>h. remove_locked h b) =
      Inr (Some (SBUFFER_NO_DATA, None, h'))" "buf_repr b h' wlocked []"
    using sbq.remove_call_empty [OF assms] by blast
  then show ?thesis using sbq.lock_exclusion [OF h'(2)]
    by (simp add: sbuffer_remove_def sbuffer_get_data_def sbuffer_insert_def locked_def)
qed

lemma remove_from_empty_keeps_lock_witness:
  "\<exists>h'. sbuffer_remove demo_buf_empty 1 True = Inr (Some (SBUFFER_NO_DATA, None, h')) \<and>
     sbuffer_insert h' 1 7 = Inr None"
  using remove_from_empty_keeps_lock [OF demo_buf_empty_repr] by blast

text \<open>Releasing the buffer releases the struct and every node of the queue and nothing else,
  whatever the state of the lock, and leaves NULL in the caller's pointer.\<close>

theorem sbuffer_free_exact:
  assumes "squeue h b lk ns"
  shows "\<exists>h'. sbuffer_free h b = Inr (SBUFFER_SUCCESS, 0, h') \<and>
     (\<forall>a \<in> insert b (fst ` set ns). cells h' a = None) \<and>
     (\<forall>a. a \<notin> insert b (fst ` set ns) \<longrightarrow> cells h' a = cells h a)"
  using sbuffer_free_squeue [OF assms] unfolding frame_def by blast

lemma sbuffer_free_exact_witness:
  "\<exists>h'. sbuffer_free (demo_buf unlocked) 1 = Inr (SBUFFER_SUCCESS, 0, h') \<and> (\<forall>a \<in> {1, 2, 3}. cells h' a = None)"
  using sbuffer_free_exact [OF demo_buf_squeue, of unlocked] by auto

text \<open>The error paths: creation without memory reports \<open>SBUFFER_FAILURE\<close>; an insertion
  without memory ends the process in the \<open>assert\<close>, so that its \<open>SBUFFER_FAILURE\<close> is never
  returned; and the tests for a NULL buffer come after its lock has been dereferenced.\<close>

theorem sbuffer_error_paths:
  assumes "budget h = 0" and "buf_repr b h unlocked q"
  shows "sbuffer_init h = Inr (SBUFFER_FAILURE, 0, h) \<and> sbuffer_insert h b d = Inl AssertFail \<and>
     sbuffer_insert h 0 d = Inl NullDeref \<and> sbuffer_get_data h 0 = Inl NullDeref \<and>
     sbuffer_remove h 0 True = Inl NullDeref"
proof -
  obtain h1 where h1: "pthread_rwlock_wrlock h b = Inr (Some h1)" "buf_repr b h1 wlocked q"
      "budget h1 = budget h"
    using sbq.wr_granted [OF assms(2)] by blast
  then have "insert_locked h1 b d = Inl AssertFail" using sbq.enq_full [OF h1(2)] assms(1) by simp
  then show ?thesis using h1(1) sbuffer_init_no_memory [OF assms(1)]
    by (simp add: sbuffer_insert_def sbuffer_get_data_def sbuffer_remove_def locked_def
        pthread_rwlock_wrlock_def pthread_rwlock_rdlock_def)
qed

lemma demo_buf_full: "buf_repr 1 ((demo_buf unlocked)\<lparr>budget := 0\<rparr>) unlocked [20, 30]"
  using buf_reprI [of "(demo_buf unlocked)\<lparr>budget := 0\<rparr>" 1 unlocked "[(2, 20), (3, 30)]"]
  by (simp add: squeue_def demo_buf_def heap_ok_def buf_struct_def)

lemma sbuffer_error_paths_witness:
  "sbuffer_insert ((demo_buf unlocked)\<lparr>budget := 0\<rparr>) 1 5 = Inl AssertFail"
  using sbuffer_error_paths [OF _ demo_buf_full] by simp

end
