(* ===== verification/Threads.thy ===== *)
theory Threads
  imports Sbuffer_Contract
begin

text \<open>
  The three threads of the gateway at the shared buffer: the connection manager inserts, the
  data manager and the storage manager each read the head, process it, meet at
  \<open>loop_barrier\<close>, one of them removes the head, and they meet again at
  \<open>prep_barrier\<close>. A step is one lock call, one piece of code under the lock, one test of
  a loop condition, one meeting at a barrier or one write of the flag
  \<open>thread_result_connmgr\<close>; which thread moves next is not determined. The data items
  are a parameter.
\<close>

section \<open>State\<close>

datatype mgr = DataMgr | StorageMgr

text \<open>The two managers in the order of their thread numbers in main.h.\<close>

instantiation mgr :: linorder
begin

definition less_eq_mgr :: "mgr \<Rightarrow> mgr \<Rightarrow> bool" where
  "less_eq_mgr x y \<longleftrightarrow> x = DataMgr \<or> y = StorageMgr"

definition less_mgr :: "mgr \<Rightarrow> mgr \<Rightarrow> bool" where
  "less_mgr x y \<longleftrightarrow> x = DataMgr \<and> y = StorageMgr"

instance
proof
  fix x y z :: mgr
  show "(x < y) = (x \<le> y \<and> \<not> y \<le> x)"
    by (cases x; cases y) (simp_all add: less_eq_mgr_def less_mgr_def)
  show "x \<le> x" by (cases x) (simp_all add: less_eq_mgr_def)
  show "x \<le> y \<Longrightarrow> y \<le> z \<Longrightarrow> x \<le> z"
    by (cases x; cases y; cases z) (simp_all add: less_eq_mgr_def)
  show "x \<le> y \<Longrightarrow> y \<le> x \<Longrightarrow> x = y"
    by (cases x; cases y) (simp_all add: less_eq_mgr_def)
  show "x \<le> y \<or> y \<le> x"
    by (cases x; cases y) (simp_all add: less_eq_mgr_def)
qed

end

fun other :: "mgr \<Rightarrow> mgr" where
  "other DataMgr = StorageMgr"
| "other StorageMgr = DataMgr"

text \<open>
  Where a manager is in its loop: before the loop (the storage manager connects to the
  database), at the loop condition, at the call of \<open>sbuffer_get_data\<close>, inside it with the
  read lock, at the unlock that follows \<open>SBUFFER_NO_DATA\<close>, processing the data it has
  read, waiting at \<open>loop_barrier\<close>, chosen by it and at the write lock, under the write
  lock, waiting at \<open>prep_barrier\<close>, out of the loop.
\<close>

datatype rpc =
    RStart | RCheck | RGet | RRead | RUnlock | RProc
  | RArrive | RWrite | RErase | RPrep | RDone

record 'd reader =
  rpc :: rpc
  result :: int
  buffer_data :: "'d option"
  processed :: "'d list"

text \<open>
  Where the connection manager is: at its loop condition, in the loop body, inside
  \<open>sbuffer_insert\<close> with the write lock, out of the loop, ended.
\<close>

datatype 'd cpc = CCheck | CBody | CIns 'd | CRet | CDone

text \<open>
  \<open>inserted\<close>, \<open>removed\<close> and the readers' \<open>processed\<close> are histories: no
  step depends on them.
\<close>

record 'd gw =
  gw_heap :: "'d sheap"
  gw_buf :: addr
  thread_result_connmgr :: int
  gw_cpc :: "'d cpc"
  gw_rd :: "mgr \<Rightarrow> 'd reader"
  db_lost :: bool
  inserted :: "'d list"
  removed :: "'d list"
  gw_fault :: "cfault option"

definition THREAD_RUNNING :: int where "THREAD_RUNNING = 1"
definition THREAD_ENDED :: int where "THREAD_ENDED = 0"

section \<open>Steps\<close>

definition set_pc :: "mgr \<Rightarrow> rpc \<Rightarrow> 'd gw \<Rightarrow> 'd gw" where
  "set_pc m p g = g\<lparr>gw_rd := (gw_rd g)(m := (gw_rd g m)\<lparr>rpc := p\<rparr>)\<rparr>"

definition set_reader :: "mgr \<Rightarrow> ('d reader \<Rightarrow> 'd reader) \<Rightarrow> 'd gw \<Rightarrow> 'd gw" where
  "set_reader m f g = g\<lparr>gw_rd := (gw_rd g)(m := f (gw_rd g m))\<rparr>"

abbreviation pc_of :: "'d gw \<Rightarrow> mgr \<Rightarrow> rpc" where
  "pc_of g m \<equiv> rpc (gw_rd g m)"

text \<open>The managers' loop condition.\<close>

definition goes_on :: "'d gw \<Rightarrow> mgr \<Rightarrow> bool" where
  "goes_on g m \<longleftrightarrow> thread_result_connmgr g \<noteq> 0 \<or> result (gw_rd g m) \<noteq> SBUFFER_NO_DATA"

text \<open>One step of a manager on its own.\<close>

inductive mgr_step :: "mgr \<Rightarrow> 'd gw \<Rightarrow> 'd gw \<Rightarrow> bool" for m where
  db_connected:
    "pc_of g m = RStart \<Longrightarrow> mgr_step m g (set_pc m RCheck g)"
| db_failed:
    "pc_of g m = RStart \<Longrightarrow>
     mgr_step m g (set_pc m RCheck (g\<lparr>thread_result_connmgr := THREAD_ENDED, db_lost := True\<rparr>))"
| loop_go:
    "pc_of g m = RCheck \<Longrightarrow> goes_on g m \<Longrightarrow> mgr_step m g (set_pc m RGet g)"
| loop_end:
    "pc_of g m = RCheck \<Longrightarrow> \<not> goes_on g m \<Longrightarrow> mgr_step m g (set_pc m RDone g)"
| get_lock:
    "pc_of g m = RGet \<Longrightarrow> pthread_rwlock_rdlock (gw_heap g) (gw_buf g) = Inr (Some h) \<Longrightarrow>
     mgr_step m g (set_pc m RRead (g\<lparr>gw_heap := h\<rparr>))"
| get_data:
    "pc_of g m = RRead \<Longrightarrow> get_locked (gw_heap g) (gw_buf g) = Inr (c, Some d, h) \<Longrightarrow>
     mgr_step m g (set_reader m (\<lambda>r. r\<lparr>rpc := RProc, result := c, buffer_data := Some d\<rparr>)
       (g\<lparr>gw_heap := h\<rparr>))"
| get_none:
    "pc_of g m = RRead \<Longrightarrow> get_locked (gw_heap g) (gw_buf g) = Inr (c, None, h) \<Longrightarrow>
     mgr_step m g (set_reader m (\<lambda>r. r\<lparr>rpc := RUnlock, result := c\<rparr>) (g\<lparr>gw_heap := h\<rparr>))"
| none_unlock:
    "pc_of g m = RUnlock \<Longrightarrow> pthread_rwlock_unlock (gw_heap g) (gw_buf g) = Inr h \<Longrightarrow>
     mgr_step m g (set_pc m RCheck (g\<lparr>gw_heap := h\<rparr>))"
| process:
    "pc_of g m = RProc \<Longrightarrow> buffer_data (gw_rd g m) = Some d \<Longrightarrow>
     mgr_step m g (set_reader m (\<lambda>r. r\<lparr>rpc := RArrive, processed := processed r @ [d]\<rparr>) g)"
| serial_lock:
    "pc_of g m = RWrite \<Longrightarrow> pthread_rwlock_wrlock (gw_heap g) (gw_buf g) = Inr (Some h) \<Longrightarrow>
     mgr_step m g (set_pc m RErase (g\<lparr>gw_heap := h\<rparr>))"
| erase:
    "pc_of g m = RErase \<Longrightarrow> remove_locked (gw_heap g) (gw_buf g) = Inr (c, Some d, h) \<Longrightarrow>
     mgr_step m g (set_reader m (\<lambda>r. r\<lparr>rpc := RPrep, buffer_data := Some d\<rparr>)
       (g\<lparr>gw_heap := h, removed := removed g @ [d]\<rparr>))"
| erase_none:
    "pc_of g m = RErase \<Longrightarrow> remove_locked (gw_heap g) (gw_buf g) = Inr (c, None, h) \<Longrightarrow>
     mgr_step m g (set_pc m RPrep (g\<lparr>gw_heap := h\<rparr>))"

text \<open>The two barriers: both managers have arrived, and for the first one is chosen.\<close>

inductive barrier_step :: "'d gw \<Rightarrow> 'd gw \<Rightarrow> bool" where
  loop_barrier:
    "pc_of g m = RArrive \<Longrightarrow> pc_of g (other m) = RArrive \<Longrightarrow>
     barrier_step g (set_pc m RWrite (set_pc (other m) RPrep g))"
| prep_barrier:
    "pc_of g DataMgr = RPrep \<Longrightarrow> pc_of g StorageMgr = RPrep \<Longrightarrow>
     barrier_step g (set_pc DataMgr RCheck (set_pc StorageMgr RCheck g))"

text \<open>The connection manager: any number of insertions in each round of its loop.\<close>

inductive conn_step :: "'d gw \<Rightarrow> 'd gw \<Rightarrow> bool" where
  round:
    "gw_cpc g = CCheck \<Longrightarrow> thread_result_connmgr g \<noteq> 0 \<Longrightarrow> conn_step g (g\<lparr>gw_cpc := CBody\<rparr>)"
| stopped:
    "gw_cpc g = CCheck \<Longrightarrow> thread_result_connmgr g = 0 \<Longrightarrow> conn_step g (g\<lparr>gw_cpc := CRet\<rparr>)"
| insert_lock:
    "gw_cpc g = CBody \<Longrightarrow> pthread_rwlock_wrlock (gw_heap g) (gw_buf g) = Inr (Some h) \<Longrightarrow>
     conn_step g (g\<lparr>gw_heap := h, gw_cpc := CIns d\<rparr>)"
| insert_data:
    "gw_cpc g = CIns d \<Longrightarrow> insert_locked (gw_heap g) (gw_buf g) d = Inr (c, h) \<Longrightarrow>
     conn_step g (g\<lparr>gw_heap := h, gw_cpc := CBody, inserted := inserted g @ [d]\<rparr>)"
| round_end:
    "gw_cpc g = CBody \<Longrightarrow> conn_step g (g\<lparr>gw_cpc := CCheck\<rparr>)"
| no_client:
    "gw_cpc g = CBody \<Longrightarrow> conn_step g (g\<lparr>gw_cpc := CRet\<rparr>)"
| ended:
    "gw_cpc g = CRet \<Longrightarrow>
     conn_step g (g\<lparr>gw_cpc := CDone, thread_result_connmgr := THREAD_ENDED\<rparr>)"

text \<open>A call that goes wrong takes the whole process down.\<close>

inductive fault_step :: "'d gw \<Rightarrow> 'd gw \<Rightarrow> bool" where
  "pc_of g m = RGet \<Longrightarrow> pthread_rwlock_rdlock (gw_heap g) (gw_buf g) = Inl e \<Longrightarrow>
     fault_step g (g\<lparr>gw_fault := Some e\<rparr>)"
| "pc_of g m = RRead \<Longrightarrow> get_locked (gw_heap g) (gw_buf g) = Inl e \<Longrightarrow>
     fault_step g (g\<lparr>gw_fault := Some e\<rparr>)"
| "pc_of g m = RUnlock \<Longrightarrow> pthread_rwlock_unlock (gw_heap g) (gw_buf g) = Inl e \<Longrightarrow>
     fault_step g (g\<lparr>gw_fault := Some e\<rparr>)"
| "pc_of g m = RWrite \<Longrightarrow> pthread_rwlock_wrlock (gw_heap g) (gw_buf g) = Inl e \<Longrightarrow>
     fault_step g (g\<lparr>gw_fault := Some e\<rparr>)"
| "pc_of g m = RErase \<Longrightarrow> remove_locked (gw_heap g) (gw_buf g) = Inl e \<Longrightarrow>
     fault_step g (g\<lparr>gw_fault := Some e\<rparr>)"
| "gw_cpc g = CBody \<Longrightarrow> pthread_rwlock_wrlock (gw_heap g) (gw_buf g) = Inl e \<Longrightarrow>
     fault_step g (g\<lparr>gw_fault := Some e\<rparr>)"
| "gw_cpc g = CIns d \<Longrightarrow> insert_locked (gw_heap g) (gw_buf g) d = Inl e \<Longrightarrow>
     fault_step g (g\<lparr>gw_fault := Some e\<rparr>)"

definition gw_step :: "'d gw \<Rightarrow> 'd gw \<Rightarrow> bool" where
  "gw_step g g' \<longleftrightarrow> gw_fault g = None \<and>
     ((\<exists>m. mgr_step m g g') \<or> barrier_step g g' \<or> conn_step g g' \<or> fault_step g g')"

section \<open>Runs\<close>

definition start_reader :: "rpc \<Rightarrow> 'd reader" where
  "start_reader p = \<lparr>rpc = p, result = 0, buffer_data = None, processed = []\<rparr>"

text \<open>
  The threads start on a buffer that \<open>sbuffer_init\<close> has made, the storage manager with
  its connection to the database still to be made.
\<close>

definition gw_init :: "'d sheap \<Rightarrow> addr \<Rightarrow> 'd gw" where
  "gw_init h b =
     \<lparr>gw_heap = h, gw_buf = b, thread_result_connmgr = THREAD_RUNNING, gw_cpc = CCheck,
      gw_rd = (\<lambda>m. start_reader (case m of DataMgr \<Rightarrow> RCheck | StorageMgr \<Rightarrow> RStart)),
      db_lost = False, inserted = [], removed = [], gw_fault = None\<rparr>"

inductive gw_reach :: "nat \<Rightarrow> 'd gw \<Rightarrow> bool" for n where
  reach_init:
    "sbuffer_init (empty_heap n) = Inr (SBUFFER_SUCCESS, b, h) \<Longrightarrow> gw_reach n (gw_init h b)"
| reach_step: "gw_reach n g \<Longrightarrow> gw_step g g' \<Longrightarrow> gw_reach n g'"

inductive_cases barrier_stepE: "barrier_step g g'"
inductive_cases conn_stepE: "conn_step g g'"
inductive_cases fault_stepE: "fault_step g g'"
inductive_cases mgr_stepE: "mgr_step m g g'"

section \<open>Schedules\<close>

text \<open>
  A schedule names the thread that moves next and resolves the choices that the code leaves
  open; running one is executable. An action that is not enabled, or that goes wrong, is
  \<open>None\<close>.
\<close>

datatype 'd action =
    Move mgr | DbFails | LoopBarrier mgr | PrepBarrier
  | Round | InsertLock 'd | InsertData | RoundEnd | NoClient

definition mgr_exec :: "mgr \<Rightarrow> 'd gw \<Rightarrow> 'd gw option" where
  "mgr_exec m g =
     (case pc_of g m of
        RStart \<Rightarrow> Some (set_pc m RCheck g)
      | RCheck \<Rightarrow> Some (if goes_on g m then set_pc m RGet g else set_pc m RDone g)
      | RGet \<Rightarrow> (case pthread_rwlock_rdlock (gw_heap g) (gw_buf g) of
            Inr (Some h) \<Rightarrow> Some (set_pc m RRead (g\<lparr>gw_heap := h\<rparr>)) | _ \<Rightarrow> None)
      | RRead \<Rightarrow> (case get_locked (gw_heap g) (gw_buf g) of
            Inr (c, Some d, h) \<Rightarrow>
              Some (set_reader m (\<lambda>r. r\<lparr>rpc := RProc, result := c, buffer_data := Some d\<rparr>)
                (g\<lparr>gw_heap := h\<rparr>))
          | Inr (c, None, h) \<Rightarrow>
              Some (set_reader m (\<lambda>r. r\<lparr>rpc := RUnlock, result := c\<rparr>) (g\<lparr>gw_heap := h\<rparr>))
          | Inl e \<Rightarrow> None)
      | RUnlock \<Rightarrow> (case pthread_rwlock_unlock (gw_heap g) (gw_buf g) of
            Inr h \<Rightarrow> Some (set_pc m RCheck (g\<lparr>gw_heap := h\<rparr>)) | Inl e \<Rightarrow> None)
      | RProc \<Rightarrow> (case buffer_data (gw_rd g m) of
            Some d \<Rightarrow> Some (set_reader m (\<lambda>r. r\<lparr>rpc := RArrive, processed := processed r @ [d]\<rparr>) g)
          | None \<Rightarrow> None)
      | RWrite \<Rightarrow> (case pthread_rwlock_wrlock (gw_heap g) (gw_buf g) of
            Inr (Some h) \<Rightarrow> Some (set_pc m RErase (g\<lparr>gw_heap := h\<rparr>)) | _ \<Rightarrow> None)
      | RErase \<Rightarrow> (case remove_locked (gw_heap g) (gw_buf g) of
            Inr (c, Some d, h) \<Rightarrow>
              Some (set_reader m (\<lambda>r. r\<lparr>rpc := RPrep, buffer_data := Some d\<rparr>)
                (g\<lparr>gw_heap := h, removed := removed g @ [d]\<rparr>))
          | Inr (c, None, h) \<Rightarrow> Some (set_pc m RPrep (g\<lparr>gw_heap := h\<rparr>))
          | Inl e \<Rightarrow> None)
      | _ \<Rightarrow> None)"

fun exec :: "'d action \<Rightarrow> 'd gw \<Rightarrow> 'd gw option" where
  "exec (Move m) g = mgr_exec m g"
| "exec DbFails g =
     (if pc_of g StorageMgr = RStart
      then Some (set_pc StorageMgr RCheck (g\<lparr>thread_result_connmgr := THREAD_ENDED, db_lost := True\<rparr>))
      else None)"
| "exec (LoopBarrier m) g =
     (if pc_of g m = RArrive \<and> pc_of g (other m) = RArrive
      then Some (set_pc m RWrite (set_pc (other m) RPrep g)) else None)"
| "exec PrepBarrier g =
     (if pc_of g DataMgr = RPrep \<and> pc_of g StorageMgr = RPrep
      then Some (set_pc DataMgr RCheck (set_pc StorageMgr RCheck g)) else None)"
| "exec Round g =
     (case gw_cpc g of
        CCheck \<Rightarrow> Some (if thread_result_connmgr g \<noteq> 0 then g\<lparr>gw_cpc := CBody\<rparr> else g\<lparr>gw_cpc := CRet\<rparr>)
      | CRet \<Rightarrow> Some (g\<lparr>gw_cpc := CDone, thread_result_connmgr := THREAD_ENDED\<rparr>)
      | _ \<Rightarrow> None)"
| "exec (InsertLock d) g =
     (case gw_cpc g of
        CBody \<Rightarrow> (case pthread_rwlock_wrlock (gw_heap g) (gw_buf g) of
            Inr (Some h) \<Rightarrow> Some (g\<lparr>gw_heap := h, gw_cpc := CIns d\<rparr>) | _ \<Rightarrow> None)
      | _ \<Rightarrow> None)"
| "exec InsertData g =
     (case gw_cpc g of
        CIns d \<Rightarrow> (case insert_locked (gw_heap g) (gw_buf g) d of
            Inr (c, h) \<Rightarrow> Some (g\<lparr>gw_heap := h, gw_cpc := CBody, inserted := inserted g @ [d]\<rparr>)
          | Inl e \<Rightarrow> None)
      | _ \<Rightarrow> None)"
| "exec RoundEnd g =
     (case gw_cpc g of CBody \<Rightarrow> Some (g\<lparr>gw_cpc := CCheck\<rparr>) | _ \<Rightarrow> None)"
| "exec NoClient g =
     (case gw_cpc g of CBody \<Rightarrow> Some (g\<lparr>gw_cpc := CRet\<rparr>) | _ \<Rightarrow> None)"

fun exec_run :: "'d action list \<Rightarrow> 'd gw \<Rightarrow> 'd gw option" where
  "exec_run [] g = Some g"
| "exec_run (a # as) g = (case exec a g of None \<Rightarrow> None | Some g' \<Rightarrow> exec_run as g')"

text \<open>The gateway from its start, with room for \<open>n\<close> allocations.\<close>

definition gateway_run :: "nat \<Rightarrow> 'd action list \<Rightarrow> 'd gw option" where
  "gateway_run n as =
     (case sbuffer_init (empty_heap n) of
        Inr (c, b, h) \<Rightarrow> if c = SBUFFER_SUCCESS then exec_run as (gw_init h b) else None
      | Inl e \<Rightarrow> None)"

lemma mgr_exec_sound: "mgr_exec m g = Some g' \<Longrightarrow> mgr_step m g g'"
  unfolding mgr_exec_def
  by (cases "pc_of g m")
    (auto split: sum.splits option.splits prod.splits if_splits intro: mgr_step.intros)

lemma exec_sound: "exec a g = Some g' \<Longrightarrow> gw_fault g = None \<Longrightarrow> gw_step g g'"
proof (cases a)
  case DbFails
  then show "exec a g = Some g' \<Longrightarrow> gw_fault g = None \<Longrightarrow> gw_step g g'"
    using mgr_step.db_failed [of g StorageMgr] by (auto simp: gw_step_def split: if_splits)
qed (auto simp: gw_step_def split: if_splits cpc.splits sum.splits option.splits prod.splits
      intro: mgr_exec_sound barrier_step.intros conn_step.intros)

lemma mgr_exec_fault: "mgr_exec m g = Some g' \<Longrightarrow> gw_fault g' = gw_fault g"
  unfolding mgr_exec_def
  by (cases "pc_of g m")
    (auto simp: set_pc_def set_reader_def split: sum.splits option.splits prod.splits if_splits)

lemma exec_fault: "exec a g = Some g' \<Longrightarrow> gw_fault g' = gw_fault g"
  by (cases a) (auto simp: set_pc_def mgr_exec_fault
      split: if_splits cpc.splits sum.splits option.splits prod.splits)

lemma exec_run_reach:
  "exec_run as g = Some g' \<Longrightarrow> gw_reach n g \<Longrightarrow> gw_fault g = None \<Longrightarrow>
     gw_reach n g' \<and> gw_fault g' = None"
proof (induction as arbitrary: g)
  case (Cons a as)
  then obtain g1 where g1: "exec a g = Some g1" "exec_run as g1 = Some g'"
    by (auto split: option.splits)
  have "gw_reach n g1" using Cons.prems exec_sound [OF g1(1)] by (blast intro: reach_step)
  then show ?case using Cons.IH [OF g1(2)] exec_fault [OF g1(1)] Cons.prems by simp
qed simp

lemma gateway_run_reach:
  assumes "gateway_run n as = Some g"
  shows "gw_reach n g" and "gw_fault g = None"
proof -
  obtain b h where i: "sbuffer_init (empty_heap n) = Inr (SBUFFER_SUCCESS, b, h)"
    and r: "exec_run as (gw_init h b) = Some g"
    using assms by (auto simp: gateway_run_def split: sum.splits if_splits prod.splits)
  have "gw_fault (gw_init h b) = None" by (simp add: gw_init_def)
  then show "gw_reach n g" and "gw_fault g = None"
    using exec_run_reach [OF r reach_init [OF i]] by simp_all
qed

end
