(* ===== verification/Threads_Safety.thy ===== *)
theory Threads_Safety
  imports Threads
begin

text \<open>
  The safety of the two barriers. One invariant says how the histories, the buffer, the lock
  and the positions of the threads fit together: what was inserted is what was removed
  followed by what is in the buffer; a manager has processed exactly what was removed, and
  the head of the buffer besides while it is between the two barriers; the lock is held by
  those who are inside a locked piece of code. Every step keeps it.
\<close>

section \<open>The invariant\<close>

definition writers :: "'d gw \<Rightarrow> nat" where
  "writers g = (case gw_cpc g of CIns _ \<Rightarrow> 1 | _ \<Rightarrow> 0)
     + (if pc_of g DataMgr = RErase then 1 else 0)
     + (if pc_of g StorageMgr = RErase then 1 else 0)"

definition has_read_lock :: "rpc \<Rightarrow> bool" where
  "has_read_lock p \<longleftrightarrow> p = RRead \<or> p = RUnlock"

definition read_holders :: "'d gw \<Rightarrow> nat" where
  "read_holders g = (if has_read_lock (pc_of g DataMgr) then 1 else 0)
     + (if has_read_lock (pc_of g StorageMgr) then 1 else 0)"

text \<open>The lock's state is determined by who is where, and a writer is alone.\<close>

definition lock_inv :: "'d gw \<Rightarrow> rwlock \<Rightarrow> bool" where
  "lock_inv g lk \<longleftrightarrow>
     (writers g = 0 \<and> lk = rlocked (read_holders g) \<or>
      writers g = 1 \<and> read_holders g = 0 \<and> lk = wlocked)"

text \<open>
  What a manager has processed, as a function of where it and the other one are;
  \<open>q\<close> is the content of the buffer.
\<close>

definition ahead :: "'d gw \<Rightarrow> 'd list \<Rightarrow> mgr \<Rightarrow> bool" where
  "ahead g q m \<longleftrightarrow> q \<noteq> [] \<and> processed (gw_rd g m) = removed g @ [hd q]"

definition level :: "'d gw \<Rightarrow> mgr \<Rightarrow> bool" where
  "level g m \<longleftrightarrow> processed (gw_rd g m) = removed g"

definition mgr_inv :: "'d gw \<Rightarrow> 'd list \<Rightarrow> mgr \<Rightarrow> bool" where
  "mgr_inv g q m =
     (case pc_of g m of
        RProc \<Rightarrow> level g m \<and> q \<noteq> [] \<and> buffer_data (gw_rd g m) = Some (hd q)
      | RArrive \<Rightarrow> ahead g q m
      | RWrite \<Rightarrow> ahead g q m \<and> pc_of g (other m) = RPrep
      | RErase \<Rightarrow> ahead g q m \<and> pc_of g (other m) = RPrep
      | RPrep \<Rightarrow> (case pc_of g (other m) of
            RWrite \<Rightarrow> ahead g q m | RErase \<Rightarrow> ahead g q m | RPrep \<Rightarrow> level g m | _ \<Rightarrow> False)
      | RUnlock \<Rightarrow> level g m \<and> result (gw_rd g m) = SBUFFER_NO_DATA
      | RDone \<Rightarrow> level g m \<and> result (gw_rd g m) = SBUFFER_NO_DATA
      | _ \<Rightarrow> level g m)"

definition buffer_inv :: "'d gw \<Rightarrow> 'd list \<Rightarrow> bool" where
  "buffer_inv g q \<longleftrightarrow>
     (\<exists>lk. buf_only (gw_buf g) (gw_heap g) lk q \<and> lock_inv g lk) \<and>
     inserted g = removed g @ q \<and> mgr_inv g q DataMgr \<and> mgr_inv g q StorageMgr"

text \<open>The flag is cleared at the latest when the connection manager has ended.\<close>

definition flag_inv :: "'d gw \<Rightarrow> bool" where
  "flag_inv g \<longleftrightarrow>
     thread_result_connmgr g \<in> {THREAD_RUNNING, THREAD_ENDED} \<and>
     (gw_cpc g = CDone \<longrightarrow> thread_result_connmgr g = THREAD_ENDED) \<and>
     (\<forall>m. pc_of g m = RDone \<longrightarrow> thread_result_connmgr g = THREAD_ENDED)"

lemmas inv_defs = mgr_inv_def level_def ahead_def

section \<open>Reads of an updated state\<close>

lemma other_other [simp]: "other (other m) = m"
  by (cases m) simp_all

lemma other_neq [simp]: "other m \<noteq> m" "m \<noteq> other m"
  by (cases m; simp)+

lemma mgr_cases: "P DataMgr \<Longrightarrow> P StorageMgr \<Longrightarrow> P m"
  by (cases m) simp_all

lemma mgr_both: "P DataMgr \<and> P StorageMgr \<longleftrightarrow> P m \<and> P (other m)"
  by (cases m) auto

lemma set_pc_simps [simp]:
  "gw_heap (set_pc m p g) = gw_heap g" "gw_buf (set_pc m p g) = gw_buf g"
  "gw_cpc (set_pc m p g) = gw_cpc g" "inserted (set_pc m p g) = inserted g"
  "removed (set_pc m p g) = removed g" "gw_fault (set_pc m p g) = gw_fault g"
  "thread_result_connmgr (set_pc m p g) = thread_result_connmgr g"
  "gw_rd (set_pc m p g) = (gw_rd g)(m := (gw_rd g m)\<lparr>rpc := p\<rparr>)"
  by (simp_all add: set_pc_def)

lemma set_reader_simps [simp]:
  "gw_heap (set_reader m f g) = gw_heap g" "gw_buf (set_reader m f g) = gw_buf g"
  "gw_cpc (set_reader m f g) = gw_cpc g" "inserted (set_reader m f g) = inserted g"
  "removed (set_reader m f g) = removed g" "gw_fault (set_reader m f g) = gw_fault g"
  "thread_result_connmgr (set_reader m f g) = thread_result_connmgr g"
  "gw_rd (set_reader m f g) = (gw_rd g)(m := f (gw_rd g m))"
  by (simp_all add: set_reader_def)

text \<open>The counts, seen from either manager.\<close>

lemma writers_mgr:
  "writers g = (case gw_cpc g of CIns _ \<Rightarrow> 1 | _ \<Rightarrow> 0)
     + (if pc_of g m = RErase then 1 else 0) + (if pc_of g (other m) = RErase then 1 else 0)"
  by (cases m) (simp_all add: writers_def)

lemma read_holders_mgr:
  "read_holders g = (if has_read_lock (pc_of g m) then 1 else 0)
     + (if has_read_lock (pc_of g (other m)) then 1 else 0)"
  by (cases m) (simp_all add: read_holders_def)

lemma buffer_invI:
  assumes "buf_only (gw_buf g) (gw_heap g) lk q" "lock_inv g lk"
    and "inserted g = removed g @ q" and "mgr_inv g q m" "mgr_inv g q (other m)"
  shows "buffer_inv g q"
  using assms mgr_both [of "mgr_inv g q" m] unfolding buffer_inv_def by blast

lemma buffer_invD:
  assumes "buffer_inv g q"
  obtains lk where "buf_only (gw_buf g) (gw_heap g) lk q" "lock_inv g lk"
    "inserted g = removed g @ q" "mgr_inv g q m" "mgr_inv g q (other m)"
  using assms mgr_both [of "mgr_inv g q" m] unfolding buffer_inv_def by blast

lemma buf_only_lock_unique: "buf_only b h lk q \<Longrightarrow> buf_only b h lk' q' \<Longrightarrow> lk = lk'"
  by (auto simp: buf_within_def squeue_def buf_struct_def)

section \<open>What a lock call or a locked operation says about the state\<close>

lemma granted_read:
  assumes "buf_only b h0 lk q" "lock_inv g lk" "pthread_rwlock_rdlock h0 b = Inr (Some h)"
  shows "writers g = 0 \<and> buf_only b h (rlocked (Suc (read_holders g))) q \<and> budget h = budget h0"
proof (cases "writers g = 0")
  case True
  then have "buf_only b h0 (rlocked (read_holders g)) q" using assms(1,2) by (auto simp: lock_inv_def)
  from sbo.rd_granted [OF this] show ?thesis using assms(3) True by auto
next
  case False
  then have "buf_only b h0 wlocked q" using assms(1,2) by (auto simp: lock_inv_def)
  from sbo.rd_waits [OF this] show ?thesis using assms(3) by simp
qed

lemma granted_write:
  assumes "buf_only b h0 lk q" "lock_inv g lk" "pthread_rwlock_wrlock h0 b = Inr (Some h)"
  shows "writers g = 0 \<and> read_holders g = 0 \<and> buf_only b h wlocked q \<and> budget h = budget h0"
proof (cases "writers g = 0")
  case True
  then have rep: "buf_only b h0 (rlocked (read_holders g)) q" using assms(1,2) by (auto simp: lock_inv_def)
  show ?thesis
  proof (cases "read_holders g")
    case 0
    then have "buf_only b h0 unlocked q" using rep by (simp add: rlocked_0)
    from sbo.wr_granted [OF this] show ?thesis using assms(3) True 0 by auto
  next
    case (Suc n)
    then have "buf_only b h0 (rlocked (Suc n)) q" using rep by simp
    from sbo.wr_waits_reader [OF this] show ?thesis using assms(3) by simp
  qed
next
  case False
  then have "buf_only b h0 wlocked q" using assms(1,2) by (auto simp: lock_inv_def)
  from sbo.wr_waits_writer [OF this] show ?thesis using assms(3) by simp
qed

lemma got_data:
  assumes "buf_only b h0 lk q" "get_locked h0 b = Inr (c, Some d, h)"
  shows "q \<noteq> [] \<and> hd q = d \<and> c = SBUFFER_SUCCESS \<and> buf_only b h (unlock_rw lk) q \<and> budget h = budget h0"
proof (cases q)
  case Nil
  then show ?thesis using sbo.peek_empty [of "{}" b h0 lk] assms by simp
next
  case (Cons x q')
  then show ?thesis using sbo.peek_data [of "{}" b h0 lk x q'] assms by auto
qed

lemma got_none:
  assumes "buf_only b h0 lk q" "get_locked h0 b = Inr (c, None, h)"
  shows "q = [] \<and> c = SBUFFER_NO_DATA \<and> h = h0"
proof (cases q)
  case Nil
  then show ?thesis using sbo.peek_empty [of "{}" b h0 lk] assms by simp
next
  case (Cons x q')
  then show ?thesis using sbo.peek_data [of "{}" b h0 lk x q'] assms by auto
qed

lemma erased_data:
  assumes "buf_only b h0 lk q" "remove_locked h0 b = Inr (c, Some d, h)"
  shows "q \<noteq> [] \<and> hd q = d \<and> buf_only b h (unlock_rw lk) (tl q) \<and> budget h = budget h0"
proof (cases q)
  case Nil
  then show ?thesis using sbo.deq_empty [of "{}" b h0 lk] assms by simp
next
  case (Cons x q')
  then show ?thesis using sbo.deq_data [of "{}" b h0 lk x q'] assms by auto
qed

lemma erased_none:
  assumes "buf_only b h0 lk q" "remove_locked h0 b = Inr (c, None, h)"
  shows "q = []"
proof (cases q)
  case (Cons x q')
  then show ?thesis using sbo.deq_data [of "{}" b h0 lk x q'] assms by auto
qed

lemma inserted_data:
  assumes "buf_only b h0 lk q" "insert_locked h0 b d = Inr (c, h)"
  shows "buf_only b h (unlock_rw lk) (q @ [d]) \<and> Suc (budget h) = budget h0"
proof (cases "budget h0")
  case 0
  then show ?thesis using sbo.enq_full [OF assms(1)] assms(2) by simp
next
  case (Suc n)
  then show ?thesis using sbo.enq_ok [OF assms(1), of d] assms(2) by auto
qed

lemma unlocked_ok:
  assumes "buf_only b h0 lk q" "pthread_rwlock_unlock h0 b = Inr h"
  shows "buf_only b h (unlock_rw lk) q \<and> budget h = budget h0"
  using sbo.unl_ok [OF assms(1)] assms(2) by auto

text \<open>Inside a locked piece of code the lock is in the matching state.\<close>

lemma lock_of_reader:
  "lock_inv g lk \<Longrightarrow> has_read_lock (pc_of g m) \<Longrightarrow> writers g = 0 \<and> lk = rlocked (read_holders g)"
  by (cases m) (auto simp: lock_inv_def read_holders_def)

lemma lock_of_eraser:
  "lock_inv g lk \<Longrightarrow> pc_of g m = RErase \<Longrightarrow> writers g = 1 \<and> read_holders g = 0 \<and> lk = wlocked"
  by (cases m) (auto simp: lock_inv_def writers_def)

lemma lock_of_inserter:
  "lock_inv g lk \<Longrightarrow> gw_cpc g = CIns d \<Longrightarrow> writers g = 1 \<and> read_holders g = 0 \<and> lk = wlocked"
  by (auto simp: lock_inv_def writers_def)

section \<open>Every step keeps the invariant\<close>

lemma mgr_step_buffer_inv:
  assumes st: "mgr_step m g g'" and inv: "buffer_inv g q"
  shows "\<exists>q'. buffer_inv g' q'"
proof -
  obtain lk where rep: "buf_only (gw_buf g) (gw_heap g) lk q" and lock: "lock_inv g lk"
    and hist: "inserted g = removed g @ q" and mi: "mgr_inv g q m" and oi: "mgr_inv g q (other m)"
    using buffer_invD [OF inv] by metis
  note holders = lock_inv_def writers_mgr [where m = m] read_holders_mgr [where m = m] has_read_lock_def
  from st show ?thesis
  proof (cases rule: mgr_step.cases)
    case db_connected
    have "buffer_inv g' q"
      by (rule buffer_invI [where m = m and lk = lk])
        (use db_connected rep lock hist mi oi in
          \<open>auto simp: holders inv_defs split: rpc.splits\<close>)
    then show ?thesis ..
  next
    case db_failed
    have "buffer_inv g' q"
      by (rule buffer_invI [where m = m and lk = lk])
        (use db_failed rep lock hist mi oi in
          \<open>auto simp: holders inv_defs split: rpc.splits\<close>)
    then show ?thesis ..
  next
    case loop_go
    have "buffer_inv g' q"
      by (rule buffer_invI [where m = m and lk = lk])
        (use loop_go rep lock hist mi oi in
          \<open>auto simp: holders inv_defs split: rpc.splits\<close>)
    then show ?thesis ..
  next
    case loop_end
    have "buffer_inv g' q"
      by (rule buffer_invI [where m = m and lk = lk])
        (use loop_end rep lock hist mi oi in
          \<open>auto simp: holders inv_defs goes_on_def split: rpc.splits\<close>)
    then show ?thesis ..
  next
    case (get_lock h)
    note gr = granted_read [OF rep lock get_lock(3)]
    have "buffer_inv g' q"
      by (rule buffer_invI [where m = m and lk = "rlocked (Suc (read_holders g))"])
        (use get_lock gr hist mi oi in \<open>auto simp: holders inv_defs split: rpc.splits\<close>)
    then show ?thesis ..
  next
    case (get_data c d h)
    note gd = got_data [OF rep get_data(3)]
    have lk: "writers g = 0" "lk = rlocked (read_holders g)"
      using lock_of_reader [OF lock, of m] get_data by (auto simp: has_read_lock_def)
    have "buffer_inv g' q"
      by (rule buffer_invI [where m = m and lk = "unlock_rw lk"])
        (use get_data gd lk hist mi oi in \<open>auto simp: holders inv_defs split: rpc.splits\<close>)
    then show ?thesis ..
  next
    case (get_none c h)
    note gn = got_none [OF rep get_none(3)]
    have "buffer_inv g' q"
      by (rule buffer_invI [where m = m and lk = lk])
        (use get_none gn rep lock hist mi oi in \<open>auto simp: holders inv_defs split: rpc.splits\<close>)
    then show ?thesis ..
  next
    case (none_unlock h)
    note un = unlocked_ok [OF rep none_unlock(3)]
    have lk: "writers g = 0" "lk = rlocked (read_holders g)"
      using lock_of_reader [OF lock, of m] none_unlock by (auto simp: has_read_lock_def)
    have "buffer_inv g' q"
      by (rule buffer_invI [where m = m and lk = "unlock_rw lk"])
        (use none_unlock un lk hist mi oi in \<open>auto simp: holders inv_defs split: rpc.splits\<close>)
    then show ?thesis ..
  next
    case (process d)
    have "buffer_inv g' q"
      by (rule buffer_invI [where m = m and lk = lk])
        (use process rep lock hist mi oi in \<open>auto simp: holders inv_defs split: rpc.splits\<close>)
    then show ?thesis ..
  next
    case (serial_lock h)
    note gr = granted_write [OF rep lock serial_lock(3)]
    have "buffer_inv g' q"
      by (rule buffer_invI [where m = m and lk = wlocked])
        (use serial_lock gr hist mi oi in \<open>auto simp: holders inv_defs split: rpc.splits\<close>)
    then show ?thesis ..
  next
    case (erase c d h)
    note er = erased_data [OF rep erase(3)]
    note lk = lock_of_eraser [OF lock erase(2)]
    have "buffer_inv g' (tl q)"
      by (rule buffer_invI [where m = m and lk = unlocked])
        (use erase er lk hist mi oi in
          \<open>auto simp: holders inv_defs rlocked_0 [symmetric] split: rpc.splits\<close>)
    then show ?thesis ..
  next
    case (erase_none c h)
    then show ?thesis using erased_none [OF rep erase_none(3)] mi by (auto simp: inv_defs)
  qed
qed

lemma barrier_step_buffer_inv:
  assumes st: "barrier_step g g'" and inv: "buffer_inv g q"
  shows "buffer_inv g' q"
  using st
proof (cases rule: barrier_step.cases)
  case (loop_barrier m)
  obtain lk where "buf_only (gw_buf g) (gw_heap g) lk q" "lock_inv g lk"
    "inserted g = removed g @ q" "mgr_inv g q m" "mgr_inv g q (other m)"
    using buffer_invD [OF inv] by metis
  then show ?thesis
    by (intro buffer_invI [where m = m and lk = lk])
      (use loop_barrier in \<open>auto simp: lock_inv_def writers_mgr [where m = m]
        read_holders_mgr [where m = m] has_read_lock_def inv_defs\<close>)
next
  case prep_barrier
  obtain lk where "buf_only (gw_buf g) (gw_heap g) lk q" "lock_inv g lk"
    "inserted g = removed g @ q" "mgr_inv g q DataMgr" "mgr_inv g q (other DataMgr)"
    using buffer_invD [OF inv] by metis
  then show ?thesis
    by (intro buffer_invI [where m = DataMgr and lk = lk])
      (use prep_barrier in \<open>auto simp: lock_inv_def writers_def read_holders_def has_read_lock_def inv_defs\<close>)
qed

lemma conn_step_buffer_inv:
  assumes st: "conn_step g g'" and inv: "buffer_inv g q"
  shows "\<exists>q'. buffer_inv g' q'"
proof -
  obtain lk where rep: "buf_only (gw_buf g) (gw_heap g) lk q" and lock: "lock_inv g lk"
    and hist: "inserted g = removed g @ q"
    and di: "mgr_inv g q DataMgr" and si: "mgr_inv g q (other DataMgr)"
    using buffer_invD [OF inv] by metis
  note holders = lock_inv_def writers_def read_holders_def has_read_lock_def
  have keep: "buffer_inv g' q"
    if "gw_heap g' = gw_heap g" "gw_buf g' = gw_buf g" "gw_rd g' = gw_rd g"
      "inserted g' = inserted g" "removed g' = removed g" "writers g' = writers g"
    by (rule buffer_invI [where m = DataMgr and lk = lk])
      (use that rep lock hist di si in
        \<open>simp_all add: lock_inv_def read_holders_def inv_defs cong: rpc.case_cong\<close>)
  from st show ?thesis
  proof (cases rule: conn_step.cases)
    case (insert_lock h d)
    note gr = granted_write [OF rep lock insert_lock(3)]
    have "buffer_inv g' q"
      by (rule buffer_invI [where m = DataMgr and lk = wlocked])
        (use insert_lock gr hist di si in
          \<open>auto simp: holders inv_defs split: rpc.splits\<close>)
    then show ?thesis ..
  next
    case (insert_data d c h)
    note ins = inserted_data [OF rep insert_data(3)]
    note lk = lock_of_inserter [OF lock insert_data(2)]
    have "buffer_inv g' (q @ [d])"
      by (rule buffer_invI [where m = DataMgr and lk = unlocked])
        (use insert_data ins lk hist di si in
          \<open>auto simp: holders inv_defs rlocked_0 [symmetric] split: rpc.splits\<close>)
    then show ?thesis ..
  qed (use keep in \<open>auto simp: writers_def\<close>)
qed

lemma fault_step_buffer_inv:
  "fault_step g g' \<Longrightarrow> buffer_inv g q \<Longrightarrow> buffer_inv g' q"
  by (erule fault_stepE)
    (simp_all add: buffer_inv_def lock_inv_def writers_def read_holders_def inv_defs cong: rpc.case_cong)

section \<open>Allocations\<close>

text \<open>Each insertion takes one allocation; nothing else does.\<close>

lemma mgr_step_room:
  assumes "mgr_step m g g'" "buffer_inv g q"
  shows "budget (gw_heap g') = budget (gw_heap g) \<and> inserted g' = inserted g"
proof -
  obtain lk where rep: "buf_only (gw_buf g) (gw_heap g) lk q" and lock: "lock_inv g lk"
    using assms(2) by (auto simp: buffer_inv_def)
  from assms(1) show ?thesis
  proof (cases rule: mgr_step.cases)
    case (get_lock h)
    then show ?thesis using granted_read [OF rep lock get_lock(3)] by simp
  next
    case (get_data c d h)
    then show ?thesis using got_data [OF rep get_data(3)] by simp
  next
    case (get_none c h)
    then show ?thesis using got_none [OF rep get_none(3)] by simp
  next
    case (none_unlock h)
    then show ?thesis using unlocked_ok [OF rep none_unlock(3)] by simp
  next
    case (serial_lock h)
    then show ?thesis using granted_write [OF rep lock serial_lock(3)] by simp
  next
    case (erase c d h)
    then show ?thesis using erased_data [OF rep erase(3)] by simp
  next
    case (erase_none c h)
    then show ?thesis using erased_none [OF rep erase_none(3)] rep
        sbo.deq_empty [of "{}" "gw_buf g" "gw_heap g" lk] by simp
  qed simp_all
qed

lemma conn_step_room:
  assumes "conn_step g g'" "buffer_inv g q"
  shows "budget (gw_heap g') + length (inserted g') = budget (gw_heap g) + length (inserted g)"
proof -
  obtain lk where rep: "buf_only (gw_buf g) (gw_heap g) lk q" and lock: "lock_inv g lk"
    using assms(2) by (auto simp: buffer_inv_def)
  from assms(1) show ?thesis
  proof (cases rule: conn_step.cases)
    case (insert_lock h d)
    then show ?thesis using granted_write [OF rep lock insert_lock(3)] by simp
  next
    case (insert_data d c h)
    then show ?thesis using inserted_data [OF rep insert_data(3)] by simp
  qed simp_all
qed

text \<open>The only call that can go wrong is an insertion without memory.\<close>

lemma fault_step_cause:
  assumes f: "fault_step g g'" and inv: "buffer_inv g q"
  shows "gw_fault g' = Some AssertFail \<and> budget (gw_heap g) = 0 \<and> inserted g' = inserted g \<and>
    gw_heap g' = gw_heap g \<and> (\<exists>d. gw_cpc g = CIns d)"
proof -
  obtain lk where rep: "buf_only (gw_buf g) (gw_heap g) lk q" and lock: "lock_inv g lk"
    using inv by (auto simp: buffer_inv_def)
  have rd: "pthread_rwlock_rdlock (gw_heap g) (gw_buf g) \<noteq> Inl e" for e
    using rep lock sbo.rd_granted [of "{}" "gw_buf g" "gw_heap g" _ q]
      sbo.rd_waits [of "{}" "gw_buf g" "gw_heap g" q] by (auto simp: lock_inv_def)
  have wr: "pthread_rwlock_wrlock (gw_heap g) (gw_buf g) \<noteq> Inl e" for e
  proof (cases "writers g = 0")
    case True
    then have r: "buf_only (gw_buf g) (gw_heap g) (rlocked (read_holders g)) q"
      using rep lock by (auto simp: lock_inv_def)
    then show ?thesis using sbo.wr_waits_reader [of "{}" "gw_buf g" "gw_heap g" _ q]
        sbo.wr_granted [of "{}" "gw_buf g" "gw_heap g" q]
      by (cases "read_holders g") (auto simp: rlocked_0)
  next
    case False
    then show ?thesis using rep lock sbo.wr_waits_writer [of "{}" "gw_buf g" "gw_heap g" q]
      by (auto simp: lock_inv_def)
  qed
  have un: "pthread_rwlock_unlock (gw_heap g) (gw_buf g) \<noteq> Inl e" for e
    using sbo.unl_ok [OF rep] by auto
  have pk: "get_locked (gw_heap g) (gw_buf g) \<noteq> Inl e" for e
    using rep sbo.peek_empty [of "{}" "gw_buf g" "gw_heap g" lk] sbo.peek_data [of "{}" "gw_buf g" "gw_heap g" lk]
    by (cases q) force+
  have dq: "remove_locked (gw_heap g) (gw_buf g) \<noteq> Inl e" for e
    using rep sbo.deq_empty [of "{}" "gw_buf g" "gw_heap g" lk] sbo.deq_data [of "{}" "gw_buf g" "gw_heap g" lk]
    by (cases q) force+
  have en: "budget (gw_heap g) = 0 \<and> e = AssertFail"
    if "insert_locked (gw_heap g) (gw_buf g) d = Inl e" for d e
    using that sbo.enq_ok [OF rep, of d] sbo.enq_full [OF rep, of d]
    by (cases "budget (gw_heap g) = 0") auto
  from f show ?thesis
    by (cases rule: fault_step.cases) (use rd wr un pk dq en in auto)
qed

end
