(* ===== verification/Threads_Reach.thy ===== *)
theory Threads_Reach
  imports Threads_Safety "HOL-Library.Sublist"
begin

text \<open>
  The invariant of the threads lifted to every reachable state, with what follows from it:
  the order and the number of times in which the measurements are processed, the exclusion at
  the lock, the faults that can happen, the only shapes in which the threads can be stuck, and
  the race at shutdown that reaches one of them.
\<close>

section \<open>Reachable states\<close>

lemma init_buffer_inv:
  assumes "sbuffer_init (empty_heap n) = Inr (SBUFFER_SUCCESS, b, h)"
  shows "buffer_inv (gw_init h b) [] \<and> flag_inv (gw_init h b) \<and> Suc (budget h) = n"
proof (cases n)
  case 0
  then have "sbuffer_init (empty_heap n :: 'a sheap) = Inr (SBUFFER_FAILURE, 0, empty_heap n)"
    by (intro sbuffer_init_no_memory) (simp add: empty_heap_def)
  then show ?thesis using assms by (simp add: sbuffer_codes)
next
  case (Suc k)
  have "0 < budget (empty_heap n :: 'a sheap)" using Suc by (simp add: empty_heap_def)
  from sbuffer_init_ok [OF heap_ok_empty this] assms
  have "squeue h b unlocked []" "alive h = {b}" and bud: "budget h = n - 1"
    by (auto simp: empty_heap_def alive_def)
  then have "buf_only b h unlocked []" by (simp add: buf_within_def)
  then have "buffer_inv (gw_init h b) []"
    by (intro buffer_invI [where m = DataMgr and lk = unlocked])
      (simp_all add: gw_init_def start_reader_def lock_inv_def writers_def read_holders_def
        has_read_lock_def inv_defs rlocked_0)
  moreover have "pc_of (gw_init h b) m \<noteq> RDone" for m
    by (cases m) (simp_all add: gw_init_def start_reader_def)
  then have "flag_inv (gw_init h b)" by (simp add: flag_inv_def) (simp add: gw_init_def)
  ultimately show ?thesis using bud Suc by simp
qed

lemma mgr_step_flag_inv:
  assumes "mgr_step m g g'" "flag_inv g"
  shows "flag_inv g'"
  using assms
  by (cases rule: mgr_step.cases)
    (auto simp: flag_inv_def goes_on_def THREAD_RUNNING_def THREAD_ENDED_def split: if_splits)

lemma barrier_step_flag_inv: "barrier_step g g' \<Longrightarrow> flag_inv g \<Longrightarrow> flag_inv g'"
  by (erule barrier_stepE) (auto simp: flag_inv_def split: if_splits)

lemma conn_step_flag_inv: "conn_step g g' \<Longrightarrow> flag_inv g \<Longrightarrow> flag_inv g'"
  by (erule conn_stepE) (auto simp: flag_inv_def)

lemma fault_step_flag_inv: "fault_step g g' \<Longrightarrow> flag_inv g \<Longrightarrow> flag_inv g'"
  by (erule fault_stepE) (auto simp: flag_inv_def)

text \<open>The faults: none, or an insertion without memory.\<close>

definition fault_inv :: "nat \<Rightarrow> 'd gw \<Rightarrow> bool" where
  "fault_inv n g \<longleftrightarrow> Suc (budget (gw_heap g) + length (inserted g)) = n \<and>
     (gw_fault g = None \<or> gw_fault g = Some AssertFail \<and> budget (gw_heap g) = 0)"

lemma gw_step_inv:
  assumes st: "gw_step g g'" and b: "buffer_inv g q" and f: "flag_inv g" and r: "fault_inv n g"
  shows "(\<exists>q'. buffer_inv g' q') \<and> flag_inv g' \<and> fault_inv n g'"
proof -
  have none: "gw_fault g = None" using st by (simp add: gw_step_def)
  consider m where "mgr_step m g g'" | "barrier_step g g'" | "conn_step g g'" | "fault_step g g'"
    using st by (auto simp: gw_step_def)
  then show ?thesis
  proof cases
    case 1
    have "gw_fault g' = gw_fault g" using 1 by (cases rule: mgr_step.cases) simp_all
    then show ?thesis
      using mgr_step_buffer_inv [OF 1 b] mgr_step_flag_inv [OF 1 f] mgr_step_room [OF 1 b] r none
      by (simp add: fault_inv_def)
  next
    case 2
    have "gw_fault g' = gw_fault g \<and> gw_heap g' = gw_heap g \<and> inserted g' = inserted g"
      using 2 by (cases rule: barrier_step.cases) simp_all
    then show ?thesis
      using barrier_step_buffer_inv [OF 2 b] barrier_step_flag_inv [OF 2 f] r none
      by (auto simp: fault_inv_def)
  next
    case 3
    have "gw_fault g' = gw_fault g" using 3 by (cases rule: conn_step.cases) simp_all
    then show ?thesis
      using conn_step_buffer_inv [OF 3 b] conn_step_flag_inv [OF 3 f] conn_step_room [OF 3 b] r none
      by (simp add: fault_inv_def)
  next
    case 4
    then show ?thesis
      using fault_step_buffer_inv [OF 4 b] fault_step_flag_inv [OF 4 f] fault_step_cause [OF 4 b] r
      by (auto simp: fault_inv_def)
  qed
qed

lemma gw_reach_inv:
  "gw_reach n g \<Longrightarrow> (\<exists>q. buffer_inv g q) \<and> flag_inv g \<and> fault_inv n g"
proof (induction rule: gw_reach.induct)
  case (reach_init b h)
  from init_buffer_inv [OF this] show ?case by (auto simp: fault_inv_def gw_init_def)
next
  case (reach_step g g')
  then show ?case using gw_step_inv by blast
qed

section \<open>What the managers have processed\<close>

lemma mgr_inv_processed:
  assumes "mgr_inv g q m"
  shows "processed (gw_rd g m) = removed g \<or> q \<noteq> [] \<and> processed (gw_rd g m) = removed g @ [hd q]"
  using assms by (auto simp: inv_defs split: rpc.splits)

lemma processed_between:
  assumes "buffer_inv g q"
  shows "prefix (removed g) (processed (gw_rd g m)) \<and> prefix (processed (gw_rd g m)) (inserted g) \<and>
    length (processed (gw_rd g m)) \<le> Suc (length (removed g))"
proof -
  have "mgr_inv g q m" and "inserted g = removed g @ q"
    using buffer_invD [OF assms] by metis+
  then show ?thesis using mgr_inv_processed [of g q m] by (cases q) auto
qed

section \<open>Stuck states\<close>

definition stuck :: "'d gw \<Rightarrow> bool" where
  "stuck g \<longleftrightarrow> gw_fault g = None \<and> (\<forall>g'. \<not> gw_step g g')"

lemma stuckD:
  assumes "stuck g"
  shows "\<not> mgr_step m g g'" "\<not> barrier_step g g'" "\<not> conn_step g g'" "\<not> fault_step g g'"
  using assms by (auto simp: stuck_def gw_step_def)

lemma res_option_cases:
  fixes r :: "'a option res"
  obtains e where "r = Inl e" | "r = Inr None" | x where "r = Inr (Some x)"
  by (cases r; cases "projr r") (auto simp: sum.collapse)

lemma stuck_conn:
  assumes "stuck g"
  shows "gw_cpc g = CDone"
proof (cases "gw_cpc g")
  case CCheck
  then show ?thesis using stuckD(3) [OF assms] conn_step.round conn_step.stopped by metis
next
  case (CIns d)
  then show ?thesis using stuckD(3,4) [OF assms] conn_step.insert_data [of g d] fault_step.intros(7) [of g d]
    by (metis surj_pair old.sum.exhaust)
qed (use stuckD(3) [OF assms] conn_step.round_end conn_step.ended in blast)+

lemma stuck_mgr:
  assumes st: "stuck g" and b: "buffer_inv g q"
  shows "pc_of g m \<in> {RArrive, RPrep, RDone} \<or>
    (pc_of g m = RGet \<or> pc_of g m = RWrite) \<and> pc_of g (other m) = RErase \<or>
    pc_of g m = RWrite \<and> has_read_lock (pc_of g (other m))"
proof -
  obtain lk where rep: "buf_only (gw_buf g) (gw_heap g) lk q" and lock: "lock_inv g lk"
    and mi: "mgr_inv g q m"
    using buffer_invD [OF b] by metis
  note no = stuckD [OF st] and ended = stuck_conn [OF st]
  show ?thesis
  proof (cases "pc_of g m")
    case RStart
    then show ?thesis using no(1) mgr_step.db_connected by blast
  next
    case RCheck
    then show ?thesis using no(1) mgr_step.loop_go mgr_step.loop_end by blast
  next
    case RGet
    then have "pthread_rwlock_rdlock (gw_heap g) (gw_buf g) = Inr None"
      using no(1,4) mgr_step.get_lock [OF RGet] fault_step.intros(1) [OF RGet]
      by (metis res_option_cases)
    then have "writers g \<noteq> 0"
      using rep lock sbo.rd_granted [of "{}" "gw_buf g" "gw_heap g" "read_holders g" q]
      by (auto simp: lock_inv_def)
    then show ?thesis using RGet ended by (auto simp: writers_mgr [where m = m] split: if_splits)
  next
    case RRead
    then show ?thesis
      using no(1,4) mgr_step.get_data [OF RRead] mgr_step.get_none [OF RRead] fault_step.intros(2) [OF RRead]
      by (metis surj_pair old.sum.exhaust option.exhaust)
  next
    case RUnlock
    then show ?thesis using no(1,4) mgr_step.none_unlock [OF RUnlock] fault_step.intros(3) [OF RUnlock]
      by (metis old.sum.exhaust)
  next
    case RProc
    then show ?thesis using no(1) mgr_step.process [OF RProc] mi by (auto simp: inv_defs)
  next
    case RWrite
    then have "pthread_rwlock_wrlock (gw_heap g) (gw_buf g) = Inr None"
      using no(1,4) mgr_step.serial_lock [OF RWrite] fault_step.intros(4) [OF RWrite]
      by (metis res_option_cases)
    then have "writers g \<noteq> 0 \<or> read_holders g \<noteq> 0"
      using rep lock sbo.wr_granted [of "{}" "gw_buf g" "gw_heap g" q]
      by (auto simp: lock_inv_def rlocked_0)
    then show ?thesis using RWrite ended
      by (auto simp: writers_mgr [where m = m] read_holders_mgr [where m = m] has_read_lock_def
          split: if_splits)
  next
    case RErase
    then show ?thesis
      using no(1,4) mgr_step.erase [OF RErase] mgr_step.erase_none [OF RErase] fault_step.intros(5) [OF RErase]
      by (metis surj_pair old.sum.exhaust option.exhaust)
  qed simp_all
qed

text \<open>
  Everybody is through, or one manager is through and the other one waits for it at the
  first barrier for ever.
\<close>

lemma stuck_shape:
  assumes st: "stuck g" and b: "buffer_inv g q"
  shows "gw_cpc g = CDone \<and>
    ((\<forall>m. pc_of g m = RDone) \<or>
     (\<exists>m. pc_of g m = RDone \<and> pc_of g (other m) = RArrive \<and> q \<noteq> []))"
proof -
  have mi: "mgr_inv g q m" for m using buffer_invD [OF b] by metis
  note no = stuckD [OF st]
  have three: "pc_of g m \<in> {RArrive, RPrep, RDone}" for m
    using stuck_mgr [OF st b, of m] stuck_mgr [OF st b, of "other m"] by (auto simp: has_read_lock_def)
  have "pc_of g m \<noteq> RPrep" for m
  proof
    assume p: "pc_of g m = RPrep"
    then have "pc_of g (other m) = RPrep"
      using mi [of m] three [of "other m"] by (auto simp: mgr_inv_def)
    with p have "pc_of g DataMgr = RPrep" "pc_of g StorageMgr = RPrep" by (cases m; simp)+
    then show False using no(2) barrier_step.prep_barrier by blast
  qed
  then have pcs: "pc_of g m \<in> {RArrive, RDone}" for m using three [of m] by blast
  have one: "pc_of g DataMgr = RDone \<or> pc_of g StorageMgr = RDone"
    using pcs [of DataMgr] pcs [of StorageMgr] no(2) barrier_step.loop_barrier [of g DataMgr] by auto
  have ne: "pc_of g m = RArrive \<Longrightarrow> q \<noteq> []" for m
    using mi [of m] by (simp add: inv_defs)
  have "(\<forall>m. pc_of g m = RDone) \<or> (\<exists>m. pc_of g m = RDone \<and> pc_of g (other m) = RArrive)"
  proof (cases "pc_of g DataMgr = RDone")
    case True
    then show ?thesis using pcs [of StorageMgr]
      by (metis (full_types) insertE mgr.exhaust other.simps(1) singletonD)
  next
    case False
    then have "pc_of g StorageMgr = RDone" "pc_of g (other StorageMgr) = RArrive"
      using one pcs [of DataMgr] by auto
    then show ?thesis by blast
  qed
  then show ?thesis using stuck_conn [OF st] ne by blast
qed

end
