(* ===== verification/Threads_Shutdown.thy ===== *)
theory Threads_Shutdown
  imports Threads_Reach
begin

text \<open>
  The end of the gateway. Once the connection manager has ended, every step of the managers, barriers
  included, makes a potential smaller: the measurements that a manager has not processed yet, and its
  position in the loop. So the gateway always comes to rest, after a number of steps that is bounded
  by what is left in the buffer.
\<close>

section \<open>The potential\<close>

text \<open>
  What a manager can still do in the current round. Processing a measurement pays for the way
  through both barriers; \<open>go\<close> is the loop condition.
\<close>

fun weight :: "bool \<Rightarrow> rpc \<Rightarrow> nat" where
  "weight go RStart = 11"
| "weight go RCheck = (if go then 10 else 2)"
| "weight go RGet = 9"
| "weight go RRead = 8"
| "weight go RUnlock = 5"
| "weight go RProc = 7"
| "weight go RArrive = 17"
| "weight go RWrite = 16"
| "weight go RErase = 15"
| "weight go RPrep = 14"
| "weight go RDone = 0"

lemma weight_le: "weight go p \<le> 17"
  by (cases p) simp_all

definition unprocessed :: "'d gw \<Rightarrow> mgr \<Rightarrow> nat" where
  "unprocessed g m = length (inserted g) - length (processed (gw_rd g m))"

definition potential :: "'d gw \<Rightarrow> mgr \<Rightarrow> nat" where
  "potential g m = 13 * unprocessed g m + weight (goes_on g m) (pc_of g m)"

text \<open>The connection manager has ended and has cleared the flag.\<close>

definition closing :: "'d gw \<Rightarrow> bool" where
  "closing g \<longleftrightarrow> gw_cpc g = CDone \<and> thread_result_connmgr g = THREAD_ENDED"

lemma closing_goes_on: "closing g \<Longrightarrow> goes_on g m \<longleftrightarrow> result (gw_rd g m) \<noteq> SBUFFER_NO_DATA"
  by (simp add: closing_def goes_on_def THREAD_ENDED_def)

lemmas potential_defs = potential_def unprocessed_def goes_on_def closing_def THREAD_ENDED_def

section \<open>Each step makes it smaller\<close>

lemma mgr_step_closing: "mgr_step m g g' \<Longrightarrow> closing g \<Longrightarrow> closing g'"
  by (erule mgr_stepE) (simp_all add: closing_def)

lemma barrier_step_closing: "barrier_step g g' \<Longrightarrow> closing g \<Longrightarrow> closing g'"
  by (erule barrier_stepE) (simp_all add: closing_def)

lemma closing_conn_rests: "closing g \<Longrightarrow> \<not> conn_step g g'"
  by (auto simp: closing_def elim: conn_stepE)

lemma mgr_step_potential_other:
  "mgr_step m g g' \<Longrightarrow> closing g \<Longrightarrow> potential g' (other m) = potential g (other m)"
  by (erule mgr_stepE) (simp_all add: potential_defs)

lemma mgr_step_potential:
  assumes st: "mgr_step m g g'" and cl: "closing g" and inv: "buffer_inv g q"
  shows "potential g' m < potential g m"
proof -
  have mi: "mgr_inv g q m" and hist: "inserted g = removed g @ q"
    using buffer_invD [OF inv] by metis+
  from st show ?thesis
  proof (cases rule: mgr_step.cases)
    case (none_unlock h)
    then have "result (gw_rd g m) = SBUFFER_NO_DATA" using mi by (simp add: inv_defs)
    then show ?thesis using none_unlock cl by (simp add: potential_defs)
  next
    case (process d)
    then have "processed (gw_rd g m) = removed g" "q \<noteq> []" using mi by (simp_all add: inv_defs)
    then have "length (processed (gw_rd g m)) < length (inserted g)" using hist by simp
    then show ?thesis using process cl by (simp add: potential_defs)
  qed (use cl in \<open>simp_all add: potential_defs\<close>)
qed

lemma barrier_step_potential:
  assumes st: "barrier_step g g'" and cl: "closing g"
  shows "potential g' DataMgr + potential g' StorageMgr < potential g DataMgr + potential g StorageMgr"
  using st
proof (cases rule: barrier_step.cases)
  case (loop_barrier m)
  then show ?thesis using cl by (cases m) (simp_all add: potential_defs)
next
  case prep_barrier
  then show ?thesis using cl by (simp add: potential_defs)
qed

definition total :: "'d gw \<Rightarrow> nat" where
  "total g = potential g DataMgr + potential g StorageMgr"

lemma closing_step:
  assumes st: "gw_step g g'" and cl: "closing g" and inv: "buffer_inv g q"
  shows "total g' < total g \<and> closing g' \<and> gw_fault g' = None"
proof -
  have none: "gw_fault g = None" using st by (simp add: gw_step_def)
  consider m where "mgr_step m g g'" | "barrier_step g g'" | "conn_step g g'" | "fault_step g g'"
    using st by (auto simp: gw_step_def)
  then show ?thesis
  proof cases
    case 1
    have "gw_fault g' = None" using 1 none by (cases rule: mgr_step.cases) simp_all
    moreover have "total g' < total g"
      using mgr_step_potential [OF 1 cl inv] mgr_step_potential_other [OF 1 cl] by (cases m) (simp_all add: total_def)
    ultimately show ?thesis using mgr_step_closing [OF 1 cl] by simp
  next
    case 2
    have "gw_fault g' = None" using 2 none by (cases rule: barrier_step.cases) simp_all
    then show ?thesis using barrier_step_potential [OF 2 cl] barrier_step_closing [OF 2 cl] by (simp add: total_def)
  next
    case 3
    then show ?thesis using closing_conn_rests [OF cl] by blast
  next
    case 4
    then show ?thesis using fault_step_cause [OF 4 inv] cl by (auto simp: closing_def)
  qed
qed

section \<open>Runs to the end\<close>

lemma closing_run:
  assumes "(gw_step ^^ k) g g'" and "gw_reach n g" and "closing g"
  shows "k + total g' \<le> total g \<and> gw_reach n g' \<and> closing g'"
  using assms(1)
proof (induction k arbitrary: g')
  case (Suc k)
  then obtain g1 where g1: "(gw_step ^^ k) g g1" "gw_step g1 g'" by auto
  from Suc.IH [OF g1(1)] have ih: "k + total g1 \<le> total g" "gw_reach n g1" "closing g1" by simp_all
  obtain q where "buffer_inv g1 q" using gw_reach_inv [OF ih(2)] by blast
  from closing_step [OF g1(2) ih(3) this] ih g1(2) show ?case by (auto intro: reach_step)
qed (use assms in simp)

lemma closing_rests:
  assumes "gw_reach n g" and "closing g" and "gw_fault g = None"
  shows "\<exists>g'. gw_step\<^sup>*\<^sup>* g g' \<and> stuck g'"
  using assms
proof (induction "total g" arbitrary: g rule: less_induct)
  case less
  show ?case
  proof (cases "\<exists>g1. gw_step g g1")
    case True
    then obtain g1 where g1: "gw_step g g1" by blast
    obtain q where q: "buffer_inv g q" using gw_reach_inv [OF less.prems(1)] by blast
    from closing_step [OF g1 less.prems(2) q] less.hyps [of g1] g1 less.prems(1)
    obtain g' where "gw_step\<^sup>*\<^sup>* g1 g'" "stuck g'" by (auto intro: reach_step)
    then show ?thesis using g1 by (meson converse_rtranclp_into_rtranclp)
  next
    case False
    then have "stuck g" using less.prems(3) by (simp add: stuck_def)
    then show ?thesis by blast
  qed
qed

end
