(* ===== verification/Threads_Claims.thy ===== *)
theory Threads_Claims
  imports Threads_Shutdown
begin

text \<open>
  The properties of the gateway's three threads at the shared buffer, for every interleaving,
  each with an application to a run of the gateway given by a schedule.
\<close>

section \<open>Two runs\<close>

text \<open>One measurement, up to the point where both managers have processed it.\<close>

definition one_round :: "nat action list" where
  "one_round =
     [Move StorageMgr, Round, InsertLock 7, InsertData,
      Move DataMgr, Move DataMgr, Move DataMgr, Move DataMgr,
      Move StorageMgr, Move StorageMgr, Move StorageMgr, Move StorageMgr]"

text \<open>
  The data manager finds the buffer empty, the connection manager inserts a measurement and
  ends, and only then the data manager tests its loop condition.
\<close>

definition shutdown_race :: "nat action list" where
  "shutdown_race =
     [Move StorageMgr, Round, Move DataMgr, Move DataMgr, Move DataMgr, Move DataMgr,
      InsertLock 7, InsertData, NoClient, Round, Move DataMgr,
      Move StorageMgr, Move StorageMgr, Move StorageMgr, Move StorageMgr]"

definition race_lost :: "nat action list" where
  "race_lost =
     [Move StorageMgr, Round, Move DataMgr, Move DataMgr, Move DataMgr, Move DataMgr,
      Move StorageMgr, Move StorageMgr, Move StorageMgr, Move StorageMgr,
      InsertLock 7, InsertData, NoClient, Round, Move DataMgr, Move StorageMgr]"

definition shows_run ::
    "nat gw option \<Rightarrow> nat list \<Rightarrow> nat list \<Rightarrow> nat list \<Rightarrow> nat list \<Rightarrow> rpc \<Rightarrow> rpc \<Rightarrow> bool" where
  "shows_run r ins rmv dat sto pd ps =
     (case r of None \<Rightarrow> False
      | Some g \<Rightarrow> inserted g = ins \<and> removed g = rmv \<and> processed (gw_rd g DataMgr) = dat \<and>
          processed (gw_rd g StorageMgr) = sto \<and> pc_of g DataMgr = pd \<and> pc_of g StorageMgr = ps)"

definition conn_done :: "nat gw option \<Rightarrow> bool" where
  "conn_done r = (case r of None \<Rightarrow> False | Some g \<Rightarrow> gw_cpc g = CDone)"

lemma one_round_run: "shows_run (gateway_run 3 one_round) [7] [] [7] [7] RArrive RArrive"
  by code_simp

lemma shutdown_race_run: "shows_run (gateway_run 3 shutdown_race) [7] [] [] [7] RDone RArrive"
  by code_simp

lemma shutdown_race_conn: "conn_done (gateway_run 3 shutdown_race)"
  by code_simp

lemma race_lost_run: "shows_run (gateway_run 3 race_lost) [7] [] [] [] RDone RDone"
  by code_simp

lemma race_lost_conn: "conn_done (gateway_run 3 race_lost)"
  by code_simp

lemma shows_runE:
  assumes "shows_run (gateway_run n as) ins rmv dat sto pd ps"
  obtains g where "gateway_run n as = Some g" "gw_reach n g" "gw_fault g = None"
    "inserted g = ins" "removed g = rmv" "processed (gw_rd g DataMgr) = dat"
    "processed (gw_rd g StorageMgr) = sto" "pc_of g DataMgr = pd" "pc_of g StorageMgr = ps"
proof (cases "gateway_run n as")
  case (Some g)
  then show ?thesis using assms that gateway_run_reach [OF Some] by (simp add: shows_run_def)
qed (use assms in \<open>simp add: shows_run_def\<close>)

section \<open>Safety\<close>

lemma removed_prefix: "gw_reach n g \<Longrightarrow> prefix (removed g) (inserted g)"
  using gw_reach_inv [of n g] processed_between prefix_order.trans by metis

text \<open>C4. In every reachable state of the gateway the measurements that have been removed are an
  initial part of those that each manager has processed, which are an initial part of those that
  have been inserted; a manager is at most one measurement ahead of the removals, hence of the
  other one. So each manager processes every measurement at most once, in the order of insertion,
  and none is removed before both have processed it.\<close>

theorem managers_in_step:
  assumes "gw_reach n g"
  shows "prefix (removed g) (processed (gw_rd g m)) \<and> prefix (processed (gw_rd g m)) (inserted g) \<and>
     length (processed (gw_rd g m)) \<le> Suc (length (removed g)) \<and>
     length (processed (gw_rd g m)) \<le> Suc (length (processed (gw_rd g (other m))))"
proof -
  obtain q where q: "buffer_inv g q" using gw_reach_inv [OF assms] by blast
  show ?thesis
    using processed_between [OF q, of m] processed_between [OF q, of "other m"]
    by (meson Suc_le_mono le_trans prefix_length_le)
qed

lemma managers_in_step_witness:
  "\<exists>g. gateway_run 3 one_round = Some g \<and> processed (gw_rd g StorageMgr) = [7] \<and>
     prefix (removed g) [7] \<and> prefix [7 :: nat] (inserted g)"
proof -
  obtain g where "gateway_run 3 one_round = Some g" "gw_reach 3 g" "processed (gw_rd g StorageMgr) = [7]"
    using one_round_run by (rule shows_runE)
  then show ?thesis using managers_in_step [of 3 g StorageMgr] by auto
qed

text \<open>C9. In every reachable state the code under the write lock is executed by at most one
  thread, and then no thread is in the code under the read lock; the lock's own state says the
  same.\<close>

theorem lock_exclusion_reachable:
  assumes "gw_reach n g"
  shows "\<exists>lk q. buf_only (gw_buf g) (gw_heap g) lk q \<and> inserted g = removed g @ q \<and>
     (writers g = 0 \<and> lk = rlocked (read_holders g) \<or>
      writers g = 1 \<and> read_holders g = 0 \<and> lk = wlocked)"
proof -
  obtain q where q: "buffer_inv g q" using gw_reach_inv [OF assms] by blast
  then show ?thesis unfolding buffer_inv_def lock_inv_def by blast
qed

lemma lock_exclusion_reachable_witness:
  "\<exists>g lk. gateway_run 3 one_round = Some g \<and> buf_only (gw_buf g) (gw_heap g) lk [7] \<and>
     (writers g = 0 \<and> lk = rlocked (read_holders g) \<or> writers g = 1 \<and> read_holders g = 0 \<and> lk = wlocked)"
proof -
  obtain g where g: "gateway_run 3 one_round = Some g" "gw_reach 3 g" "inserted g = [7]" "removed g = []"
    using one_round_run by (rule shows_runE)
  then show ?thesis using lock_exclusion_reachable [OF g(2)] by auto
qed



section \<open>The end\<close>

lemma ended_stuck:
  assumes "gw_fault g = None" "gw_cpc g = CDone" "pc_of g m = RDone"
    "pc_of g (other m) \<in> {RDone, RArrive}"
  shows "stuck g"
proof -
  have pcs: "pc_of g k \<in> {RDone, RArrive}" for k using assms(3,4) by (cases k; cases m) auto
  have m: "\<not> mgr_step k g g'" for k g'
    using pcs [of k] by (auto elim!: mgr_stepE)
  have b: "\<not> barrier_step g g'" for g'
  proof
    assume "barrier_step g g'"
    then show False using pcs assms(3) by cases (metis insertE mgr.exhaust other.simps rpc.distinct singletonD)+
  qed
  have c: "\<not> conn_step g g'" for g' using assms(2) by (auto elim!: conn_stepE)
  have f: "\<not> fault_step g g'" for g'
  proof
    assume "fault_step g g'"
    then show False using pcs assms(2) by cases (metis cpc.distinct insertE rpc.distinct singletonD)+
  qed
  show ?thesis using assms(1) m b c f by (auto simp: stuck_def gw_step_def)
qed

text \<open>C10. The states in which no thread can move are exactly those in which the connection manager
  has ended and either both managers have ended or one has ended and the other one waits for it at
  the loop barrier. In particular there is always a next step while the flag is set.\<close>

theorem stuck_states:
  assumes "gw_reach n g"
  shows "stuck g \<longleftrightarrow> gw_fault g = None \<and> gw_cpc g = CDone \<and>
     (\<exists>m. pc_of g m = RDone \<and> pc_of g (other m) \<in> {RDone, RArrive})"
    (is "_ \<longleftrightarrow> ?shape")
proof
  obtain q where q: "buffer_inv g q" using gw_reach_inv [OF assms] by blast
  assume st: "stuck g"
  from stuck_shape [OF st q] st show ?shape by (auto simp: stuck_def)
next
  assume ?shape
  then show "stuck g" using ended_stuck by blast
qed

lemma stuck_states_witness:
  "\<exists>g. gateway_run 3 shutdown_race = Some g \<and> stuck g"
proof -
  obtain g where g: "gateway_run 3 shutdown_race = Some g" "gw_reach 3 g" "gw_fault g = None"
      "pc_of g DataMgr = RDone" "pc_of g StorageMgr = RArrive"
    using shutdown_race_run by (rule shows_runE)
  have "gw_cpc g = CDone" using shutdown_race_conn g(1) by (simp add: conn_done_def)
  then have "stuck g" using g by (intro stuck_states [OF g(2), THEN iffD2] conjI exI [of _ DataMgr]) simp_all
  with g show ?thesis by blast
qed





text \<open>When both managers have ended they have processed the same measurements: those that have
  been removed from the buffer.\<close>

theorem both_ended_agree:
  assumes "gw_reach n g" and "pc_of g DataMgr = RDone" and "pc_of g StorageMgr = RDone"
  shows "processed (gw_rd g DataMgr) = removed g \<and> processed (gw_rd g StorageMgr) = removed g"
proof -
  obtain q where "buffer_inv g q" using gw_reach_inv [OF assms(1)] by blast
  then have "mgr_inv g q DataMgr" "mgr_inv g q StorageMgr" unfolding buffer_inv_def by simp_all
  then show ?thesis using assms(2,3) by (simp add: inv_defs)
qed

lemma both_ended_agree_witness:
  "\<exists>g. gateway_run 3 race_lost = Some g \<and> processed (gw_rd g DataMgr) = removed g \<and>
     processed (gw_rd g StorageMgr) = removed g"
proof -
  obtain g where "gateway_run 3 race_lost = Some g" "gw_reach 3 g" "pc_of g DataMgr = RDone"
      "pc_of g StorageMgr = RDone"
    using race_lost_run by (rule shows_runE)
  then show ?thesis using both_ended_agree [of 3 g] by blast
qed

text \<open>C18. The shutdown race: the gateway can come to a state in which nothing moves any more while
  the storage manager waits at the loop barrier for a data manager that has already ended, having
  stored a measurement that the data manager never sees.\<close>

theorem shutdown_deadlock:
  "\<exists>g :: nat gw. gw_reach 3 g \<and> stuck g \<and> pc_of g DataMgr = RDone \<and> pc_of g StorageMgr = RArrive \<and>
     inserted g = [7] \<and> processed (gw_rd g StorageMgr) = [7] \<and> processed (gw_rd g DataMgr) = []"
proof -
  obtain g where g: "gateway_run 3 shutdown_race = Some g" "gw_reach 3 g" "gw_fault g = None"
      "inserted g = [7]" "processed (gw_rd g DataMgr) = []" "processed (gw_rd g StorageMgr) = [7]"
      "pc_of g DataMgr = RDone" "pc_of g StorageMgr = RArrive"
    using shutdown_race_run by (rule shows_runE)
  have "gw_cpc g = CDone" using shutdown_race_conn g(1) by (simp add: conn_done_def)
  then have "stuck g" using ended_stuck [of g DataMgr] g by simp
  with g show ?thesis by blast
qed

text \<open>C28. The same race without the deadlock: the gateway can end, every thread being through, with
  a measurement left in the buffer that neither manager has processed.\<close>

theorem shutdown_loses_measurement:
  "\<exists>g :: nat gw. gw_reach 3 g \<and> gw_cpc g = CDone \<and> (\<forall>m. pc_of g m = RDone) \<and>
     inserted g = [7] \<and> (\<forall>m. processed (gw_rd g m) = [])"
proof -
  obtain g where g: "gateway_run 3 race_lost = Some g" "gw_reach 3 g"
      "inserted g = [7]" "processed (gw_rd g DataMgr) = []" "processed (gw_rd g StorageMgr) = []"
      "pc_of g DataMgr = RDone" "pc_of g StorageMgr = RDone"
    using race_lost_run by (rule shows_runE)
  have "gw_cpc g = CDone" using race_lost_conn g(1) by (simp add: conn_done_def)
  with g show ?thesis by (intro exI [of _ g]) (auto intro: mgr_cases)
qed

section \<open>The gateway comes to rest\<close>

text \<open>C11. Once the connection manager has ended the gateway comes to rest, in every interleaving and
  without any assumption on the scheduler: the number of steps that are still possible is bounded by
  the measurements that the managers have not processed yet, and the state that is reached is the end
  of both managers or the deadlock at the barrier.\<close>

theorem shutdown_terminates:
  assumes "gw_reach n g" and "gw_cpc g = CDone" and "gw_fault g = None"
  shows "(\<forall>k g'. (gw_step ^^ k) g g' \<longrightarrow> k \<le> 13 * (unprocessed g DataMgr + unprocessed g StorageMgr) + 34) \<and>
     (\<exists>g' m. gw_step\<^sup>*\<^sup>* g g' \<and> (\<nexists>g''. gw_step g' g'') \<and> gw_fault g' = None \<and>
        pc_of g' m = RDone \<and> pc_of g' (other m) \<in> {RDone, RArrive})"
proof -
  have cl: "closing g" using gw_reach_inv [OF assms(1)] assms(2) by (simp add: closing_def flag_inv_def)
  have "total g \<le> 13 * (unprocessed g DataMgr + unprocessed g StorageMgr) + 34"
    using weight_le [of "goes_on g DataMgr" "pc_of g DataMgr"] weight_le [of "goes_on g StorageMgr" "pc_of g StorageMgr"]
    by (simp add: total_def potential_def)
  then have bound: "k \<le> 13 * (unprocessed g DataMgr + unprocessed g StorageMgr) + 34"
    if "(gw_step ^^ k) g g'" for k g'
    using closing_run [OF that assms(1) cl] by linarith
  obtain g' where g': "gw_step\<^sup>*\<^sup>* g g'" "stuck g'" using closing_rests [OF assms(1) cl assms(3)] by blast
  then obtain k where "(gw_step ^^ k) g g'" by (auto simp: rtranclp_power)
  then obtain q where "buffer_inv g' q" using closing_run [OF _ assms(1) cl] gw_reach_inv by blast
  from stuck_shape [OF g'(2) this] obtain m where "pc_of g' m = RDone" "pc_of g' (other m) \<in> {RDone, RArrive}" by blast
  then show ?thesis using bound g' by (auto simp: stuck_def)
qed

definition before_the_end :: "nat action list" where
  "before_the_end = butlast (butlast race_lost)"

lemma before_the_end_run: "shows_run (gateway_run 3 before_the_end) [7] [] [] [] RCheck RCheck"
  by code_simp

lemma before_the_end_conn: "conn_done (gateway_run 3 before_the_end)"
  by code_simp

lemma shutdown_terminates_witness:
  "\<exists>g :: nat gw. gateway_run 3 before_the_end = Some g \<and> (\<forall>k g'. (gw_step ^^ k) g g' \<longrightarrow> k \<le> 60)"
proof -
  obtain g where g: "gateway_run 3 before_the_end = Some g" "gw_reach 3 g" "gw_fault g = None" "inserted g = [7]"
      "processed (gw_rd g DataMgr) = []" "processed (gw_rd g StorageMgr) = []"
    using before_the_end_run by (rule shows_runE)
  have "gw_cpc g = CDone" using before_the_end_conn g(1) by (simp add: conn_done_def)
  from shutdown_terminates [OF g(2) this g(3)] g show ?thesis by (auto simp: unprocessed_def)
qed

section \<open>The release of the buffer\<close>

lemma buf_only_free:
  assumes "buf_only b h lk q"
  shows "\<exists>h'. sbuffer_free h b = Inr (SBUFFER_SUCCESS, 0, h') \<and> (\<forall>a. cells h' a = None)"
proof -
  obtain ns where q: "squeue h b lk ns" "alive h - insert b (fst ` set ns) = {}"
    using assms by (rule buf_withinE)
  from sbuffer_free_squeue [OF q(1)] obtain h' where h': "sbuffer_free h b = Inr (SBUFFER_SUCCESS, 0, h')"
      "\<forall>a \<in> insert b (fst ` set ns). cells h' a = None" "frame (insert b (fst ` set ns)) h h'" by blast
  have "cells h' a = None" for a
    using h'(2) frameD [OF h'(3), of a] q(2) by (cases "a \<in> insert b (fst ` set ns)") (auto simp: alive_iff)
  with h'(1) show ?thesis by blast
qed

text \<open>C20. When \<open>main\<close> has joined the three threads it releases the shared buffer. Whatever the
  interleaving has been, the reader/writer lock is then free, the release succeeds, and of all the
  blocks that the threads have allocated for the buffer none is left, those of measurements that
  were lost in the race at shutdown included.\<close>

theorem shared_buffer_released:
  assumes "gw_reach n g" and "gw_cpc g = CDone" and "pc_of g DataMgr = RDone" and "pc_of g StorageMgr = RDone"
  shows "(\<exists>s. read_buf (gw_heap g) (gw_buf g) = Inr s \<and> sb_lock s = unlocked) \<and>
     (\<exists>h'. sbuffer_free (gw_heap g) (gw_buf g) = Inr (SBUFFER_SUCCESS, 0, h') \<and> (\<forall>a. cells h' a = None))"
proof -
  obtain q where "buffer_inv g q" using gw_reach_inv [OF assms(1)] by blast
  then obtain lk where b: "buf_only (gw_buf g) (gw_heap g) lk q" and l: "lock_inv g lk"
    unfolding buffer_inv_def by blast
  have "lk = unlocked"
    using l assms(2-4) by (simp add: lock_inv_def writers_def read_holders_def has_read_lock_def rlocked_0)
  moreover obtain ns where "squeue (gw_heap g) (gw_buf g) lk ns" using b by (rule buf_withinE)
  ultimately have "\<exists>s. read_buf (gw_heap g) (gw_buf g) = Inr s \<and> sb_lock s = unlocked"
    by (auto simp: squeue_read_buf buf_struct_def)
  then show ?thesis using buf_only_free [OF b] by blast
qed

lemma shared_buffer_released_witness:
  "\<exists>g h'. gateway_run 3 race_lost = Some g \<and> inserted g = [7] \<and>
     sbuffer_free (gw_heap g) (gw_buf g) = Inr (SBUFFER_SUCCESS, 0, h') \<and> (\<forall>a. cells h' a = None)"
proof -
  obtain g where g: "gateway_run 3 race_lost = Some g" "gw_reach 3 g" "inserted g = [7]"
      "pc_of g DataMgr = RDone" "pc_of g StorageMgr = RDone"
    using race_lost_run by (rule shows_runE)
  have "gw_cpc g = CDone" using race_lost_conn g(1) by (simp add: conn_done_def)
  from shared_buffer_released [OF g(2) this g(4,5)] g(1,3) show ?thesis by blast
qed

end
