(* ===== verification/Datamgr_Sensor.thy ===== *)
theory Datamgr_Sensor
  imports Datamgr
begin

text \<open>
  One sensor: the abstract state that its object, its temperature list and the temperatures
  in it stand for, and the update by a new measurement as a function on it. The update of
  the C heap implements the function and touches nothing but this sensor's objects.
\<close>

section \<open>The abstract sensor\<close>

record sensor_state =
  s_id :: "16 word"
  s_room :: "16 word"
  s_avg :: double
  s_last :: "64 word"
  s_temps :: "double list"

definition take_measurement :: "(rat \<Rightarrow> double) \<Rightarrow> double \<Rightarrow> sensor_state \<Rightarrow> sensor_state" where
  "take_measurement rnd v s =
     (let temps = v # s_temps s in
      if length temps \<le> RUN_AVG_LENGTH
      then s\<lparr>s_avg := average_grow rnd (s_avg s) (int (length temps)) v, s_temps := temps\<rparr>
      else s\<lparr>s_avg := average_slide rnd (s_avg s) (int (length temps)) (temps ! RUN_AVG_LENGTH) v,
             s_temps := remove_nth RUN_AVG_LENGTH temps\<rparr>)"

definition window_ok :: "sensor_state \<Rightarrow> bool" where
  "window_ok s \<longleftrightarrow> length (s_temps s) \<le> RUN_AVG_LENGTH"

lemma take_measurement_fields [simp]:
  "s_id (take_measurement rnd v s) = s_id s" "s_room (take_measurement rnd v s) = s_room s"
  "s_last (take_measurement rnd v s) = s_last s"
  by (simp_all add: take_measurement_def Let_def)

lemma take_measurement_temps:
  "window_ok s \<Longrightarrow> s_temps (take_measurement rnd v s) = take RUN_AVG_LENGTH (v # s_temps s)"
  by (auto simp: take_measurement_def window_ok_def Let_def remove_nth_def RUN_AVG_LENGTH_def)

lemma take_measurement_window: "window_ok s \<Longrightarrow> window_ok (take_measurement rnd v s)"
  by (simp add: window_ok_def take_measurement_temps)

section \<open>Temperature lists in the heap\<close>

abbreviation temp_list :: "dm_heap \<Rightarrow> addr \<Rightarrow> dnode list \<Rightarrow> double list \<Rightarrow> bool" where
  "temp_list \<equiv> elem_list Temp"

lemma push_temp:
  assumes t: "temp_list h l tns vs" and e: "cells h e = Some (Obj (Temp v))"
    and new: "e \<notin> snd ` set tns" and b: "0 < budget h"
  shows "\<exists>h'. dpl_insert_at_index cb h l e (-1) False = Inr (l, h') \<and>
           temp_list h' l ((next_addr h, e) # tns) (v # vs) \<and>
           frame ({l, next_addr h} \<union> fst ` set tns) h h' \<and>
           next_addr h' = Suc (next_addr h) \<and> budget h' = budget h - 1"
  using elem_list_insert [OF t e new b, of cb "-1"] by (simp add: ins_pos_def)

lemma drop_oldest:
  assumes t: "temp_list h l tns vs" and i: "length vs = Suc i"
  shows "\<exists>h'. dpl_remove_at_index cb h l (int i) False = Inr (l, h') \<and>
           temp_list h' l (remove_nth i tns) (remove_nth i vs) \<and>
           frame ({l} \<union> fst ` set tns \<union> snd ` set tns) h h' \<and>
           cells h' (fst (tns ! i)) = None \<and> cells h' (snd (tns ! i)) = None \<and>
           next_addr h' = next_addr h \<and> budget h' = budget h"
proof -
  have ne: "vs \<noteq> []" and pos: "ref_pos (int i) (length vs) = i" using i by (auto simp: ref_pos_def)
  obtain h' where h': "dpl_remove_at_index cb h l (int i) False = Inr (l, h')"
      "temp_list h' l (remove_nth i tns) (remove_nth i vs)"
      "frame ({l, snd (tns ! i)} \<union> fst ` set tns) h h'"
      "cells h' (fst (tns ! i)) = None" "cells h' (snd (tns ! i)) = None"
      "next_addr h' = next_addr h" "budget h' = budget h"
    using elem_list_remove [OF t ne pos, of cb] by blast
  have "frame ({l} \<union> fst ` set tns \<union> snd ` set tns) h h'"
    by (rule frame_mono [OF h'(3)]) (use i elem_list_length [OF t] in auto)
  then show ?thesis using h' by blast
qed

section \<open>Sensors in the heap\<close>

text \<open>
  The objects of one sensor: the address of its struct, of its list and the nodes of the
  list.
\<close>

type_synonym sensor_objs = "addr \<times> addr \<times> dnode list"

definition sensor_struct :: "addr \<Rightarrow> sensor_state \<Rightarrow> sensor_t" where
  "sensor_struct l s = \<lparr>sensor_id = s_id s, room_id = s_room s, running_avg = s_avg s,
                        last_modified = s_last s, temperatures = l\<rparr>"

fun sensor_repr :: "dm_heap \<Rightarrow> sensor_objs \<Rightarrow> sensor_state \<Rightarrow> bool" where
  "sensor_repr h (p, l, tns) s =
     (cells h p = Some (Obj (Sensor (sensor_struct l s))) \<and> temp_list h l tns (s_temps s))"

fun foot :: "sensor_objs \<Rightarrow> addr set" where
  "foot (p, l, tns) = {p, l} \<union> fst ` set tns \<union> snd ` set tns"

lemma sensor_repr_cong:
  assumes "sensor_repr h g s" "heap_ok h'" "\<And>a. a \<in> foot g \<Longrightarrow> cells h' a = cells h a"
  shows "sensor_repr h' g s"
  using assms by (cases g) (auto intro: elem_list_cong)

lemma sensor_repr_live: "sensor_repr h g s \<Longrightarrow> a \<in> foot g \<Longrightarrow> cells h a \<noteq> None"
proof (cases g)
  case (fields p l tns)
  assume r: "sensor_repr h g s" and a: "a \<in> foot g"
  then have t: "temp_list h l tns (s_temps s)" using fields by simp
  note d = elem_list_dlist [OF t]
  show ?thesis
    using r a fields dlist_head [OF d] dlist_nodeE [OF d] elem_list_element [OF t]
    by (metis UnE emptyE foot.simps insertE option.distinct(1) sensor_repr.simps)
qed

lemma foot_fresh: "sensor_repr h g s \<Longrightarrow> heap_ok h \<Longrightarrow> a \<in> foot g \<Longrightarrow> a < next_addr h"
  by (meson heap_ok_live not_None_eq sensor_repr_live)

lemma read_sensor_ok [heap_simps]:
  "cells h p = Some (Obj (Sensor s)) \<Longrightarrow> heap_ok h \<Longrightarrow> read_sensor h p = Inr s"
  by (simp add: read_sensor_def load_ok)

lemma upd_sensor_ok [heap_simps]:
  "cells h p = Some (Obj (Sensor s)) \<Longrightarrow> heap_ok h \<Longrightarrow>
     upd_sensor h p f = Inr (written p (Obj (Sensor (f s))) h)"
  by (simp add: upd_sensor_def read_sensor_ok store_ok)

lemma read_temp_ok [heap_simps]:
  "cells h p = Some (Obj (Temp v)) \<Longrightarrow> heap_ok h \<Longrightarrow> read_temp h p = Inr v"
  by (simp add: read_temp_def load_ok)

lemma read_data_ok [heap_simps]:
  "cells h p = Some (Obj (Data d)) \<Longrightarrow> heap_ok h \<Longrightarrow> read_data h p = Inr d"
  by (simp add: read_data_def load_ok)

text \<open>A write to the struct leaves the list as it is.\<close>

lemma temp_list_written:
  assumes t: "temp_list h l tns vs" and p: "cells h p = Some (Obj (Sensor s))"
  shows "temp_list (written p (Obj (Sensor s')) h) l tns vs"
proof (rule elem_list_cong [OF t])
  show "heap_ok (written p (Obj (Sensor s')) h)"
    using dlist_ok [OF elem_list_dlist [OF t]] p by simp
  fix a assume a: "a \<in> {l} \<union> fst ` set tns \<union> snd ` set tns"
  then have "a \<noteq> p" using elem_list_apart [OF t p] p elem_list_element [OF t, of p] by force
  then show "cells (written p (Obj (Sensor s')) h) a = cells h a" by simp
qed

lemma sensor_written:
  assumes "sensor_repr h (p, l, tns) s" and "s_temps s' = s_temps s"
  shows "sensor_repr (written p (Obj (Sensor (sensor_struct l s'))) h) (p, l, tns) s'"
  using assms temp_list_written by auto

section \<open>The update implements the function\<close>

text \<open>The new temperature at the front of the list.\<close>

lemma prepend_measurement:
  assumes r: "sensor_repr h (p, l, tns) s" and ok: "heap_ok h" and b: "2 \<le> budget h"
  shows "\<exists>h3. update_sensor rnd h p v =
      (if length (s_temps s) < RUN_AVG_LENGTH
       then upd_sensor h3 p (running_avg_update (\<lambda>a. average_grow rnd a (int (Suc (length (s_temps s)))) v))
       else
         bindE (dpl_get_element_at_index h3 l (int RUN_AVG_LENGTH)) (\<lambda>q.
         bindE (read_temp h3 q) (\<lambda>remove.
         bindE (upd_sensor h3 p (running_avg_update
             (\<lambda>a. average_slide rnd a (int (Suc (length (s_temps s)))) remove v))) (\<lambda>h4.
         bindE (dpl_remove_at_index temp_callbacks h4 l (int RUN_AVG_LENGTH) False) (\<lambda>(_, h5).
         Inr h5))))) \<and>
     sensor_repr h3 (p, l, (Suc (next_addr h), next_addr h) # tns) (s\<lparr>s_temps := v # s_temps s\<rparr>) \<and>
     frame (foot (p, l, tns) \<union> {next_addr h, Suc (next_addr h)}) h h3 \<and>
     heap_ok h3 \<and> next_addr h3 = next_addr h + 2 \<and> budget h3 = budget h - 2"
proof -
  let ?e = "next_addr h" and ?h1 = "alloced (Obj (Temp v)) h" and ?st = "sensor_struct l s"
  have p: "cells h p = Some (Obj (Sensor ?st))" and t: "temp_list h l tns (s_temps s)"
    using r by simp_all
  have low: "a \<in> foot (p, l, tns) \<Longrightarrow> a < ?e" for a using foot_fresh [OF r ok] .
  have p1: "cells ?h1 p = Some (Obj (Sensor ?st))" using p low [of p] by simp
  have t1: "temp_list ?h1 l tns (s_temps s)"
    by (rule elem_list_cong [OF t]) (use ok low in auto)
  have e1: "cells ?h1 ?e = Some (Obj (Temp v))" "?e \<notin> snd ` set tns" "0 < budget ?h1"
    using low [of ?e] b by auto
  obtain h2 where h2: "dpl_insert_at_index temp_callbacks ?h1 l ?e (-1) False = Inr (l, h2)"
      "temp_list h2 l ((Suc ?e, ?e) # tns) (v # s_temps s)"
      "frame ({l, Suc ?e} \<union> fst ` set tns) ?h1 h2"
      "next_addr h2 = Suc (Suc ?e)" "budget h2 = budget h - 2"
    using push_temp [OF t1 e1, of temp_callbacks] by auto
  note d2 = elem_list_dlist [OF h2(2)]
  have ok2: "heap_ok h2" by (rule dlist_ok [OF d2])
  have "p \<notin> {l, Suc ?e} \<union> fst ` set tns"
    using elem_list_apart [OF t p] low [of p] by auto
  then have p2: "cells h2 p = Some (Obj (Sensor ?st))" using h2(3) p1 by (simp add: frame_def)
  let ?h3 = "written p (Obj (Sensor ?st)) h2"
  have sst: "sensor_struct l (s\<lparr>s_temps := v # s_temps s\<rparr>) = ?st" by (simp add: sensor_struct_def)
  have st: "temperatures_update (\<lambda>_. l) ?st = ?st" "temperatures ?st = l" by (simp_all add: sensor_struct_def)
  have t3: "temp_list ?h3 l ((Suc ?e, ?e) # tns) (v # s_temps s)"
    by (rule temp_list_written [OF h2(2) p2])
  then have r3: "sensor_repr ?h3 (p, l, (Suc ?e, ?e) # tns) (s\<lparr>s_temps := v # s_temps s\<rparr>)"
    by (simp add: sst)
  note d3 = elem_list_dlist [OF t3]
  have ok3: "heap_ok ?h3" by (rule dlist_ok [OF d3])
  have size: "dpl_size ?h3 l = Inr (int (Suc (length (s_temps s))))"
    using dpl_size_dlist [OF d3] elem_list_length [OF t3] by simp
  have first: "dpl_get_element_at_index ?h3 l 0 = Inr ?e"
    using dpl_get_element_at_index_dlist [OF d3] by (simp add: element_at_def ref_pos_def)
  have rd: "read_temp ?h3 ?e = Inr v"
    using elem_list_nth [OF t3, of 0] ok3 by (simp add: read_temp_ok)
  have m: "malloc (Obj (Temp v)) h = (?e, ?h1)" "?e \<noteq> 0" using b ok malloc_ok [of h] heap_ok_pos [of h] by simp_all
  have fr: "frame (foot (p, l, tns) \<union> {?e, Suc ?e}) h ?h3" using h2(3) by (auto simp: frame_def)
  have nx: "next_addr ?h3 = next_addr h + 2" "budget ?h3 = budget h - 2" using h2(4,5) by simp_all
  have rs: "read_sensor ?h1 p = Inr ?st" using p1 ok by (simp add: read_sensor_ok)
  have us: "upd_sensor h2 p (temperatures_update (\<lambda>_. l)) = Inr ?h3"
    using upd_sensor_ok [OF p2 ok2, of "temperatures_update (\<lambda>_. l)"] st(1) by simp
  have "update_sensor rnd h p v =
      (if length (s_temps s) < RUN_AVG_LENGTH
       then upd_sensor ?h3 p (running_avg_update (\<lambda>a. average_grow rnd a (int (Suc (length (s_temps s)))) v))
       else
         bindE (dpl_get_element_at_index ?h3 l (int RUN_AVG_LENGTH)) (\<lambda>q.
         bindE (read_temp ?h3 q) (\<lambda>remove.
         bindE (upd_sensor ?h3 p (running_avg_update
             (\<lambda>a. average_slide rnd a (int (Suc (length (s_temps s)))) remove v))) (\<lambda>h4.
         bindE (dpl_remove_at_index temp_callbacks h4 l (int RUN_AVG_LENGTH) False) (\<lambda>(_, h5).
         Inr h5)))))"
    by (simp add: update_sensor_def m rs us st(2) h2(1) size first rd Suc_le_eq
        heap_ok_pos [OF ok] del: int_Suc of_nat_Suc)
  then show ?thesis using fr r3 ok3 nx by blast
qed

text \<open>The oldest temperature leaves the average and the list; its node and its object are released.\<close>

lemma slide_measurement:
  assumes r: "sensor_repr h (p, l, tns) s" and ok: "heap_ok h"
    and n: "length (s_temps s) = Suc RUN_AVG_LENGTH"
  shows "\<exists>h'. bindE (dpl_get_element_at_index h l (int RUN_AVG_LENGTH)) (\<lambda>q.
         bindE (read_temp h q) (\<lambda>remove.
         bindE (upd_sensor h p (running_avg_update (\<lambda>a. average_slide rnd a k remove v))) (\<lambda>h4.
         bindE (dpl_remove_at_index temp_callbacks h4 l (int RUN_AVG_LENGTH) False) (\<lambda>(_, h5). Inr h5)))) = Inr h' \<and>
     sensor_repr h' (p, l, remove_nth RUN_AVG_LENGTH tns)
       (s\<lparr>s_avg := average_slide rnd (s_avg s) k (s_temps s ! RUN_AVG_LENGTH) v,
          s_temps := remove_nth RUN_AVG_LENGTH (s_temps s)\<rparr>) \<and>
     frame (foot (p, l, tns)) h h' \<and>
     cells h' (fst (tns ! RUN_AVG_LENGTH)) = None \<and> cells h' (snd (tns ! RUN_AVG_LENGTH)) = None \<and>
     heap_ok h' \<and> next_addr h' = next_addr h \<and> budget h' = budget h"
proof -
  have p: "cells h p = Some (Obj (Sensor (sensor_struct l s)))" and t: "temp_list h l tns (s_temps s)"
    using r by simp_all
  let ?old = "s_temps s ! RUN_AVG_LENGTH"
  let ?s' = "s\<lparr>s_avg := average_slide rnd (s_avg s) k ?old v\<rparr>"
  have st: "running_avg_update (\<lambda>a. average_slide rnd a k ?old v) (sensor_struct l s) = sensor_struct l ?s'"
    by (simp add: sensor_struct_def)
  let ?h4 = "written p (Obj (Sensor (sensor_struct l ?s'))) h"
  have "ref_pos (int RUN_AVG_LENGTH) (length (s_temps s)) = RUN_AVG_LENGTH" "s_temps s \<noteq> []"
    using n by (auto simp: ref_pos_def)
  note el = elem_list_get [OF t this]
  have rd: "read_temp h (snd (tns ! RUN_AVG_LENGTH)) = Inr ?old" using el(2) ok by (rule read_temp_ok)
  have r4: "sensor_repr ?h4 (p, l, tns) ?s'" by (rule sensor_written [OF r]) simp
  then have t4: "temp_list ?h4 l tns (s_temps s)" by simp
  from drop_oldest [OF this n, of temp_callbacks] obtain h5 where
    h5: "dpl_remove_at_index temp_callbacks ?h4 l (int RUN_AVG_LENGTH) False = Inr (l, h5)"
      "temp_list h5 l (remove_nth RUN_AVG_LENGTH tns) (remove_nth RUN_AVG_LENGTH (s_temps s))"
      "frame ({l} \<union> fst ` set tns \<union> snd ` set tns) ?h4 h5"
      "cells h5 (fst (tns ! RUN_AVG_LENGTH)) = None" "cells h5 (snd (tns ! RUN_AVG_LENGTH)) = None"
      "next_addr h5 = next_addr ?h4" "budget h5 = budget ?h4" by blast
  have "p \<notin> {l} \<union> fst ` set tns \<union> snd ` set tns"
    using elem_list_apart [OF t p] p elem_list_element [OF t, of p] by force
  then have "cells h5 p = Some (Obj (Sensor (sensor_struct l ?s')))"
    using h5(3) by (simp add: frame_def)
  then have "sensor_repr h5 (p, l, remove_nth RUN_AVG_LENGTH tns) (?s'\<lparr>s_temps := remove_nth RUN_AVG_LENGTH (s_temps s)\<rparr>)"
    using h5(2) by (simp add: sensor_struct_def)
  moreover have "frame (foot (p, l, tns)) h h5" using h5(3) by (auto simp: frame_def)
  ultimately show ?thesis
    using h5 el(1) rd upd_sensor_ok [OF p ok] st dlist_ok [OF elem_list_dlist [OF h5(2)]]
    by (intro exI [of _ h5]) simp
qed

lemma in_remove_nth: "x \<in> set xs \<Longrightarrow> i < length xs \<Longrightarrow> x \<in> set (remove_nth i xs) \<or> x = xs ! i"
  using id_take_nth_drop [of i xs] by (auto simp: remove_nth_def dest: arg_cong [of _ _ set])

lemma foot_remove_nth:
  assumes "a \<in> foot (p, l, xs)" and "a \<notin> foot (p, l, remove_nth i xs)" and "i < length xs"
  shows "a = fst (xs ! i) \<or> a = snd (xs ! i)"
proof -
  obtain x where x: "x \<in> set xs" "a = fst x \<or> a = snd x" using assms(1,2) by auto
  then have "x \<notin> set (remove_nth i xs)" using assms(2) by auto
  then show ?thesis using in_remove_nth [OF x(1) assms(3)] x(2) by blast
qed

text \<open>
  The whole update: what it has touched and does not keep is released.
\<close>

theorem update_sensor_implements:
  assumes r: "sensor_repr h (p, l, tns) s" and ok: "heap_ok h" and b: "2 \<le> budget h"
    and w: "window_ok s"
  shows "\<exists>h' tns'. update_sensor rnd h p v = Inr h' \<and>
     sensor_repr h' (p, l, tns') (take_measurement rnd v s) \<and>
     frame (foot (p, l, tns) \<union> {next_addr h, Suc (next_addr h)}) h h' \<and>
     foot (p, l, tns') \<subseteq> foot (p, l, tns) \<union> {next_addr h, Suc (next_addr h)} \<and>
     (\<forall>a \<in> foot (p, l, tns) \<union> {next_addr h, Suc (next_addr h)}. a \<notin> foot (p, l, tns') \<longrightarrow> cells h' a = None) \<and>
     heap_ok h' \<and> next_addr h' = next_addr h + 2 \<and> budget h' = budget h - 2"
proof -
  let ?tns = "(Suc (next_addr h), next_addr h) # tns" and ?n = "length (s_temps s)"
  let ?s = "s\<lparr>s_temps := v # s_temps s\<rparr>"
  have ft: "foot (p, l, ?tns) = foot (p, l, tns) \<union> {next_addr h, Suc (next_addr h)}" by auto
  from prepend_measurement [OF r ok b, of rnd v]
  obtain h3 where h3: "update_sensor rnd h p v =
      (if ?n < RUN_AVG_LENGTH
       then upd_sensor h3 p (running_avg_update (\<lambda>a. average_grow rnd a (int (Suc ?n)) v))
       else
         bindE (dpl_get_element_at_index h3 l (int RUN_AVG_LENGTH)) (\<lambda>q.
         bindE (read_temp h3 q) (\<lambda>remove.
         bindE (upd_sensor h3 p (running_avg_update (\<lambda>a. average_slide rnd a (int (Suc ?n)) remove v))) (\<lambda>h4.
         bindE (dpl_remove_at_index temp_callbacks h4 l (int RUN_AVG_LENGTH) False) (\<lambda>(_, h5). Inr h5)))))"
    and r3: "sensor_repr h3 (p, l, ?tns) ?s" and fr3: "frame (foot (p, l, ?tns)) h h3"
    and ok3: "heap_ok h3" and nx: "next_addr h3 = next_addr h + 2" "budget h3 = budget h - 2"
    unfolding ft by blast
  have p3: "cells h3 p = Some (Obj (Sensor (sensor_struct l ?s)))" using r3 by simp
  show ?thesis
  proof (cases "?n < RUN_AVG_LENGTH")
    case True
    let ?s' = "?s\<lparr>s_avg := average_grow rnd (s_avg s) (int (Suc ?n)) v\<rparr>"
    let ?h' = "written p (Obj (Sensor (sensor_struct l ?s'))) h3"
    have st: "running_avg_update (\<lambda>a. average_grow rnd a (int (Suc ?n)) v) (sensor_struct l ?s) = sensor_struct l ?s'"
      by (simp add: sensor_struct_def)
    have "update_sensor rnd h p v = Inr ?h'" using True h3 upd_sensor_ok [OF p3 ok3] st by simp
    moreover have "sensor_repr ?h' (p, l, ?tns) ?s'" by (rule sensor_written [OF r3]) simp
    moreover have "take_measurement rnd v s = ?s'" using True by (simp add: take_measurement_def)
    moreover have "frame (foot (p, l, ?tns)) h ?h'" using fr3 by (auto simp: frame_def)
    ultimately show ?thesis using ok3 p3 nx unfolding ft [symmetric]
      by (intro exI [of _ ?h'] exI [of _ ?tns]) simp
  next
    case False
    then have n: "length (s_temps ?s) = Suc RUN_AVG_LENGTH" using w by (simp add: window_ok_def)
    let ?tns' = "remove_nth RUN_AVG_LENGTH ?tns"
    from slide_measurement [OF r3 ok3 n, of rnd "int (Suc ?n)" v] False h3 obtain h' where
      h': "update_sensor rnd h p v = Inr h'"
        "sensor_repr h' (p, l, ?tns') (?s\<lparr>s_avg := average_slide rnd (s_avg ?s) (int (Suc ?n)) (s_temps ?s ! RUN_AVG_LENGTH) v,
            s_temps := remove_nth RUN_AVG_LENGTH (s_temps ?s)\<rparr>)"
        "frame (foot (p, l, ?tns)) h3 h'"
        "cells h' (fst (?tns ! RUN_AVG_LENGTH)) = None" "cells h' (snd (?tns ! RUN_AVG_LENGTH)) = None"
        "heap_ok h'" "next_addr h' = next_addr h3" "budget h' = budget h3" by auto
    have "take_measurement rnd v s = ?s\<lparr>s_avg := average_slide rnd (s_avg ?s) (int (Suc ?n)) (s_temps ?s ! RUN_AVG_LENGTH) v,
        s_temps := remove_nth RUN_AVG_LENGTH (s_temps ?s)\<rparr>"
      using False by (simp add: take_measurement_def Let_def)
    then have "sensor_repr h' (p, l, ?tns') (take_measurement rnd v s)" using h'(2) by simp
    moreover have "foot (p, l, ?tns') \<subseteq> foot (p, l, ?tns)"
      using set_remove_nth_subset [of RUN_AVG_LENGTH ?tns] by auto
    moreover have "cells h' a = None" if "a \<in> foot (p, l, ?tns)" "a \<notin> foot (p, l, ?tns')" for a
    proof -
      have "RUN_AVG_LENGTH < length ?tns" using r3 n elem_list_length [of Temp h3 l ?tns "s_temps ?s"] by simp
      from foot_remove_nth [OF that this] h'(4,5) show ?thesis by metis
    qed
    moreover have "next_addr h' = next_addr h + 2" "budget h' = budget h - 2" using h'(7,8) nx by simp_all
    ultimately show ?thesis using h'(1,6) frame_trans [OF fr3 h'(3)] unfolding ft [symmetric] by blast
  qed
qed

end
