(* ===== verification/Datamgr_Store.thy ===== *)
theory Datamgr_Store
  imports Datamgr_Sensor
begin

text \<open>
  The whole state of the data manager: the list of sensors, every sensor with its own
  objects. Processing a measurement on the C heap implements a function on the list of
  abstract sensors, whose messages are the ones that the code logs.
\<close>

section \<open>The store and its abstract operation\<close>

text \<open>A sensor's node in the sensor list, and its objects.\<close>

type_synonym entry = "addr \<times> sensor_objs"

definition spine :: "addr \<Rightarrow> entry list \<Rightarrow> addr set" where
  "spine sl es = insert sl (fst ` set es)"

definition entry_nodes :: "entry list \<Rightarrow> dnode list" where
  "entry_nodes es = map (\<lambda>e. (fst e, fst (snd e))) es"

definition apart :: "addr \<Rightarrow> entry list \<Rightarrow> bool" where
  "apart sl es \<longleftrightarrow>
     (\<forall>e \<in> set es. foot (snd e) \<inter> spine sl es = {}) \<and>
     sorted_wrt (\<lambda>e e'. foot (snd e) \<inter> foot (snd e') = {}) es"

lemma apart_spine: "apart sl es \<Longrightarrow> i < length es \<Longrightarrow> foot (snd (es ! i)) \<inter> spine sl es = {}"
  by (simp add: apart_def)

lemma sorted_wrt_sym_nth:
  assumes "\<And>x y. P x y \<Longrightarrow> P y x"
  shows "sorted_wrt P xs \<longleftrightarrow> (\<forall>i < length xs. \<forall>j < length xs. i \<noteq> j \<longrightarrow> P (xs ! i) (xs ! j))"
proof -
  have "P (xs ! i) (xs ! j)"
    if "\<forall>i j. i < j \<longrightarrow> j < length xs \<longrightarrow> P (xs ! i) (xs ! j)" "i < length xs" "j < length xs" "i \<noteq> j" for i j
    using that assms [of "xs ! j" "xs ! i"] by (cases "i < j") auto
  then show ?thesis unfolding sorted_wrt_iff_nth_less by auto
qed

lemma apart_iff:
  "apart sl es \<longleftrightarrow>
     (\<forall>i < length es. foot (snd (es ! i)) \<inter> spine sl es = {} \<and>
        (\<forall>j < length es. i \<noteq> j \<longrightarrow> foot (snd (es ! i)) \<inter> foot (snd (es ! j)) = {}))"
proof -
  have "sorted_wrt (\<lambda>e e'. foot (snd e) \<inter> foot (snd e') = {}) es \<longleftrightarrow>
      (\<forall>i < length es. \<forall>j < length es. i \<noteq> j \<longrightarrow> foot (snd (es ! i)) \<inter> foot (snd (es ! j)) = {})"
    by (rule sorted_wrt_sym_nth) (simp only: Int_commute)
  then show ?thesis unfolding apart_def all_set_conv_all_nth by blast
qed

lemma apart_feet: "apart sl es \<Longrightarrow> i < length es \<Longrightarrow> j < length es \<Longrightarrow> i \<noteq> j \<Longrightarrow>
    foot (snd (es ! i)) \<inter> foot (snd (es ! j)) = {}"
  by (simp add: apart_iff)

definition sensors_repr :: "dm_heap \<Rightarrow> addr \<Rightarrow> entry list \<Rightarrow> sensor_state list \<Rightarrow> bool" where
  "sensors_repr h sl es ss \<longleftrightarrow>
     dlist h sl (entry_nodes es) \<and> length es = length ss \<and> apart sl es \<and>
     (\<forall>i < length ss. sensor_repr h (snd (es ! i)) (ss ! i))"

definition sensor_index :: "16 word \<Rightarrow> sensor_state list \<Rightarrow> int" where
  "sensor_index i ss = index_where (\<lambda>s. s_id s = i) ss"

definition measured :: "(rat \<Rightarrow> double) \<Rightarrow> sensor_data_t \<Rightarrow> sensor_state \<Rightarrow> sensor_state" where
  "measured rnd d s = (take_measurement rnd (data_value d) s)\<lparr>s_last := data_ts d\<rparr>"

definition store_update :: "(rat \<Rightarrow> double) \<Rightarrow> sensor_data_t \<Rightarrow> sensor_state list \<Rightarrow> sensor_state list" where
  "store_update rnd d ss =
     (let k = sensor_index (data_id d) ss in
      if k = -1 then ss else ss[nat k := measured rnd d (ss ! nat k)])"

definition store_msgs :: "(rat \<Rightarrow> double) \<Rightarrow> sensor_data_t \<Rightarrow> sensor_state list \<Rightarrow> string list" where
  "store_msgs rnd d ss =
     (let k = sensor_index (data_id d) ss in
      if k = -1 then [invalid_id_msg (data_id d)]
      else threshold_msgs (sensor_struct 0 (measured rnd d (ss ! nat k))) d)"

fun store_run :: "(rat \<Rightarrow> double) \<Rightarrow> sensor_data_t list \<Rightarrow> sensor_state list \<Rightarrow> string list \<times> sensor_state list" where
  "store_run rnd [] ss = ([], ss)"
| "store_run rnd (d # ds) ss =
     (let (ms, ss') = store_run rnd ds (store_update rnd d ss) in (store_msgs rnd d ss @ ms, ss'))"

lemma length_store_update [simp]: "length (store_update rnd d ss) = length ss"
  by (simp add: store_update_def Let_def)

lemma measured_fields [simp]:
  "s_id (measured rnd d s) = s_id s" "s_room (measured rnd d s) = s_room s"
  "s_last (measured rnd d s) = data_ts d"
  "s_avg (measured rnd d s) = s_avg (take_measurement rnd (data_value d) s)"
  "s_temps (measured rnd d s) = s_temps (take_measurement rnd (data_value d) s)"
  by (simp_all add: measured_def)

lemma measured_window: "window_ok s \<Longrightarrow> window_ok (measured rnd d s)"
  using take_measurement_window [of s rnd "data_value d"] by (simp add: window_ok_def)

lemma store_update_ids [simp]: "map s_id (store_update rnd d ss) = map s_id ss"
proof -
  have "s_id (ss[k := measured rnd d (ss ! k)] ! i) = s_id (ss ! i)" if "i < length ss" for i k
    using that by (cases "k = i") simp_all
  then show ?thesis by (auto simp: store_update_def Let_def intro!: nth_equalityI)
qed

lemma store_update_window:
  "\<forall>s \<in> set ss. window_ok s \<Longrightarrow> \<forall>s \<in> set (store_update rnd d ss). window_ok s"
proof -
  assume w: "\<forall>s \<in> set ss. window_ok s"
  let ?k = "sensor_index (data_id d) ss"
  show ?thesis
  proof (cases "?k = -1")
    case False
    then have "nat ?k < length ss" unfolding sensor_index_def using index_where_found by metis
    then have "window_ok (measured rnd d (ss ! nat ?k))" using w measured_window by simp
    then show ?thesis using w set_update_subset_insert [of ss "nat ?k"]
      by (auto simp: store_update_def Let_def)
  qed (use w in \<open>simp add: store_update_def\<close>)
qed

section \<open>Finding the sensor\<close>

lemma sensors_sensor:
  assumes "sensors_repr h sl es ss" and "i < length ss"
  shows "cells h (fst (snd (es ! i))) =
      Some (Obj (Sensor (sensor_struct (fst (snd (snd (es ! i)))) (ss ! i))))"
    and "fst (snd (es ! i)) \<noteq> 0"
proof -
  obtain a p l tns where e: "es ! i = (a, p, l, tns)" by (metis prod.collapse)
  have "sensor_repr h (snd (es ! i)) (ss ! i)" using assms by (simp add: sensors_repr_def)
  then show c: "cells h (fst (snd (es ! i))) =
      Some (Obj (Sensor (sensor_struct (fst (snd (snd (es ! i)))) (ss ! i))))"
    by (simp add: e)
  have "heap_ok h" using assms(1) dlist_ok by (auto simp: sensors_repr_def)
  from heap_ok_live [OF this c] show "fst (snd (es ! i)) \<noteq> 0" by simp
qed

lemma sensors_size: "sensors_repr h sl es ss \<Longrightarrow> dpl_size h sl = Inr (int (length ss))"
  using dpl_size_dlist [of h sl "entry_nodes es"] by (simp add: sensors_repr_def entry_nodes_def)

lemma sensors_get:
  assumes r: "sensors_repr h sl es ss" and k: "k < length ss"
  shows "dpl_get_element_at_index h sl (int k) = Inr (fst (snd (es ! k)))"
    and "read_sensor h (fst (snd (es ! k))) = Inr (sensor_struct (fst (snd (snd (es ! k)))) (ss ! k))"
proof -
  have d: "dlist h sl (entry_nodes es)" and len: "length es = length ss"
    using r by (simp_all add: sensors_repr_def)
  have "ref_pos (int k) (length (entry_nodes es)) = k" "entry_nodes es \<noteq> []"
    using k len by (auto simp: entry_nodes_def ref_pos_def)
  then show "dpl_get_element_at_index h sl (int k) = Inr (fst (snd (es ! k)))"
    using dpl_get_element_at_index_dlist [OF d, of "int k"] k len
    by (simp add: element_at_def) (simp add: entry_nodes_def)
  show "read_sensor h (fst (snd (es ! k))) = Inr (sensor_struct (fst (snd (snd (es ! k)))) (ss ! k))"
    by (rule read_sensor_ok [OF sensors_sensor(1) [OF r k] dlist_ok [OF d]])
qed

lemma sensors_length: "sensors_repr h sl es ss \<Longrightarrow> length ss < next_addr h"
  using dlist_length [of h sl "entry_nodes es"] by (simp add: sensors_repr_def entry_nodes_def)

definition the_id :: "dm_heap \<Rightarrow> addr \<Rightarrow> 16 word" where
  "the_id h p = (case id_at h p of Inr i \<Rightarrow> i | Inl _ \<Rightarrow> 0)"

lemma id_at_sensor: "cells h p = Some (Obj (Sensor s)) \<Longrightarrow> heap_ok h \<Longrightarrow> id_at h p = Inr (sensor_id s)"
  and id_at_data: "cells h p = Some (Obj (Data d)) \<Longrightarrow> heap_ok h \<Longrightarrow> id_at h p = Inr (data_id d)"
  by (simp_all add: id_at_def load_ok)

lemma index_where_pointwise:
  "length xs = length ys \<Longrightarrow> (\<And>i. i < length ys \<Longrightarrow> P (xs ! i) = Q (ys ! i)) \<Longrightarrow>
     index_where P xs = index_where Q ys"
proof (induction xs ys rule: list_induct2)
  case (Cons x xs y ys)
  have "P x = Q y" using Cons.prems [of 0] by simp
  moreover have "index_where P xs = index_where Q ys"
    using Cons.prems [of "Suc i" for i] by (intro Cons.IH) simp
  ultimately show ?case by simp
qed simp

lemma find_measured_sensor:
  assumes r: "sensors_repr h sl es ss" and b: "cells h b = Some (Obj (Data d))"
  shows "dpl_get_index_of_element (sensor_callbacks raw) h sl b = Inr (sensor_index (data_id d) ss)"
proof -
  have d: "dlist h sl (entry_nodes es)" and len: "length es = length ss"
    using r by (simp_all add: sensors_repr_def)
  have ok: "heap_ok h" by (rule dlist_ok [OF d])
  let ?cmp = "\<lambda>x y. compare_ids (the_id h x) (the_id h y)"
  have nth: "snd (entry_nodes es ! i) = fst (snd (es ! i))" if "i < length ss" for i
    using that len by (simp add: entry_nodes_def)
  have id: "id_at h (fst (snd (es ! i))) = Inr (s_id (ss ! i))" if "i < length ss" for i
    using id_at_sensor [OF sensors_sensor(1) [OF r that] ok] by (simp add: sensor_struct_def)
  have known: "\<exists>i. id_at h x = Inr i" if x: "x \<in> insert b (snd ` set (entry_nodes es))" for x
  proof (cases "x = b")
    case False
    then obtain i where "i < length ss" "x = fst (snd (es ! i))"
      using x len by (auto simp: entry_nodes_def in_set_conv_nth)
    then show ?thesis using id by blast
  qed (use id_at_data [OF b ok] in blast)
  have "compares (sensor_callbacks raw) h ?cmp (insert b (snd ` set (entry_nodes es)))"
    unfolding compares_def
  proof (intro ballI impI)
    fix x y assume "x \<in> insert b (snd ` set (entry_nodes es))" "y \<in> insert b (snd ` set (entry_nodes es))"
    then obtain i j where "id_at h x = Inr i" "id_at h y = Inr j" using known by meson
    then show "element_compare (sensor_callbacks raw) h x y = Inr (?cmp x y)"
      by (simp add: sensor_callbacks_def sensor_compare_def the_id_def)
  qed
  from dpl_get_index_of_element_dlist [OF d this]
  have "dpl_get_index_of_element (sensor_callbacks raw) h sl b =
      Inr (index_where (matches ?cmp b) (map snd (entry_nodes es)))" .
  moreover have "index_where (matches ?cmp b) (map snd (entry_nodes es)) = sensor_index (data_id d) ss"
    unfolding sensor_index_def
  proof (rule index_where_pointwise)
    fix i assume i: "i < length ss"
    have "matches ?cmp b (fst (snd (es ! i))) = (s_id (ss ! i) = data_id d)"
      using sensors_sensor(2) [OF r i] id [OF i] id_at_data [OF b ok] heap_ok_live [OF ok b]
      by (simp add: matches_def the_id_def compare_ids_zero)
    then show "matches ?cmp b (map snd (entry_nodes es) ! i) = (s_id (ss ! i) = data_id d)"
      using nth [OF i] i len by (simp add: entry_nodes_def)
  qed (simp add: entry_nodes_def len)
  ultimately show ?thesis by simp
qed

section \<open>Changing one sensor\<close>

lemma entry_nodes_update:
  "i < length es \<Longrightarrow> fst e = fst (es ! i) \<Longrightarrow> fst (snd e) = fst (snd (es ! i)) \<Longrightarrow>
     entry_nodes (es[i := e]) = entry_nodes es"
  by (auto simp: entry_nodes_def map_update intro!: nth_equalityI simp: nth_list_update)

lemma fst_set_update: "i < length es \<Longrightarrow> fst e = fst (es ! i) \<Longrightarrow> fst ` set (es[i := e]) = fst ` set es"
  by (metis list.set_map list_update_id map_update)

lemma apart_update:
  assumes a: "apart sl es" and i: "i < length es"
    and e: "fst e = fst (es ! i)" and sub: "foot (snd e) \<subseteq> foot (snd (es ! i)) \<union> F"
    and fresh: "F \<inter> spine sl es = {}" "\<And>j. j < length es \<Longrightarrow> F \<inter> foot (snd (es ! j)) = {}"
  shows "apart sl (es[i := e])"
proof -
  have sp: "spine sl (es[i := e]) = spine sl es" using fst_set_update [OF i e] by (simp add: spine_def)
  have grown: "foot (snd (es[i := e] ! j)) \<subseteq> foot (snd (es ! j)) \<union> (if j = i then F else {})" if "j < length es" for j
    using that sub by (auto simp: nth_list_update)
  have out: "foot (snd (es[i := e] ! j)) \<inter> A = {}"
    if "j < length es" "foot (snd (es ! j)) \<inter> A = {}" "j = i \<Longrightarrow> F \<inter> A = {}" for j A
    using grown [OF that(1)] that(2,3) by (cases "j = i") auto
  show ?thesis
    unfolding apart_iff sp length_list_update
  proof (intro allI impI conjI)
    fix j assume j: "j < length es"
    show "foot (snd (es[i := e] ! j)) \<inter> spine sl es = {}"
      using apart_spine [OF a j] j fresh(1) by (intro out)
    fix k assume k: "k < length es" and jk: "j \<noteq> k"
    have "foot (snd (es ! k)) \<inter> foot (snd (es[i := e] ! j)) = {}"
      using apart_feet [OF a k j] j k jk fresh(2) [OF k] out [of j "foot (snd (es ! k))"] by (auto simp: Int_commute)
    then have "foot (snd (es[i := e] ! k)) \<inter> foot (snd (es[i := e] ! j)) = {}"
      using k jk j fresh(2) [OF j] by (intro out) auto
    then show "foot (snd (es[i := e] ! j)) \<inter> foot (snd (es[i := e] ! k)) = {}" by blast
  qed
qed

lemma sensors_live:
  assumes r: "sensors_repr h sl es ss"
  shows "a \<in> spine sl es \<Longrightarrow> a < next_addr h"
    and "i < length es \<Longrightarrow> a \<in> foot (snd (es ! i)) \<Longrightarrow> a < next_addr h"
proof -
  have d: "dlist h sl (entry_nodes es)" using r by (simp add: sensors_repr_def)
  have ok: "heap_ok h" by (rule dlist_ok [OF d])
  show "a < next_addr h" if "a \<in> spine sl es"
  proof -
    have "cells h a \<noteq> None"
      using that dlist_head [OF d] dlist_nodeE [OF d, of a] by (force simp: spine_def entry_nodes_def)
    then show ?thesis using heap_ok_live [OF ok, of a] by auto
  qed
  show "a < next_addr h" if "i < length es" "a \<in> foot (snd (es ! i))"
    using that foot_fresh [OF _ ok, of "snd (es ! i)" "ss ! i" a] r by (simp add: sensors_repr_def)
qed

lemma sensors_update:
  assumes r: "sensors_repr h sl es ss" and i: "i < length ss"
    and e: "es ! i = (a, p, l, tns)" and ok': "heap_ok h'"
    and fr: "frame (foot (p, l, tns) \<union> {next_addr h, Suc (next_addr h)}) h h'"
    and sub: "foot (p, l, tns') \<subseteq> foot (p, l, tns) \<union> {next_addr h, Suc (next_addr h)}"
    and s': "sensor_repr h' (p, l, tns') s'"
  shows "sensors_repr h' sl (es[i := (a, p, l, tns')]) (ss[i := s'])"
proof -
  let ?F = "{next_addr h, Suc (next_addr h)}" and ?es = "es[i := (a, p, l, tns')]"
  have d: "dlist h sl (entry_nodes es)" and len: "length es = length ss" and ap: "apart sl es"
    and all: "\<And>j. j < length ss \<Longrightarrow> sensor_repr h (snd (es ! j)) (ss ! j)"
    using r by (simp_all add: sensors_repr_def)
  have ile: "i < length es" using i len by simp
  have fresh: "?F \<inter> spine sl es = {}" "\<And>j. j < length es \<Longrightarrow> ?F \<inter> foot (snd (es ! j)) = {}"
    using sensors_live [OF r] by fastforce+
  have nodes: "entry_nodes ?es = entry_nodes es" by (rule entry_nodes_update) (use ile e in simp_all)
  have "dlist h' sl (entry_nodes es)"
  proof (rule dlist_frame [OF d ok' fr])
    have "insert sl (fst ` set (entry_nodes es)) = spine sl es"
      by (force simp: spine_def entry_nodes_def)
    moreover have "foot (p, l, tns) \<inter> spine sl es = {}" using apart_spine [OF ap ile] e by simp
    ultimately show "(foot (p, l, tns) \<union> ?F) \<inter> insert sl (fst ` set (entry_nodes es)) = {}"
      using fresh(1) by blast
  qed
  moreover have "apart sl ?es"
    using ap ile _ _ fresh by (rule apart_update) (use e sub in simp_all)
  moreover have "sensor_repr h' (snd (?es ! j)) (ss[i := s'] ! j)" if j: "j < length ss" for j
  proof (cases "j = i")
    case False
    have "foot (snd (es ! j)) \<inter> (foot (p, l, tns) \<union> ?F) = {}"
      using apart_feet [OF ap _ ile, of j] j len False e fresh(2) [of j] by auto
    then have "sensor_repr h' (snd (es ! j)) (ss ! j)"
      using frameD [OF fr] by (intro sensor_repr_cong [OF all [OF j] ok']) blast
    then show ?thesis using False by simp
  qed (use s' i len in simp)
  ultimately show ?thesis using nodes len by (simp add: sensors_repr_def)
qed

text \<open>
  The addresses of a store. \<open>owns h A\<close>: everything that is live is in \<open>A\<close>. Operations
  that keep what they leave alive inside the store's addresses leak nothing.
\<close>

definition footprint :: "addr \<Rightarrow> entry list \<Rightarrow> addr set" where
  "footprint sl es = spine sl es \<union> (\<Union>e \<in> set es. foot (snd e))"

definition owns :: "dm_heap \<Rightarrow> addr set \<Rightarrow> bool" where
  "owns h A \<longleftrightarrow> (\<forall>a. cells h a \<noteq> None \<longrightarrow> a \<in> A)"

lemma ownsD: "owns h A \<Longrightarrow> cells h a \<noteq> None \<Longrightarrow> a \<in> A"
  by (simp add: owns_def)

lemma foot_footprint: "e \<in> set es \<Longrightarrow> a \<in> foot (snd e) \<Longrightarrow> a \<in> footprint sl es"
  unfolding footprint_def by (rule UnI2, rule UN_I)

lemma footprint_update:
  assumes i: "i < length es" and e: "fst e = fst (es ! i)"
    and a: "a \<in> footprint sl es" "a \<notin> foot (snd (es ! i))"
  shows "a \<in> footprint sl (es[i := e])"
proof -
  have sp: "spine sl (es[i := e]) = spine sl es" using fst_set_update [OF i e] by (simp add: spine_def)
  show ?thesis
  proof (cases "a \<in> spine sl es")
    case False
    then obtain e' where "e' \<in> set es" "a \<in> foot (snd e')" using a(1) unfolding footprint_def by blast
    then obtain j where j: "j < length es" "a \<in> foot (snd (es ! j))" by (metis in_set_conv_nth)
    then have "j \<noteq> i" using a(2) by auto
    then have "es ! j \<in> set (es[i := e])" using j(1) by (metis length_list_update nth_list_update_neq nth_mem)
    then show ?thesis using j(2) by (rule foot_footprint)
  qed (simp add: footprint_def sp)
qed

lemma owns_update:
  assumes o: "owns h (footprint sl es \<union> X)" and i: "i < length es" and e: "fst e = fst (es ! i)"
    and fr: "frame (foot (snd (es ! i)) \<union> F) h h'"
    and dead: "\<forall>a \<in> foot (snd (es ! i)) \<union> F. a \<notin> foot (snd e) \<longrightarrow> cells h' a = None"
  shows "owns h' (footprint sl (es[i := e]) \<union> X)"
  unfolding owns_def
proof (intro allI impI)
  fix a assume live: "cells h' a \<noteq> None"
  show "a \<in> footprint sl (es[i := e]) \<union> X"
  proof (cases "a \<in> foot (snd (es ! i)) \<union> F")
    case True
    then have "a \<in> foot (snd e)" using bspec [OF dead True] live by metis
    with set_update_memI [OF i] have "a \<in> footprint sl (es[i := e])" by (rule foot_footprint)
    then show ?thesis by (rule UnI1)
  next
    case False
    have "cells h a \<noteq> None" using live frameD [OF fr False] by simp
    then consider "a \<in> footprint sl es" | "a \<in> X" using ownsD [OF o] by blast
    then show ?thesis
    proof cases
      case 1
      from footprint_update [OF i e this] False show ?thesis by (metis UnI1)
    qed simp
  qed
qed

section \<open>Processing implements the abstract operation\<close>

lemma threshold_msgs_struct: "threshold_msgs (sensor_struct l s) d = threshold_msgs (sensor_struct 0 s) d"
  by (simp add: threshold_msgs_def sensor_struct_def)

lemma data_not_in_foot:
  assumes s: "sensor_repr h (p, l, tns) s" and b: "cells h b = Some (Obj (Data d))"
  shows "b \<notin> foot (p, l, tns)"
proof -
  have t: "temp_list h l tns (s_temps s)" and p: "b \<noteq> p" using s b by auto
  have "b \<notin> snd ` set tns"
  proof
    assume "b \<in> snd ` set tns"
    then obtain v where "cells h b = Some (Obj (Temp v))" using elem_list_element [OF t] by metis
    then show False using b by simp
  qed
  then show ?thesis using p elem_list_apart [OF t b] by simp
qed

theorem process_measurement_implements:
  assumes r: "sensors_repr h sl es ss" and b: "cells h b = Some (Obj (Data d))"
    and w: "\<forall>s \<in> set ss. window_ok s" and room: "sensor_index (data_id d) ss \<noteq> -1 \<Longrightarrow> 2 \<le> budget h"
  shows "\<exists>h' es'. process_measurement raw rnd h sl b = Inr (store_msgs rnd d ss, h') \<and>
     sensors_repr h' sl es' (store_update rnd d ss) \<and>
     cells h' b = Some (Obj (Data d)) \<and>
     budget h' = budget h - (if sensor_index (data_id d) ss = -1 then 0 else 2) \<and>
     (\<forall>X. owns h (footprint sl es \<union> X) \<longrightarrow> owns h' (footprint sl es' \<union> X))"
proof -
  have d: "dlist h sl (entry_nodes es)" and len: "length es = length ss" and ap: "apart sl es"
    using r by (simp_all add: sensors_repr_def)
  have ok: "heap_ok h" by (rule dlist_ok [OF d])
  let ?k = "sensor_index (data_id d) ss"
  note find = find_measured_sensor [OF r b, of raw] and rd = read_data_ok [OF b ok]
  show ?thesis
  proof (cases "?k = -1")
    case True
    then have "process_measurement raw rnd h sl b = Inr (store_msgs rnd d ss, h)"
      by (simp add: process_measurement_def find rd store_msgs_def)
    then show ?thesis using r b True by (auto simp: store_update_def)
  next
    case False
    define i where "i = nat ?k"
    have k: "0 \<le> ?k" and i: "i < length ss"
      using index_where_found [OF refl, of "\<lambda>s. s_id s = data_id d" ss] False
      by (auto simp: sensor_index_def i_def)
    obtain a p l tns where e: "es ! i = (a, p, l, tns)" by (metis prod.collapse)
    have s: "sensor_repr h (p, l, tns) (ss ! i)" and wi: "window_ok (ss ! i)"
      using r i e w by (auto simp: sensors_repr_def)
    have ne: "entry_nodes es \<noteq> []" and pos: "ref_pos ?k (length (entry_nodes es)) = i"
      using i len k by (auto simp: entry_nodes_def ref_pos_def i_def)
    have el: "dpl_get_element_at_index h sl ?k = Inr p"
      using dpl_get_element_at_index_dlist [OF d, of ?k] ne i len e
      by (simp add: element_at_def pos) (simp add: entry_nodes_def)
    obtain h1 tns' where h1: "update_sensor rnd h p (data_value d) = Inr h1"
        "sensor_repr h1 (p, l, tns') (take_measurement rnd (data_value d) (ss ! i))"
        "frame (foot (p, l, tns) \<union> {next_addr h, Suc (next_addr h)}) h h1"
        "foot (p, l, tns') \<subseteq> foot (p, l, tns) \<union> {next_addr h, Suc (next_addr h)}"
        "heap_ok h1" "budget h1 = budget h - 2"
        "\<forall>a \<in> foot (p, l, tns) \<union> {next_addr h, Suc (next_addr h)}. a \<notin> foot (p, l, tns') \<longrightarrow> cells h1 a = None"
      using update_sensor_implements [OF s ok room [OF False] wi, of rnd "data_value d"] by blast
    let ?s' = "measured rnd d (ss ! i)"
    let ?h2 = "written p (Obj (Sensor (sensor_struct l ?s'))) h1"
    have p1: "cells h1 p = Some (Obj (Sensor (sensor_struct l (take_measurement rnd (data_value d) (ss ! i)))))"
      using h1(2) by simp
    have st: "last_modified_update (\<lambda>_. data_ts d)
        (sensor_struct l (take_measurement rnd (data_value d) (ss ! i))) = sensor_struct l ?s'"
      by (simp add: sensor_struct_def)
    have up: "upd_sensor h1 p (last_modified_update (\<lambda>_. data_ts d)) = Inr ?h2"
      using upd_sensor_ok [OF p1 h1(5)] st by simp
    have ok2: "heap_ok ?h2" using h1(5) p1 by simp
    have s2: "sensor_repr ?h2 (p, l, tns') ?s'" by (rule sensor_written [OF h1(2)]) simp
    have rd2: "read_sensor ?h2 p = Inr (sensor_struct l ?s')" using ok2 by (simp add: read_sensor_ok)
    have pm: "process_measurement raw rnd h sl b = Inr (threshold_msgs (sensor_struct l ?s') d, ?h2)"
      using k by (simp add: process_measurement_def find rd el h1(1) up rd2)
    have ms: "threshold_msgs (sensor_struct l ?s') d = store_msgs rnd d ss"
      using False by (simp add: store_msgs_def Let_def i_def threshold_msgs_struct [of l])
    have fr: "frame (foot (p, l, tns) \<union> {next_addr h, Suc (next_addr h)}) h ?h2"
      using h1(3) by (auto simp: frame_def)
    from sensors_update [OF r i e ok2 fr h1(4) s2]
    have su: "sensors_repr ?h2 sl (es[i := (a, p, l, tns')]) (store_update rnd d ss)"
      using False by (simp add: store_update_def Let_def i_def)
    have "b \<notin> foot (p, l, tns) \<union> {next_addr h, Suc (next_addr h)}"
      using data_not_in_foot [OF s b] heap_ok_live [OF ok b] by simp
    then have "cells ?h2 b = Some (Obj (Data d))" using frameD [OF fr] b by metis
    moreover have "owns ?h2 (footprint sl (es[i := (a, p, l, tns')]) \<union> X)" if "owns h (footprint sl es \<union> X)" for X
      using fr h1(7) e i len by (intro owns_update [OF that, where F = "{next_addr h, Suc (next_addr h)}"]) auto
    ultimately show ?thesis using pm ms su h1(6) False
      by (intro exI [of _ ?h2] exI [of _ "es[i := (a, p, l, tns')]"]) (simp del: cells_written)
  qed
qed

end
