(* ===== verification/Datamgr_Map.thy ===== *)
theory Datamgr_Map
  imports Datamgr_Store "HOL-Library.Multiset"
begin

text \<open>
  Reading the room map: the pairs of numbers that the reading loop finds in the text of the
  file, and the store of sensors that it builds from them on the heap. A text with one line
  \<open>room sensor\<close> for each pair is read back as these pairs.
\<close>

section \<open>One more sensor\<close>

lemma sensors_repr_list_all2:
  "sensors_repr h sl es ss \<longleftrightarrow>
     dlist h sl (entry_nodes es) \<and> apart sl es \<and> list_all2 (\<lambda>e s. sensor_repr h (snd e) s) es ss"
  by (auto simp: sensors_repr_def list_all2_conv_all_nth)

lemma entry_nodes_insert: "entry_nodes (insert_nth k e es) = insert_nth k (fst e, fst (snd e)) (entry_nodes es)"
  by (simp add: entry_nodes_def map_insert_nth)

lemma spine_nodes: "insert sl (fst ` set (entry_nodes es)) = spine sl es"
  by (force simp: spine_def entry_nodes_def)

lemma sorted_wrt_insert_nth:
  "sorted_wrt P xs \<Longrightarrow> (\<And>y. y \<in> set xs \<Longrightarrow> P x y \<and> P y x) \<Longrightarrow> sorted_wrt P (insert_nth k x xs)"
proof -
  assume s: "sorted_wrt P xs" and x: "\<And>y. y \<in> set xs \<Longrightarrow> P x y \<and> P y x"
  have "sorted_wrt P (take k xs @ drop k xs)" using s by simp
  then show ?thesis using x
    by (auto simp: insert_nth_def sorted_wrt_append dest: in_set_takeD in_set_dropD
        simp del: append_take_drop_id)
qed

lemma apart_insert:
  assumes a: "apart sl es" and foot: "foot (snd e) \<inter> spine sl es = {}" "fst e \<notin> foot (snd e)"
    and feet: "\<And>e'. e' \<in> set es \<Longrightarrow> foot (snd e) \<inter> foot (snd e') = {} \<and> fst e \<notin> foot (snd e')"
  shows "apart sl (insert_nth k e es)"
proof -
  have "spine sl (insert_nth k e es) = insert (fst e) (spine sl es)"
    by (auto simp: spine_def)
  moreover have "sorted_wrt (\<lambda>e e'. foot (snd e) \<inter> foot (snd e') = {}) (insert_nth k e es)"
  proof (rule sorted_wrt_insert_nth)
    show "sorted_wrt (\<lambda>e e'. foot (snd e) \<inter> foot (snd e') = {}) es" using a by (simp add: apart_def)
    show "foot (snd e) \<inter> foot (snd e') = {} \<and> foot (snd e') \<inter> foot (snd e) = {}" if "e' \<in> set es" for e'
      using feet [OF that] by blast
  qed
  ultimately show ?thesis using a foot feet by (auto simp: apart_def)
qed

definition new_sensor :: "sensor_t \<Rightarrow> 16 word \<Rightarrow> 16 word \<Rightarrow> sensor_state" where
  "new_sensor raw_sensor room i =
     \<lparr>s_id = i, s_room = room, s_avg = running_avg raw_sensor, s_last = last_modified raw_sensor,
      s_temps = []\<rparr>"

lemma add_sensor_implements:
  assumes r: "sensors_repr h sl es ss" and room: "3 \<le> budget h"
  shows "\<exists>h' es'. add_sensor raw h sl rm i = Inr (sl, h') \<and>
     sensors_repr h' sl es' (insert_nth (ins_pos 150 (length ss)) (new_sensor (raw (next_addr h)) rm i) ss) \<and>
     next_addr h' = next_addr h + 3 \<and> budget h' = budget h - 3 \<and>
     (\<forall>X. owns h (footprint sl es \<union> X) \<longrightarrow> owns h' (footprint sl es' \<union> X))"
proof -
  let ?p = "next_addr h" and ?l = "Suc (next_addr h)" and ?k = "ins_pos 150 (length ss)"
  let ?raw = "raw (next_addr h)"
  let ?s = "new_sensor ?raw rm i" and ?e = "(Suc (Suc (next_addr h)), next_addr h, Suc (next_addr h), [])"
  have d: "dlist h sl (entry_nodes es)" and len: "length es = length ss" and ap: "apart sl es"
    and all: "list_all2 (\<lambda>e s. sensor_repr h (snd e) s) es ss"
    using r sensors_repr_list_all2 [of h sl es ss] by (auto simp: sensors_repr_def)
  have ok: "heap_ok h" by (rule dlist_ok [OF d])
  have low: "a \<in> spine sl es \<Longrightarrow> a < ?p" "e \<in> set es \<Longrightarrow> a \<in> foot (snd e) \<Longrightarrow> a < ?p" for a e
    using sensors_live [OF r] by (auto simp: in_set_conv_nth)
  let ?h1 = "alloced (Obj (Sensor ?raw)) h"
  let ?h2 = "written ?p (Obj (Sensor (?raw\<lparr>sensor_id := i\<rparr>))) ?h1"
  let ?h3 = "written ?p (Obj (Sensor (?raw\<lparr>sensor_id := i, room_id := rm\<rparr>))) ?h2"
  have up: "malloc (Obj (Sensor ?raw)) h = (?p, ?h1)" "?p \<noteq> 0"
      "upd_sensor ?h1 ?p (sensor_id_update (\<lambda>_. i)) = Inr ?h2"
      "upd_sensor ?h2 ?p (room_id_update (\<lambda>_. rm)) = Inr ?h3"
    using room ok heap_ok_pos [OF ok] by (simp_all add: malloc_ok upd_sensor_ok)
  have ok3: "heap_ok ?h3" "0 < budget ?h3" using ok room by simp_all
  obtain h4 where h4: "dpl_create ?h3 = Inr (?l, h4)" "dlist h4 ?l []" "frame {?l} ?h3 h4"
      "next_addr h4 = Suc ?l" "budget h4 = budget h - 2"
    using dpl_create_ok [OF ok3] by auto
  have ok4: "heap_ok h4" by (rule dlist_ok [OF h4(2)])
  have p4: "cells h4 ?p = Some (Obj (Sensor (?raw\<lparr>sensor_id := i, room_id := rm\<rparr>)))"
    using frameD [OF h4(3), of ?p] by simp
  let ?st = "?raw\<lparr>sensor_id := i, room_id := rm, temperatures := ?l\<rparr>"
  let ?h5 = "written ?p (Obj (Sensor ?st)) h4"
  have up5: "upd_sensor h4 ?p (temperatures_update (\<lambda>_. ?l)) = Inr ?h5"
    using upd_sensor_ok [OF p4 ok4] by simp
  have ok5: "heap_ok ?h5" "0 < budget ?h5" using ok4 p4 h4(5) room by simp_all
  have old5: "cells ?h5 a = cells h a" if "a < ?p" for a
    using frameD [OF h4(3), of a] that by simp
  have d5: "dlist ?h5 sl (entry_nodes es)"
    by (rule dlist_cong [OF d ok5(1)]) (use old5 low(1) spine_nodes in blast)
  have k: "ins_pos 150 (length (entry_nodes es)) = ?k" by (simp add: entry_nodes_def len)
  obtain h6 where h6: "dpl_insert_at_index (sensor_callbacks raw) ?h5 sl ?p 150 False = Inr (sl, h6)"
      "dlist h6 sl (insert_nth ?k (Suc ?l, ?p) (entry_nodes es))"
      "frame ({sl, Suc ?l} \<union> fst ` set (entry_nodes es)) ?h5 h6"
      "next_addr h6 = Suc (Suc ?l)" "budget h6 = budget h - 3"
    using dpl_insert_at_index_dlist [OF d5 ok5(2), of "sensor_callbacks raw" ?p 150] h4(4,5)
    unfolding k by auto
  have ok6: "heap_ok h6" by (rule dlist_ok [OF h6(2)])
  have same: "cells h6 a = cells ?h5 a" if "a \<noteq> Suc ?l" "a \<notin> spine sl es" for a
    using that by (intro frameD [OF h6(3)]) (auto simp: spine_nodes [symmetric])
  have new: "cells h6 ?p = Some (Obj (Sensor ?st))" "cells h6 ?l = Some (DList 0)"
    using same [of ?p] same [of ?l] low(1) [of ?p] low(1) [of ?l] dlist_head [OF h4(2)] by auto
  have "sensor_repr h6 (snd ?e) ?s"
    using new ok6 by (simp add: new_sensor_def sensor_struct_def elem_list_def dlist_def)
  moreover have "list_all2 (\<lambda>e s. sensor_repr h6 (snd e) s) es ss"
  proof (rule list.rel_mono_strong [OF all])
    fix e s assume e: "e \<in> set es" and s: "sensor_repr h (snd e) s"
    show "sensor_repr h6 (snd e) s"
    proof (rule sensor_repr_cong [OF s ok6])
      fix a assume a: "a \<in> foot (snd e)"
      then have "a \<notin> spine sl es" using ap e by (auto simp: apart_def)
      then show "cells h6 a = cells h a" using same [of a] old5 [of a] low(2) [OF e a] by simp
    qed
  qed
  ultimately have "list_all2 (\<lambda>e s. sensor_repr h6 (snd e) s) (insert_nth ?k ?e es) (insert_nth ?k ?s ss)"
    unfolding insert_nth_def
    by (intro list_all2_appendI list_all2_takeI list_all2_dropI list.rel_intros(2))
  moreover have "apart sl (insert_nth ?k ?e es)"
  proof (rule apart_insert [OF ap])
    show "foot (snd ?e) \<inter> spine sl es = {}" using low(1) [of ?p] low(1) [of ?l] by auto
    show "foot (snd ?e) \<inter> foot (snd e') = {} \<and> fst ?e \<notin> foot (snd e')" if "e' \<in> set es" for e'
      using low(2) [OF that, of ?p] low(2) [OF that, of ?l] low(2) [OF that, of "Suc ?l"] by auto
  qed simp
  ultimately have "sensors_repr h6 sl (insert_nth ?k ?e es) (insert_nth ?k ?s ss)"
    using h6(2) by (simp add: sensors_repr_list_all2 entry_nodes_insert)
  moreover have "add_sensor raw h sl rm i = Inr (sl, h6)"
    using up h4(1) up5 h6(1) by (simp add: add_sensor_def)
  moreover have "owns h6 (footprint sl (insert_nth ?k ?e es) \<union> X)" if o: "owns h (footprint sl es \<union> X)" for X
    unfolding owns_def
  proof (intro allI impI)
    fix a assume live: "cells h6 a \<noteq> None"
    then have top: "a < ?p + 3" using heap_ok_live [OF ok6, of a] h6(4) by auto
    have fp: "footprint sl (insert_nth ?k ?e es) = footprint sl es \<union> {Suc ?l, ?p, ?l}"
      by (auto simp: footprint_def spine_def)
    show "a \<in> footprint sl (insert_nth ?k ?e es) \<union> X"
    proof (cases "a < ?p \<and> a \<notin> spine sl es")
      case True
      then have "cells h a \<noteq> None" using live same [of a] old5 [of a] by simp
      then show ?thesis unfolding fp using ownsD [OF o, of a] by simp
    next
      case False
      then have "a \<in> spine sl es \<or> a \<in> {?p, ?l, Suc ?l}" using top by auto
      then show ?thesis unfolding fp by (auto simp: footprint_def)
    qed
  qed
  ultimately show ?thesis using h6(4,5) by (intro exI [of _ h6] exI [of _ "insert_nth ?k ?e es"]) simp
qed

section \<open>The whole map\<close>

text \<open>The pairs (room, sensor) that the reading loop passes on.\<close>

function map_pairs :: "string \<Rightarrow> 16 word \<Rightarrow> 16 word \<Rightarrow> (16 word \<times> 16 word) list" where
  "map_pairs fp room_bfr sensor_bfr =
     (case fscanf_hd_hd fp room_bfr sensor_bfr of (n, room, sensor, rest) \<Rightarrow>
        if 0 < n then (room, sensor) # map_pairs rest room sensor else [])"
  by pat_completeness auto
termination
  by (relation "measure (\<lambda>(fp, r, s). length fp)") (auto dest: fscanf_hd_hd_shorter [OF sym])

declare map_pairs.simps [simp del]

text \<open>The sensors of a list of pairs, each inserted at position 150 at the latest.\<close>

fun add_sensors ::
    "(addr \<Rightarrow> sensor_t) \<Rightarrow> addr \<Rightarrow> (16 word \<times> 16 word) list \<Rightarrow> sensor_state list \<Rightarrow> sensor_state list" where
  "add_sensors raw a [] ss = ss"
| "add_sensors raw a ((room, i) # ps) ss =
     add_sensors raw (a + 3) ps (insert_nth (ins_pos 150 (length ss)) (new_sensor (raw a) room i) ss)"

theorem read_map_implements:
  "sensors_repr h sl es ss \<Longrightarrow> 3 * length (map_pairs fp r0 s0) \<le> budget h \<Longrightarrow>
   \<exists>h' es'. read_map raw fp r0 s0 h sl = Inr (sl, h') \<and>
     sensors_repr h' sl es' (add_sensors raw (next_addr h) (map_pairs fp r0 s0) ss) \<and>
     budget h' = budget h - 3 * length (map_pairs fp r0 s0) \<and>
     (\<forall>X. owns h (footprint sl es \<union> X) \<longrightarrow> owns h' (footprint sl es' \<union> X))"
proof (induction fp r0 s0 arbitrary: h es ss rule: map_pairs.induct)
  case (1 fp r0 s0)
  obtain n room sensor rest where f: "fscanf_hd_hd fp r0 s0 = (n, room, sensor, rest)"
    by (metis prod_cases4)
  show ?case
  proof (cases "0 < n")
    case True
    have p: "map_pairs fp r0 s0 = (room, sensor) # map_pairs rest room sensor"
      using True f by (subst map_pairs.simps) simp
    have "3 \<le> budget h" using 1 p by simp
    from add_sensor_implements [OF "1.prems"(1) this, of raw room sensor] obtain h1 es1 where
      h1: "add_sensor raw h sl room sensor = Inr (sl, h1)"
        "sensors_repr h1 sl es1 (insert_nth (ins_pos 150 (length ss)) (new_sensor (raw (next_addr h)) room sensor) ss)"
        "next_addr h1 = next_addr h + 3" "budget h1 = budget h - 3"
        "\<forall>X. owns h (footprint sl es \<union> X) \<longrightarrow> owns h1 (footprint sl es1 \<union> X)" by blast
    have "3 * length (map_pairs rest room sensor) \<le> budget h1" using 1 p h1(4) by simp
    from "1.IH" [OF f [symmetric] refl refl True h1(2) this] obtain h2 es2 where
      h2: "read_map raw rest room sensor h1 sl = Inr (sl, h2)"
        "sensors_repr h2 sl es2 (add_sensors raw (next_addr h + 3) (map_pairs rest room sensor)
           (insert_nth (ins_pos 150 (length ss)) (new_sensor (raw (next_addr h)) room sensor) ss))"
        "budget h2 = budget h1 - 3 * length (map_pairs rest room sensor)"
        "\<forall>X. owns h1 (footprint sl es1 \<union> X) \<longrightarrow> owns h2 (footprint sl es2 \<union> X)"
      using h1(3) by auto
    have "read_map raw fp r0 s0 h sl = Inr (sl, h2)"
      using True f h1(1) h2(1) by (subst read_map.simps) simp
    moreover have "sensors_repr h2 sl es2 (add_sensors raw (next_addr h) (map_pairs fp r0 s0) ss)"
        "budget h2 = budget h - 3 * length (map_pairs fp r0 s0)"
      using h2(2,3) p h1(4) by simp_all
    ultimately show ?thesis using h1(5) h2(4) by blast
  next
    case False
    then have "map_pairs fp r0 s0 = []" "read_map raw fp r0 s0 h sl = Inr (sl, h)"
      using f by (subst map_pairs.simps read_map.simps, simp)+
    then show ?thesis using "1.prems" by auto
  qed
qed

text \<open>
  The order in which the sensors of a map stand in the list: that of the file up to 151 lines; each
  later line goes in front of the last one.
\<close>

definition map_order :: "'a list \<Rightarrow> 'a list" where
  "map_order ps = foldl (\<lambda>l p. insert_nth (ins_pos 150 (length l)) p l) [] ps"

lemma mset_insert_nth [simp]: "mset (insert_nth i x xs) = add_mset x (mset xs)"
  by (metis append_take_drop_id insert_nth_def mset.simps(2) mset_append union_mset_add_mset_right)

lemma mset_map_order [simp]: "mset (map_order ps) = mset ps"
proof -
  have "mset (foldl (\<lambda>l p. insert_nth (ins_pos 150 (length l)) p l) l ps) = mset l + mset ps" for l
    by (induction ps arbitrary: l) simp_all
  then show ?thesis by (simp add: map_order_def)
qed

lemma map_order_short: "length ps \<le> 151 \<Longrightarrow> map_order ps = ps"
proof -
  have "length l + length ps \<le> 151 \<Longrightarrow> foldl (\<lambda>l p. insert_nth (ins_pos 150 (length l)) p l) l ps = l @ ps" for l
  proof (induction ps arbitrary: l)
    case (Cons p ps)
    then have "ins_pos 150 (length l) = length l" by (simp add: ins_pos_def)
    then show ?case using Cons by simp
  qed simp
  then show "length ps \<le> 151 \<Longrightarrow> map_order ps = ps" by (simp add: map_order_def)
qed

lemma add_sensors_order:
  "map (\<lambda>s. (s_room s, s_id s)) (add_sensors raw a ps []) = map_order ps"
proof -
  have "map (\<lambda>s. (s_room s, s_id s)) (add_sensors raw a ps ss) =
      foldl (\<lambda>l p. insert_nth (ins_pos 150 (length l)) p l) (map (\<lambda>s. (s_room s, s_id s)) ss) ps" for ss
    by (induction raw a ps ss rule: add_sensors.induct) (simp_all add: map_insert_nth new_sensor_def)
  then show ?thesis by (simp add: map_order_def)
qed

lemma add_sensors_temps:
  "\<forall>s \<in> set ss. s_temps s = [] \<Longrightarrow> \<forall>s \<in> set (add_sensors raw a ps ss). s_temps s = []"
proof (induction raw a ps ss rule: add_sensors.induct)
  case (2 raw a room i ps ss)
  then show ?case by (simp add: new_sensor_def)
qed simp

theorem datamgr_start_implements:
  assumes b: "3 * length (map_pairs fp r0 s0) + 2 \<le> n"
  shows "\<exists>sl bd h es. datamgr_start raw raw_data fp r0 s0 (empty_heap n) = Inr (sl, bd, h) \<and>
     sensors_repr h sl es (add_sensors raw 2 (map_pairs fp r0 s0) []) \<and>
     cells h bd = Some (Obj (Data raw_data)) \<and>
     budget h = n - 2 - 3 * length (map_pairs fp r0 s0) \<and> owns h (footprint sl es \<union> {bd})"
proof -
  have b0: "0 < budget (empty_heap n :: dm_heap)" using b by (simp add: empty_heap_def)
  have e: "next_addr (empty_heap n :: dm_heap) = 1" "budget (empty_heap n :: dm_heap) = n" by (simp_all add: empty_heap_def)
  obtain h1 where h1: "dpl_create (empty_heap n :: dm_heap) = Inr (1, h1)" "dlist h1 1 []"
      "next_addr h1 = 2" "budget h1 = n - 1" "frame {1} (empty_heap n) h1"
    using dpl_create_ok [OF heap_ok_empty b0, unfolded e] by (auto simp: numeral_2_eq_2)
  have r1: "sensors_repr h1 1 [] []" using h1(2) by (simp add: sensors_repr_def entry_nodes_def apart_def)
  have "3 * length (map_pairs fp r0 s0) \<le> budget h1" using b h1(4) by linarith
  from read_map_implements [OF r1 this, of raw] obtain h2 es where h2: "read_map raw fp r0 s0 h1 1 = Inr (1, h2)"
      "sensors_repr h2 1 es (add_sensors raw 2 (map_pairs fp r0 s0) [])"
      "budget h2 = n - 1 - 3 * length (map_pairs fp r0 s0)"
      "\<forall>X. owns h1 (footprint 1 [] \<union> X) \<longrightarrow> owns h2 (footprint 1 es \<union> X)"
    unfolding h1(3,4) by blast
  have "owns h1 (footprint 1 [] \<union> {})"
    using h1(5) by (auto simp: owns_def footprint_def spine_def frame_def empty_heap_def)
  then have own2: "owns h2 (footprint 1 es \<union> {})" using h2(4) by blast
  let ?h3 = "alloced (Obj (Data raw_data)) h2"
  have ok2: "heap_ok h2" using h2(2) dlist_ok by (auto simp: sensors_repr_def)
  have m: "malloc (Obj (Data raw_data)) h2 = (next_addr h2, ?h3)" "next_addr h2 \<noteq> 0"
    using b h2(3) heap_ok_pos [OF ok2] by (simp_all add: malloc_ok)
  have same: "cells ?h3 a = cells h2 a" if "a < next_addr h2" for a using that by simp
  have "dlist ?h3 1 (entry_nodes es)"
  proof (rule dlist_cong)
    show "dlist h2 1 (entry_nodes es)" using h2(2) by (simp add: sensors_repr_def)
    fix a assume "a \<in> insert 1 (fst ` set (entry_nodes es))"
    then show "cells ?h3 a = cells h2 a"
      unfolding spine_nodes using sensors_live(1) [OF h2(2)] same by blast
  qed (use ok2 in simp)
  moreover have "sensor_repr ?h3 (snd (es ! i)) s"
    if "sensor_repr h2 (snd (es ! i)) s" "i < length es" for i s
    using that ok2 sensors_live(2) [OF h2(2) that(2)] same by (intro sensor_repr_cong [OF that(1)]) auto
  ultimately have "sensors_repr ?h3 1 es (add_sensors raw 2 (map_pairs fp r0 s0) [])"
    using h2(2) by (simp add: sensors_repr_def)
  moreover have "datamgr_start raw raw_data fp r0 s0 (empty_heap n) = Inr (1, next_addr h2, ?h3)"
    using h1(1) h2(1) m by (simp add: datamgr_start_def)
  moreover have "owns ?h3 (footprint 1 es \<union> {next_addr h2})" using own2 by (auto simp: owns_def)
  moreover have "cells ?h3 (next_addr h2) = Some (Obj (Data raw_data))"
      "budget ?h3 = n - 2 - 3 * length (map_pairs fp r0 s0)" using h2(3) by simp_all
  ultimately show ?thesis by blast
qed

section \<open>Printed maps\<close>

definition map_line :: "16 word \<times> 16 word \<Rightarrow> string" where
  "map_line p = fmt_hu (fst p) @ '' '' @ fmt_hu (snd p) @ [newline]"

definition map_text :: "(16 word \<times> 16 word) list \<Rightarrow> string" where
  "map_text ps = concat (map map_line ps)"

lemma space_chars: "is_space newline" "is_space (CHR '' '')" "\<not> is_digit newline" "\<not> is_digit (CHR '' '')"
  by (simp_all add: is_space_def is_digit_def newline_def)

lemma scan_hu:
  assumes "rest = [] \<or> \<not> is_digit (hd rest)" "\<forall>c \<in> set ws. is_space c"
  shows "scan_int (ws @ fmt_hu w @ rest) = Scanned (int (unat w)) rest"
  unfolding fmt_hu_def by (rule scan_show_nat [OF assms])

text \<open>Each line is read as its pair; the line break before it is skipped.\<close>

lemma fscanf_line:
  assumes "\<forall>c \<in> set ws. is_space c"
  shows "fscanf_hd_hd (ws @ map_line p @ rest) a b = (2, fst p, snd p, newline # rest)"
proof -
  have "scan_int (ws @ map_line p @ rest) =
      Scanned (int (unat (fst p))) ('' '' @ fmt_hu (snd p) @ newline # rest)"
    using scan_hu [of "'' '' @ fmt_hu (snd p) @ newline # rest" ws "fst p"] assms
    by (simp add: map_line_def space_chars)
  moreover have "scan_int ('' '' @ fmt_hu (snd p) @ newline # rest) =
      Scanned (int (unat (snd p))) (newline # rest)"
    by (rule scan_hu) (simp_all add: space_chars)
  ultimately show ?thesis by (simp add: fscanf_hd_hd_def to_short_uint del: of_nat_unat)
qed

lemma map_pairs_text:
  assumes ws: "ws = [] \<or> ws = [newline]"
  shows "map_pairs (ws @ map_text ps) a b = ps"
  using ws
proof (induction ps arbitrary: ws a b)
  case Nil
  then show ?case
    by (subst map_pairs.simps) (auto simp: map_text_def fscanf_hd_hd_def scan_int_def space_chars)
next
  case (Cons p ps)
  have "\<forall>c \<in> set ws. is_space c" using Cons.prems space_chars by auto
  then have "fscanf_hd_hd (ws @ map_text (p # ps)) a b = (2, fst p, snd p, newline # map_text ps)"
    using fscanf_line [of ws p "map_text ps"] by (simp add: map_text_def)
  then show ?case using Cons.IH [of "[newline]"]
    by (subst map_pairs.simps) simp
qed

end
