(* ===== verification/Datamgr_Run.thy ===== *)
theory Datamgr_Run
  imports Datamgr_Map
begin

text \<open>
  Whole runs of the data manager: a sequence of measurements implements the run on abstract
  sensors; each sensor sees exactly its own measurements; in exact arithmetic the running
  average is the mean of the last five; an average that is not a number stays so. The queries
  read the first sensor with the id.
\<close>

section \<open>Sequences of measurements\<close>

lemma store_data_ok:
  assumes r: "sensors_repr h sl es ss" and b: "cells h b = Some (Obj (Data d0))"
  shows "\<exists>h'. store_data h b d = Inr h' \<and> sensors_repr h' sl es ss \<and>
     cells h' b = Some (Obj (Data d)) \<and> budget h' = budget h \<and> (\<forall>A. owns h A \<longrightarrow> owns h' A)"
proof -
  have d: "dlist h sl (entry_nodes es)" using r by (simp add: sensors_repr_def)
  have ok: "heap_ok h" by (rule dlist_ok [OF d])
  let ?h' = "written b (Obj (Data d)) h"
  have ok': "heap_ok ?h'" using ok b by simp
  have "b \<notin> insert sl (fst ` set (entry_nodes es))"
    using dlist_obj_not_node [OF d b] dlist_head [OF d] b by auto
  then have "dlist ?h' sl (entry_nodes es)" by (intro dlist_cong [OF d ok']) auto
  moreover have "sensor_repr ?h' (snd (es ! i)) (ss ! i)" if "i < length ss" for i
  proof -
    obtain p l tns where e: "snd (es ! i) = (p, l, tns)" by (metis prod.collapse)
    have s: "sensor_repr h (p, l, tns) (ss ! i)" using r that e unfolding sensors_repr_def by metis
    show ?thesis unfolding e
      using data_not_in_foot [OF s b] by (intro sensor_repr_cong [OF s ok']) auto
  qed
  ultimately have "sensors_repr ?h' sl es ss" using r by (simp add: sensors_repr_def)
  moreover have "store_data h b d = Inr ?h'"
    using store_ok [OF b ok] by (simp add: store_data_def read_data_ok [OF b ok])
  moreover have "owns h A \<longrightarrow> owns ?h' A" for A using b by (auto simp: owns_def)
  ultimately show ?thesis by auto
qed

lemma sensor_index_ids: "map s_id ss = map s_id ss' \<Longrightarrow> sensor_index i ss = sensor_index i ss'"
proof -
  assume m: "map s_id ss = map s_id ss'"
  have "sensor_index i xs = index_where (\<lambda>x. x = i) (map s_id xs)" for xs
    by (simp add: sensor_index_def index_where_map comp_def)
  then show ?thesis using m by simp
qed

text \<open>The allocations that a sequence of measurements needs: two for each sensor of the map, none for an unknown id.\<close>

definition demand :: "sensor_data_t list \<Rightarrow> sensor_state list \<Rightarrow> nat" where
  "demand ds ss = 2 * length (filter (\<lambda>d. sensor_index (data_id d) ss \<noteq> -1) ds)"

lemma demand_simps [simp]:
  "demand [] ss = 0"
  "demand (d # ds) ss = (if sensor_index (data_id d) ss = -1 then 0 else 2) + demand ds ss"
  by (simp_all add: demand_def)

lemma demand_update [simp]: "demand ds (store_update rnd d ss) = demand ds ss"
  using sensor_index_ids [OF store_update_ids] by (simp add: demand_def)

lemma demand_le: "demand ds ss \<le> 2 * length ds"
  by (simp add: demand_def)

theorem process_all_implements:
  "sensors_repr h sl es ss \<Longrightarrow> cells h b = Some (Obj (Data d0)) \<Longrightarrow>
   \<forall>s \<in> set ss. window_ok s \<Longrightarrow> demand ds ss \<le> budget h \<Longrightarrow>
   \<exists>h' es'. process_all raw rnd h sl b ds = Inr (fst (store_run rnd ds ss), h') \<and>
     sensors_repr h' sl es' (snd (store_run rnd ds ss)) \<and> (\<exists>d. cells h' b = Some (Obj (Data d))) \<and>
     budget h' = budget h - demand ds ss \<and>
     (\<forall>X. owns h (footprint sl es \<union> X) \<longrightarrow> owns h' (footprint sl es' \<union> X))"
proof (induction ds arbitrary: h es ss d0)
  case (Cons d ds)
  obtain h1 where h1: "store_data h b d = Inr h1" "sensors_repr h1 sl es ss"
      "cells h1 b = Some (Obj (Data d))" "budget h1 = budget h" "\<forall>A. owns h A \<longrightarrow> owns h1 A"
    using store_data_ok [OF Cons.prems(1,2), of d] by blast
  have "sensor_index (data_id d) ss \<noteq> -1 \<Longrightarrow> 2 \<le> budget h1" using Cons.prems(4) h1(4) by simp
  from process_measurement_implements [OF h1(2,3) Cons.prems(3) this, of raw rnd]
  obtain h2 es2 where h2: "process_measurement raw rnd h1 sl b = Inr (store_msgs rnd d ss, h2)"
      "sensors_repr h2 sl es2 (store_update rnd d ss)" "cells h2 b = Some (Obj (Data d))"
      "budget h2 = budget h1 - (if sensor_index (data_id d) ss = -1 then 0 else 2)"
      "\<forall>X. owns h1 (footprint sl es \<union> X) \<longrightarrow> owns h2 (footprint sl es2 \<union> X)" by blast
  have "demand ds (store_update rnd d ss) \<le> budget h2" using Cons.prems(4) h1(4) h2(4) by (auto split: if_splits)
  from Cons.IH [OF h2(2,3) store_update_window [OF Cons.prems(3)] this] obtain h3 es3 where
    h3: "process_all raw rnd h2 sl b ds = Inr (fst (store_run rnd ds (store_update rnd d ss)), h3)"
      "sensors_repr h3 sl es3 (snd (store_run rnd ds (store_update rnd d ss)))"
      "\<exists>d. cells h3 b = Some (Obj (Data d))" "budget h3 = budget h2 - demand ds (store_update rnd d ss)"
      "\<forall>X. owns h2 (footprint sl es2 \<union> X) \<longrightarrow> owns h3 (footprint sl es3 \<union> X)" by blast
  have "process_all raw rnd h sl b (d # ds) = Inr (fst (store_run rnd (d # ds) ss), h3)"
      "snd (store_run rnd (d # ds) ss) = snd (store_run rnd ds (store_update rnd d ss))"
    using h1(1) h2(1) h3(1) by (simp_all add: case_prod_beta)
  moreover have "budget h3 = budget h - demand (d # ds) ss" using h1(4) h2(4) h3(4) by simp
  ultimately show ?case using h1(5) h2(5) h3(2,3,5) by auto
qed auto

section \<open>Each sensor sees its own measurements\<close>

lemma sensor_index_nth:
  assumes "distinct (map s_id ss)" and "k < length ss"
  shows "sensor_index (s_id (ss ! k)) ss = int k"
proof -
  have "index_where (\<lambda>x. x = map s_id ss ! k) (map s_id ss) = int k"
    using index_where_eq_nth [OF assms(1), of k] assms(2) by simp
  then show ?thesis using assms(2) by (simp add: index_where_map sensor_index_def comp_def)
qed

lemma sensor_index_found:
  assumes "sensor_index i ss \<noteq> -1"
  shows "nat (sensor_index i ss) < length ss" and "s_id (ss ! nat (sensor_index i ss)) = i"
  using index_where_found [OF refl, of "\<lambda>s. s_id s = i" ss] assms by (simp_all add: sensor_index_def)

lemma store_update_nth:
  assumes "distinct (map s_id ss)" and k: "k < length ss"
  shows "store_update rnd d ss ! k = (if data_id d = s_id (ss ! k) then measured rnd d (ss ! k) else ss ! k)"
proof (cases "data_id d = s_id (ss ! k)")
  case True
  then show ?thesis using sensor_index_nth [OF assms] k by (simp add: store_update_def)
next
  case False
  show ?thesis
  proof (cases "sensor_index (data_id d) ss = -1")
    case ne: False
    have "nat (sensor_index (data_id d) ss) \<noteq> k" using sensor_index_found(2) [OF ne] False by metis
    then show ?thesis using False ne by (simp add: store_update_def Let_def)
  qed (use False in \<open>simp add: store_update_def\<close>)
qed

theorem store_run_own_measurements:
  "distinct (map s_id ss) \<Longrightarrow> k < length ss \<Longrightarrow>
   snd (store_run rnd ds ss) ! k =
     foldl (\<lambda>s d. measured rnd d s) (ss ! k) (filter (\<lambda>d. data_id d = s_id (ss ! k)) ds)"
proof (induction ds arbitrary: ss)
  case (Cons d ds)
  have "distinct (map s_id (store_update rnd d ss))" "k < length (store_update rnd d ss)"
    using Cons.prems by simp_all
  from Cons.IH [OF this] show ?case
    using store_update_nth [OF Cons.prems, of rnd d] by (simp add: case_prod_beta)
qed simp

lemma store_run_length [simp]: "length (snd (store_run rnd ds ss)) = length ss"
  by (induction ds arbitrary: ss) (simp_all add: case_prod_beta)

section \<open>The running average\<close>

definition mean :: "rat list \<Rightarrow> rat" where
  "mean vs = sum_list vs / of_nat (length vs)"

lemma average_grow_mean:
  assumes "vs \<noteq> [] \<Longrightarrow> a = mean vs"
  shows "average_grow Fin (Fin a) (int (Suc (length vs))) (Fin v) = Fin (mean (v # vs))"
proof (cases vs)
  case (Cons w ws)
  then have "a * of_nat (length vs) = sum_list vs" using assms by (simp add: mean_def)
  then show ?thesis by (simp add: average_grow_def double_of_int_def mean_def algebra_simps)
qed (simp add: average_grow_def double_of_int_def mean_def)

lemma average_slide_mean:
  assumes "vs \<noteq> []" and "a = mean vs"
  shows "average_slide Fin (Fin a) (int (Suc (length vs))) (Fin (last vs)) (Fin v) =
     Fin (mean (v # butlast vs))"
proof -
  have s: "sum_list vs = sum_list (butlast vs) + last vs"
    using assms(1) by (metis append_butlast_last_id sum_list.append sum_list_simps(1) sum_list_simps(2) add_0_right)
  have "a * of_nat (length vs) = sum_list vs" "of_nat (length vs) \<noteq> (0 :: rat)"
    using assms by (simp_all add: mean_def)
  moreover have "length (v # butlast vs) = length vs" using assms(1) by simp
  ultimately show ?thesis using s
    by (simp add: average_slide_def double_of_int_def mean_def algebra_simps)
qed

lemma take_measurement_mean:
  assumes w: "length vs \<le> RUN_AVG_LENGTH" and t: "s_temps s = map Fin vs"
    and a: "s_avg s = Fin a" "vs \<noteq> [] \<Longrightarrow> a = mean vs"
  shows "s_temps (take_measurement Fin (Fin v) s) = map Fin (take RUN_AVG_LENGTH (v # vs)) \<and>
     s_avg (take_measurement Fin (Fin v) s) = Fin (mean (take RUN_AVG_LENGTH (v # vs)))"
proof (cases "length vs < RUN_AVG_LENGTH")
  case True
  then show ?thesis using t a average_grow_mean [of vs a v]
    by (simp add: take_measurement_def Let_def Suc_le_eq del: of_nat_Suc)
next
  case False
  then have n: "length vs = RUN_AVG_LENGTH" using w by simp
  have pos: "0 < RUN_AVG_LENGTH" by (simp add: RUN_AVG_LENGTH_def)
  then have ne: "vs \<noteq> []" using n by auto
  have nth: "(Fin v # map Fin vs) ! RUN_AVG_LENGTH = Fin (last vs)"
    using n ne by (cases RUN_AVG_LENGTH) (auto simp: last_conv_nth RUN_AVG_LENGTH_def)
  have tk: "take RUN_AVG_LENGTH (v # vs) = v # butlast vs"
    using n ne pos by (simp add: butlast_conv_take take_Cons')
  have "window_ok s" using t n by (simp add: window_ok_def)
  from take_measurement_temps [OF this, of Fin "Fin v"] have
    "s_temps (take_measurement Fin (Fin v) s) = map Fin (take RUN_AVG_LENGTH (v # vs))"
    using t by (simp add: take_map [symmetric])
  moreover have "s_avg (take_measurement Fin (Fin v) s) = Fin (mean (v # butlast vs))"
    using False t a ne nth average_slide_mean [of vs a v]
    by (simp add: take_measurement_def Let_def del: of_nat_Suc)
  ultimately show ?thesis using tk by simp
qed

theorem running_average_mean:
  assumes "s_temps s = []" and "s_avg s = Fin a" and "vs \<noteq> []"
  shows "s_avg (foldl (\<lambda>s v. take_measurement Fin (Fin v) s) s vs) =
     Fin (mean (take RUN_AVG_LENGTH (rev vs)))"
proof -
  have "s_temps (foldl (\<lambda>s v. take_measurement Fin (Fin v) s) s vs) = map Fin (take RUN_AVG_LENGTH (rev vs)) \<and>
      (\<exists>b. s_avg (foldl (\<lambda>s v. take_measurement Fin (Fin v) s) s vs) = Fin b \<and>
        (vs \<noteq> [] \<longrightarrow> b = mean (take RUN_AVG_LENGTH (rev vs))))"
  proof (induction vs rule: rev_induct)
    case (snoc v vs)
    let ?s = "foldl (\<lambda>s v. take_measurement Fin (Fin v) s) s vs" and ?w = "take RUN_AVG_LENGTH (rev vs)"
    obtain b where b: "s_avg ?s = Fin b" "vs \<noteq> [] \<longrightarrow> b = mean ?w" using snoc by blast
    have "?w \<noteq> [] \<Longrightarrow> b = mean ?w" using b(2) by auto
    from take_measurement_mean [of ?w ?s b v, OF _ _ b(1) this] snoc
    show ?case by (simp add: take_Cons' RUN_AVG_LENGTH_def min_def)
  qed (use assms in simp)
  then show ?thesis using assms(3) by auto
qed

text \<open>An average that is not finite makes every later one a NaN, whatever the arithmetic.\<close>

lemma average_not_finite:
  assumes "s_temps s = []" and "\<nexists>a. s_avg s = Fin a"
  shows "s_avg (take_measurement rnd v s) = NaN"
  using assms by (cases "s_avg s")
    (simp_all add: take_measurement_def RUN_AVG_LENGTH_def average_grow_def double_of_int_def)

lemma average_NaN: "s_avg s = NaN \<Longrightarrow> s_avg (take_measurement rnd v s) = NaN"
  by (simp add: take_measurement_def Let_def average_grow_def average_slide_def)

lemma average_NaN_silent: "s_avg s = NaN \<Longrightarrow> threshold_msgs (sensor_struct l s) d = []"
  by (simp add: threshold_msgs_def sensor_struct_def)

section \<open>Queries\<close>

lemma find_sensor_repr:
  assumes r: "sensors_repr h sl es ss"
  shows "k \<le> length ss \<Longrightarrow> length ss - k < fuel \<Longrightarrow> \<forall>j < k. s_id (ss ! j) \<noteq> i \<Longrightarrow>
    (case sensor_index i ss of j \<Rightarrow>
       if j = -1 then find_sensor fuel h sl i (int k) = Inl (ExitCall 1)
       else \<exists>l. find_sensor fuel h sl i (int k) = Inr (sensor_struct l (ss ! nat j)))"
proof (induction fuel arbitrary: k)
  case (Suc f)
  note size = sensors_size [OF r]
  show ?case
  proof (cases "k < length ss")
    case True
    note el = sensors_get(1) [OF r True]
    obtain l where rd: "read_sensor h (fst (snd (es ! k))) = Inr (sensor_struct l (ss ! k))"
      using sensors_get(2) [OF r True] by blast
    have sid: "sensor_id (sensor_struct l (ss ! k)) = s_id (ss ! k)" by (simp add: sensor_struct_def)
    show ?thesis
    proof (cases "s_id (ss ! k) = i")
      case here: True
      have "sensor_index i ss = int k"
      proof -
        have ne: "sensor_index i ss \<noteq> -1"
          unfolding sensor_index_def index_where_Nil_iff using here True by auto
        note f = index_where_found [OF refl ne [unfolded sensor_index_def]]
        have "nat (sensor_index i ss) = k"
          using f here True Suc.prems(3) by (metis linorder_neqE_nat sensor_index_def)
        moreover have "0 \<le> sensor_index i ss" using f by (simp add: sensor_index_def)
        ultimately show ?thesis using nat_0_le by metis
      qed
      then show ?thesis using here True by (auto simp: size el rd sid)
    next
      case False
      have step: "find_sensor (Suc f) h sl i (int k) = find_sensor f h sl i (int (Suc k))"
        using False True by (simp add: size el rd sid add.commute)
      have lt: "length ss - Suc k < f" using True Suc.prems(2) by linarith
      have "\<forall>j < Suc k. s_id (ss ! j) \<noteq> i" using False Suc.prems(3) by (simp add: less_Suc_eq)
      from Suc.IH [OF Suc_leI [OF True] lt this] show ?thesis unfolding step .
    qed
  next
    case False
    then have "k = length ss" using Suc.prems by simp
    then have "sensor_index i ss = -1"
      using Suc.prems(3) by (auto simp: sensor_index_def index_where_Nil_iff in_set_conv_nth)
    then show ?thesis using False by (simp add: size)
  qed
qed simp

lemma find_sensor_first:
  assumes r: "sensors_repr h sl es ss"
  shows "(sensor_index i ss = -1 \<longrightarrow> find_sensor (next_addr h) h sl i 0 = Inl (ExitCall 1)) \<and>
    (sensor_index i ss \<noteq> -1 \<longrightarrow>
       (\<exists>l. find_sensor (next_addr h) h sl i 0 = Inr (sensor_struct l (ss ! nat (sensor_index i ss)))))"
  using sensors_length [OF r] find_sensor_repr [OF r, of 0 "next_addr h" i] by (auto split: if_splits)

lemma queries_of:
  assumes r: "sensors_repr h sl es ss" and f: "sensor_index i ss \<noteq> -1"
  shows "datamgr_get_room_id h i sl = Inr (s_room (ss ! nat (sensor_index i ss)))"
    and "datamgr_get_avg h i sl = Inr (s_avg (ss ! nat (sensor_index i ss)))"
    and "datamgr_get_last_modified h i sl = Inr (s_last (ss ! nat (sensor_index i ss)))"
  using find_sensor_first [OF r, of i] f
  by (auto simp: datamgr_get_room_id_def datamgr_get_avg_def datamgr_get_last_modified_def sensor_struct_def)

lemma queries_unknown:
  assumes r: "sensors_repr h sl es ss" and f: "sensor_index i ss = -1"
  shows "datamgr_get_room_id h i sl = Inl (ExitCall 1)"
    and "datamgr_get_avg h i sl = Inl (ExitCall 1)"
    and "datamgr_get_last_modified h i sl = Inl (ExitCall 1)"
  using find_sensor_first [OF r, of i] f
  by (simp_all add: datamgr_get_room_id_def datamgr_get_avg_def datamgr_get_last_modified_def)

lemma total_sensors: "sensors_repr h sl es ss \<Longrightarrow> datamgr_get_total_sensors h sl = Inr (int (length ss))"
  by (simp add: datamgr_get_total_sensors_def sensors_size)

section \<open>Printing\<close>

text \<open>What is printed of a sensor: its line, then its temperatures, the newest first.\<close>

definition sensor_listing :: "sensor_state \<Rightarrow> string" where
  "sensor_listing s =
     sensor_line (sensor_struct 0 s) @ concat (map (\<lambda>v. '' '' @ fmt_f v @ [newline]) (s_temps s))"

lemma sensor_line_struct: "sensor_line (sensor_struct l s) = sensor_line (sensor_struct 0 s)"
  by (simp add: sensor_line_def sensor_struct_def)

lemma temperatures_struct: "temperatures (sensor_struct l s) = l"
  by (simp add: sensor_struct_def)

lemma print_temperatures_list:
  assumes t: "temp_list h l tns vs"
  shows "j \<le> length vs \<Longrightarrow> length vs - j < fuel \<Longrightarrow>
    print_temperatures fuel h l (int j) = Inr (concat (map (\<lambda>v. '' '' @ fmt_f v @ [newline]) (drop j vs)))"
proof (induction fuel arbitrary: j)
  case (Suc f)
  show ?case
  proof (cases "j < length vs")
    case True
    have "ref_pos (int j) (length vs) = j" "vs \<noteq> []" using True by (auto simp: ref_pos_def)
    note g = elem_list_get [OF t this]
    have "print_temperatures f h l (int j + 1) =
        Inr (concat (map (\<lambda>v. '' '' @ fmt_f v @ [newline]) (drop (Suc j) vs)))"
      using Suc.IH [of "Suc j"] Suc.prems True by (simp add: add.commute)
    then show ?thesis
      using True g(1) read_temp_ok [OF g(2) elem_list_ok [OF t]]
      by (simp add: elem_list_size [OF t] Cons_nth_drop_Suc [symmetric])
  qed (simp add: elem_list_size [OF t])
qed simp

lemma print_sensors_repr:
  assumes r: "sensors_repr h sl es ss"
  shows "i \<le> length ss \<Longrightarrow> length ss - i < fuel \<Longrightarrow>
    print_sensors fuel h sl (int i) = Inr (concat (map sensor_listing (drop i ss)))"
proof (induction fuel arbitrary: i)
  case (Suc f)
  show ?case
  proof (cases "i < length ss")
    case True
    obtain a p l tns where e: "es ! i = (a, p, l, tns)" by (metis prod.collapse)
    have t: "temp_list h l tns (s_temps (ss ! i))" using r True e by (auto simp: sensors_repr_def)
    have "length (s_temps (ss ! i)) < next_addr h"
      using dlist_length [OF elem_list_dlist [OF t]] elem_list_length [OF t] by simp
    then have temps: "print_temperatures (next_addr h) h l 0 =
        Inr (concat (map (\<lambda>v. '' '' @ fmt_f v @ [newline]) (s_temps (ss ! i))))"
      using print_temperatures_list [OF t, of 0] by simp
    have "print_sensors f h sl (int i + 1) = Inr (concat (map sensor_listing (drop (Suc i) ss)))"
      using Suc.IH [of "Suc i"] Suc.prems True by (simp add: add.commute)
    then show ?thesis
      using True sensors_get [OF r True] temps e
      by (simp add: sensors_size [OF r] Cons_nth_drop_Suc [symmetric] sensor_line_struct [of l]
          temperatures_struct sensor_listing_def [of "ss ! i"])
  qed (simp add: sensors_size [OF r])
qed simp

lemma print_sensor_list_repr:
  "sensors_repr h sl es ss \<Longrightarrow> print_sensor_list h sl = Inr (concat (map sensor_listing ss))"
  using print_sensors_repr [of h sl es ss 0 "next_addr h"] sensors_length
  by (simp add: print_sensor_list_def)

end
