(* ===== verification/Datamgr_Release.thy ===== *)
theory Datamgr_Release
  imports Datamgr_Run
begin

text \<open>
  The end of the data manager: releasing the sensor list calls \<open>sensor_free\<close> for each sensor,
  which releases the sensor's temperatures, their list and the struct. Together with the
  ownership that the operations keep, nothing is left on the heap.
\<close>

section \<open>One sensor\<close>

lemma sensor_free_ok:
  assumes r: "sensor_repr h g s" and ok: "heap_ok h"
  shows "\<exists>h'. sensor_free h (fst g) = Inr (0, h') \<and> heap_ok h' \<and>
     (\<forall>a \<in> foot g. cells h' a = None) \<and> frame (foot g) h h'"
proof -
  obtain p l tns where g: "g = (p, l, tns)" by (metis prod.collapse)
  have p: "cells h p = Some (Obj (Sensor (sensor_struct l s)))" and t: "temp_list h l tns (s_temps s)"
    using r g by simp_all
  obtain h1 where h1: "dpl_free temp_callbacks h l False = Inr (0, h1)" "heap_ok h1"
      "\<forall>a \<in> {l} \<union> fst ` set tns \<union> snd ` set tns. cells h1 a = None"
      "frame ({l} \<union> fst ` set tns \<union> snd ` set tns) h h1"
    using elem_list_free [OF t, of temp_callbacks] by blast
  have "p \<notin> {l} \<union> fst ` set tns \<union> snd ` set tns"
    using elem_list_apart [OF t p] p elem_list_element [OF t, of p] by force
  then have p1: "cells h1 p = Some (Obj (Sensor (sensor_struct l s)))" using frameD [OF h1(4), of p] p by simp
  let ?h2 = "written p (Obj (Sensor (temperatures_update (\<lambda>_. 0) (sensor_struct l s)))) h1"
  have ok2: "heap_ok ?h2" using h1(2) p1 by simp
  have "sensor_free h p = Inr (0, freed p ?h2)"
    using read_sensor_ok [OF p ok] h1(1) upd_sensor_ok [OF p1 h1(2)] cfree_ok [OF _ ok2, of p]
    by (simp add: sensor_free_def) (simp add: sensor_struct_def)
  moreover have "\<forall>a \<in> foot g. cells (freed p ?h2) a = None" using h1(3) g by simp
  moreover have "frame (foot g) h (freed p ?h2)" using h1(4) g by (auto simp: frame_def)
  ultimately show ?thesis using ok2 g by (intro exI [of _ "freed p ?h2"]) simp
qed

section \<open>The list of sensors\<close>

lemma apart_tail: "apart sl (e # es) \<Longrightarrow> apart sl es"
  by (auto simp: apart_def spine_def)

lemma footprint_Cons: "footprint sl (e # es) = insert (fst e) (foot (snd e)) \<union> footprint sl es"
  by (auto simp: footprint_def spine_def)

lemma entry_nodes_Cons: "entry_nodes (e # es) = (fst e, fst (snd e)) # entry_nodes es"
  by (simp add: entry_nodes_def)

text \<open>One turn of the loop: the sensor, then its node.\<close>

lemma free_one_sensor:
  assumes ok: "heap_ok h" and hd: "cells h sl = Some (DList a)"
    and n: "cells h a = Some (Node \<lparr>nd_prev = pr, nd_next = nx, nd_element = fst g\<rparr>)"
    and s: "sensor_repr h g s" and out: "sl \<notin> foot g" "a \<notin> foot g"
  shows "\<exists>h'. free_loop (Suc f) (sensor_callbacks raw) h sl True = free_loop f (sensor_callbacks raw) h' sl True \<and>
     heap_ok h' \<and> cells h' sl = Some (DList nx) \<and> (\<forall>x \<in> insert a (foot g). cells h' x = None) \<and>
     frame ({sl, a} \<union> foot g) h h'"
proof -
  let ?h1 = "written sl (DList nx) h" and ?n = "\<lparr>nd_prev = pr, nd_next = nx, nd_element = fst g\<rparr>"
  have ne: "sl \<noteq> a" "a \<noteq> 0" using hd n heap_ok_live [OF ok n] by auto
  have ok1: "heap_ok ?h1" using ok hd by simp
  have s1: "sensor_repr ?h1 g s" by (rule sensor_repr_cong [OF s ok1]) (use out in auto)
  obtain h2 where h2: "sensor_free ?h1 (fst g) = Inr (0, h2)" "heap_ok h2" "\<forall>x \<in> foot g. cells h2 x = None"
      "frame (foot g) ?h1 h2"
    using sensor_free_ok [OF s1 ok1] by blast
  have n2: "cells h2 a = Some (Node ?n)" "cells h2 sl = Some (DList nx)"
    using frameD [OF h2(4) out(2)] frameD [OF h2(4) out(1)] n ne by simp_all
  let ?h3 = "written a (Node \<lparr>nd_prev = pr, nd_next = nx, nd_element = 0\<rparr>) h2"
  have n3: "cells ?h3 a = Some (Node \<lparr>nd_prev = pr, nd_next = nx, nd_element = 0\<rparr>)" and ok3: "heap_ok ?h3" using h2(2) n2 by simp_all
  have "fst g \<in> foot g" by (cases g) simp
  then have "fst g \<noteq> 0" using sensor_repr_live [OF s] heap_ok_null [OF ok] by metis
  then have "free_loop (Suc f) (sensor_callbacks raw) h sl True = free_loop f (sensor_callbacks raw) (freed a ?h3) sl True"
    using ne h2(1) n2 n3 ok3
    by (simp add: get_head_ok [OF hd ok] set_head_ok [OF hd ok] read_node_ok [OF n ok] sensor_callbacks_def
        upd_node_ok [OF n2(1) h2(2)] read_node_ok [OF n3 ok3] cfree_ok [OF n3 ok3])
  moreover have "cells (freed a ?h3) sl = Some (DList nx)" using n2(2) ne by simp
  moreover have "\<forall>x \<in> insert a (foot g). cells (freed a ?h3) x = None" using h2(3) by simp
  moreover have "frame ({sl, a} \<union> foot g) h (freed a ?h3)" using h2(4) by (auto simp: frame_def)
  ultimately show ?thesis using ok3 by (intro exI [of _ "freed a ?h3"]) simp
qed

lemma free_sensors_loop:
  "heap_ok h \<Longrightarrow> cells h sl = Some (DList (first_of (entry_nodes es) 0)) \<Longrightarrow> seg h pr (entry_nodes es) 0 \<Longrightarrow>
   distinct (map fst es) \<Longrightarrow> apart sl es \<Longrightarrow> list_all2 (\<lambda>e s. sensor_repr h (snd e) s) es ss \<Longrightarrow> length es < fuel \<Longrightarrow>
   \<exists>h'. free_loop fuel (sensor_callbacks raw) h sl True = Inr h' \<and> heap_ok h' \<and> cells h' sl = Some (DList 0) \<and>
     (\<forall>x \<in> footprint sl es. x \<noteq> sl \<longrightarrow> cells h' x = None) \<and> frame (footprint sl es) h h'"
proof (induction es arbitrary: h pr fuel ss)
  case Nil
  then show ?case
    by (cases fuel) (auto simp: entry_nodes_def footprint_def spine_def get_head_ok)
next
  case (Cons e es)
  obtain f where f: "fuel = Suc f" "length es < f" using Cons.prems(7) by (cases fuel) auto
  obtain s ss' where ss: "ss = s # ss'" "sensor_repr h (snd e) s" "list_all2 (\<lambda>e s. sensor_repr h (snd e) s) es ss'"
    using Cons.prems(6) by (auto simp: list_all2_Cons1)
  have n: "cells h (fst e) = Some (Node \<lparr>nd_prev = pr, nd_next = first_of (entry_nodes es) 0, nd_element = fst (snd e)\<rparr>)"
    and tl: "seg h (fst e) (entry_nodes es) 0"
    using Cons.prems(3) by (simp_all add: entry_nodes_Cons)
  have hd: "cells h sl = Some (DList (fst e))" using Cons.prems(2) by (simp add: entry_nodes_Cons)
  have ap: "foot (snd e) \<inter> spine sl (e # es) = {}" "\<And>e'. e' \<in> set es \<Longrightarrow> foot (snd e) \<inter> foot (snd e') = {}"
    using Cons.prems(5) by (auto simp: apart_def)
  then have out: "sl \<notin> foot (snd e)" "fst e \<notin> foot (snd e)" by (auto simp: spine_def)
  from free_one_sensor [OF Cons.prems(1) hd n ss(2) out, of f raw] obtain h1 where
    h1: "free_loop fuel (sensor_callbacks raw) h sl True = free_loop f (sensor_callbacks raw) h1 sl True"
      "heap_ok h1" "cells h1 sl = Some (DList (first_of (entry_nodes es) 0))"
      "\<forall>x \<in> insert (fst e) (foot (snd e)). cells h1 x = None" "frame ({sl, fst e} \<union> foot (snd e)) h h1"
    unfolding f(1) by blast
  have rest: "x \<notin> {sl, fst e} \<union> foot (snd e)" if "x \<in> fst ` set es" for x
  proof -
    have "x \<noteq> fst e" using Cons.prems(4) that by (metis distinct.simps(2) list.simps(9) set_map)
    moreover have "x \<noteq> sl"
      using seg_live [OF tl, of x] that Cons.prems(2) by (force simp: entry_nodes_def)
    moreover have "x \<notin> foot (snd e)" using ap(1) that by (auto simp: spine_def)
    ultimately show ?thesis by simp
  qed
  have seg1: "seg h1 (fst e) (entry_nodes es) 0"
  proof (rule seg_cong [THEN iffD2, OF _ tl])
    fix x assume "x \<in> fst ` set (entry_nodes es)"
    then have "x \<in> fst ` set es" by (force simp: entry_nodes_def)
    from rest [OF this] show "cells h1 x = cells h x" by (rule frameD [OF h1(5)])
  qed
  have all1: "list_all2 (\<lambda>e s. sensor_repr h1 (snd e) s) es ss'"
  proof (rule list.rel_mono_strong [OF ss(3)])
    fix e' s' assume e': "e' \<in> set es" and s': "sensor_repr h (snd e') s'"
    have "foot (snd e') \<inter> ({sl, fst e} \<union> foot (snd e)) = {}"
      using ap(2) [OF e'] Cons.prems(5) e' by (auto simp: apart_def spine_def)
    then show "sensor_repr h1 (snd e') s'"
      using frameD [OF h1(5)] by (intro sensor_repr_cong [OF s' h1(2)]) blast
  qed
  have di: "distinct (map fst es)" using Cons.prems(4) by simp
  obtain h' where h': "free_loop f (sensor_callbacks raw) h1 sl True = Inr h'" "heap_ok h'"
      "cells h' sl = Some (DList 0)" "\<forall>x \<in> footprint sl es. x \<noteq> sl \<longrightarrow> cells h' x = None" "frame (footprint sl es) h1 h'"
    using Cons.IH [OF h1(2,3) seg1 di apart_tail [OF Cons.prems(5)] all1 f(2)] by blast
  have dead: "cells h' x = None" if x: "x \<in> footprint sl (e # es)" "x \<noteq> sl" for x
  proof (cases "x \<in> footprint sl es")
    case False
    then have "cells h1 x = None" using x h1(4) by (metis UnE footprint_Cons)
    then show ?thesis using frameD [OF h'(5) False] by simp
  qed (use h'(4) x in simp)
  have sub: "{sl, fst e} \<union> foot (snd e) \<subseteq> footprint sl (e # es)" "footprint sl es \<subseteq> footprint sl (e # es)"
    by (auto simp: footprint_Cons) (simp_all add: footprint_def spine_def)
  have "frame (footprint sl (e # es)) h h'"
    using frame_trans [OF frame_mono [OF h1(5) sub(1)] frame_mono [OF h'(5) sub(2)]] .
  then show ?case using h1(1) h'(1-3) dead by simp
qed

theorem datamgr_free_ok:
  assumes r: "sensors_repr h sl es ss"
  shows "\<exists>h'. datamgr_free raw h sl = Inr (0, h') \<and> heap_ok h' \<and>
     (\<forall>x \<in> footprint sl es. cells h' x = None) \<and> frame (footprint sl es) h h'"
proof -
  have d: "dlist h sl (entry_nodes es)" and ap: "apart sl es"
    and all: "list_all2 (\<lambda>e s. sensor_repr h (snd e) s) es ss"
    using r by (simp_all add: sensors_repr_list_all2)
  have len: "length es < next_addr h" using dlist_length [OF d] by (simp add: entry_nodes_def)
  have di: "distinct (map fst es)" using dlist_distinct [OF d] by (simp add: entry_nodes_def comp_def)
  from free_sensors_loop [OF dlist_ok [OF d] dlist_head [OF d] dlist_seg [OF d] di ap all len, of raw] obtain h1 where
    h1: "free_loop (next_addr h) (sensor_callbacks raw) h sl True = Inr h1" "heap_ok h1" "cells h1 sl = Some (DList 0)"
      "\<forall>x \<in> footprint sl es. x \<noteq> sl \<longrightarrow> cells h1 x = None" "frame (footprint sl es) h h1" by blast
  have "datamgr_free raw h sl = Inr (0, freed sl h1)"
    using h1 dlist_nonnull [OF d] cfree_ok [OF h1(3,2)] by (simp add: datamgr_free_def dpl_free_def)
  moreover have "sl \<in> footprint sl es" by (simp add: footprint_def spine_def)
  then have "frame (footprint sl es) h (freed sl h1)" using h1(5) by (auto simp: frame_def)
  moreover have "\<forall>x \<in> footprint sl es. cells (freed sl h1) x = None" using h1(4) by simp
  ultimately show ?thesis using h1(2) by (intro exI [of _ "freed sl h1"]) simp
qed

text \<open>The buffer for one measurement goes first; a heap that holds nothing else is empty afterwards.\<close>

theorem datamgr_finish_ok:
  assumes r: "sensors_repr h sl es ss" and b: "cells h bd = Some (Obj (Data d))"
    and o: "owns h (footprint sl es \<union> {bd})"
  shows "\<exists>h'. datamgr_finish raw h sl bd = Inr h' \<and> (\<forall>a. cells h' a = None)"
proof -
  have d: "dlist h sl (entry_nodes es)" using r by (simp add: sensors_repr_def)
  have ok: "heap_ok h" by (rule dlist_ok [OF d])
  let ?h1 = "freed bd h"
  have ok1: "heap_ok ?h1" using ok by simp
  have "bd \<notin> insert sl (fst ` set (entry_nodes es))"
    using dlist_obj_not_node [OF d b] dlist_head [OF d] b by auto
  then have "dlist ?h1 sl (entry_nodes es)" by (intro dlist_cong [OF d ok1]) auto
  moreover have "sensor_repr ?h1 (snd (es ! i)) (ss ! i)" if "i < length ss" for i
  proof -
    obtain p l tns where e: "snd (es ! i) = (p, l, tns)" by (metis prod.collapse)
    have s: "sensor_repr h (p, l, tns) (ss ! i)" using r that e unfolding sensors_repr_def by metis
    show ?thesis unfolding e
      using data_not_in_foot [OF s b] by (intro sensor_repr_cong [OF s ok1]) auto
  qed
  ultimately have "sensors_repr ?h1 sl es ss" using r by (simp add: sensors_repr_def)
  from datamgr_free_ok [OF this, of raw] obtain h2 where
    h2: "datamgr_free raw ?h1 sl = Inr (0, h2)" "\<forall>x \<in> footprint sl es. cells h2 x = None" "frame (footprint sl es) ?h1 h2"
    by blast
  have "cells h2 a = None" for a
  proof (cases "a \<in> footprint sl es")
    case False
    then have "cells ?h1 a = None" using False ownsD [OF o, of a] by (cases "cells h a") auto
    then show ?thesis using frameD [OF h2(3) False] by simp
  qed (use h2(2) in simp)
  then show ?thesis using h2(1) cfree_ok [OF b ok] by (simp add: datamgr_finish_def)
qed

end
