(* ===== verification/Datamgr_Memory.thy ===== *)
theory Datamgr_Memory
  imports Datamgr_Release
begin

text \<open>
  The data manager when memory runs out. Whatever the budget, it either runs to its end or stops in
  the first allocation that fails: in an assertion where the source checks the pointer, in a write
  through NULL where it does not.
\<close>

section \<open>One measurement\<close>

text \<open>The temperature is checked by an assertion, the node of the list is not checked.\<close>

definition measurement_fault :: "nat \<Rightarrow> cfault" where
  "measurement_fault n = (if even n then AssertFail else NullDeref)"

lemma update_sensor_no_memory:
  assumes r: "sensor_repr h (p, l, tns) s" and ok: "heap_ok h" and b: "budget h < 2"
  shows "update_sensor rnd h p v = Inl (measurement_fault (budget h))"
proof (cases "budget h = 0")
  case True
  then show ?thesis by (simp add: update_sensor_def malloc_fail measurement_fault_def)
next
  case False
  let ?h1 = "alloced (Obj (Temp v)) h"
  have one: "budget h = 1" using False b by simp
  have t: "temp_list h l tns (s_temps s)" and p: "cells h p = Some (Obj (Sensor (sensor_struct l s)))"
    using r by simp_all
  have "p \<noteq> next_addr h" using foot_fresh [OF r ok, of p] by auto
  then have "read_sensor ?h1 p = Inr (sensor_struct l s)" using p ok by (simp add: read_sensor_ok)
  moreover have "l \<noteq> 0" by (rule dlist_nonnull [OF elem_list_dlist [OF t]])
  then have "dpl_insert_at_index temp_callbacks ?h1 l (next_addr h) (-1) False = Inl NullDeref"
    using one by (intro dpl_insert_at_index_no_memory) simp_all
  moreover have "temperatures (sensor_struct l s) = l" by (simp add: sensor_struct_def)
  ultimately show ?thesis
    using one heap_ok_pos [OF ok] by (simp add: update_sensor_def malloc_ok measurement_fault_def)
qed

lemma process_measurement_no_memory:
  assumes r: "sensors_repr h sl es ss" and b: "cells h b = Some (Obj (Data d))"
    and known: "sensor_index (data_id d) ss \<noteq> -1" and room: "budget h < 2"
  shows "process_measurement raw rnd h sl b = Inl (measurement_fault (budget h))"
proof -
  have ok: "heap_ok h" using r dlist_ok by (auto simp: sensors_repr_def)
  have "0 \<le> sensor_index (data_id d) ss"
    using index_where_found [OF refl known [unfolded sensor_index_def]] by (simp add: sensor_index_def)
  then obtain k where k: "sensor_index (data_id d) ss = int k" "k < length ss"
    using sensor_index_found(1) [OF known] by (metis int_nat_eq)
  obtain a p l tns where e: "es ! k = (a, p, l, tns)" by (metis prod.collapse)
  have s: "sensor_repr h (p, l, tns) (ss ! k)" using r k(2) e by (auto simp: sensors_repr_def)
  have "dpl_get_element_at_index h sl (int k) = Inr p" using sensors_get(1) [OF r k(2)] e by simp
  then show ?thesis
    using find_measured_sensor [OF r b, of raw] read_data_ok [OF b ok] update_sensor_no_memory [OF s ok room] k(1)
    by (simp add: process_measurement_def)
qed

section \<open>A run of measurements\<close>

lemma process_all_no_memory:
  "sensors_repr h sl es ss \<Longrightarrow> cells h b = Some (Obj (Data d0)) \<Longrightarrow> \<forall>s \<in> set ss. window_ok s \<Longrightarrow>
   budget h < demand ds ss \<Longrightarrow> process_all raw rnd h sl b ds = Inl (measurement_fault (budget h))"
proof (induction ds arbitrary: h es ss d0)
  case (Cons d ds)
  obtain h1 where h1: "store_data h b d = Inr h1" "sensors_repr h1 sl es ss"
      "cells h1 b = Some (Obj (Data d))" "budget h1 = budget h"
    using store_data_ok [OF Cons.prems(1,2), of d] by blast
  let ?known = "sensor_index (data_id d) ss \<noteq> -1"
  show ?case
  proof (cases "?known \<and> budget h < 2")
    case True
    then show ?thesis
      using h1(1,4) process_measurement_no_memory [OF h1(2,3), of raw rnd] by simp
  next
    case False
    then have "?known \<Longrightarrow> 2 \<le> budget h1" using h1(4) by simp
    from process_measurement_implements [OF h1(2,3) Cons.prems(3) this, of raw rnd]
    obtain h2 es2 where h2: "process_measurement raw rnd h1 sl b = Inr (store_msgs rnd d ss, h2)"
        "sensors_repr h2 sl es2 (store_update rnd d ss)" "cells h2 b = Some (Obj (Data d))"
        "budget h2 = budget h1 - (if sensor_index (data_id d) ss = -1 then 0 else 2)" by blast
    have "budget h2 < demand ds (store_update rnd d ss)" "measurement_fault (budget h2) = measurement_fault (budget h)"
      using Cons.prems(4) h1(4) h2(4) False by (auto simp: measurement_fault_def split: if_splits)
    then show ?thesis
      using Cons.IH [OF h2(2,3) store_update_window [OF Cons.prems(3)]] h1(1) h2(1) by simp
  qed
qed simp

section \<open>The room map\<close>

text \<open>Of the three allocations for a line only the sensor is checked.\<close>

definition map_fault :: "nat \<Rightarrow> cfault" where
  "map_fault n = (if n mod 3 = 0 then AssertFail else NullDeref)"

lemma add_sensor_no_memory:
  assumes ok: "heap_ok h" and sl: "sl \<noteq> 0" and b: "budget h < 3"
  shows "add_sensor raw h sl rm i = Inl (map_fault (budget h))"
proof (cases "budget h = 0")
  case True
  then show ?thesis by (simp add: add_sensor_def malloc_fail map_fault_def)
next
  case False
  let ?p = "next_addr h" and ?raw = "raw (next_addr h)"
  let ?h1 = "alloced (Obj (Sensor ?raw)) h"
  let ?h2 = "written ?p (Obj (Sensor (?raw\<lparr>sensor_id := i\<rparr>))) ?h1"
  let ?h3 = "written ?p (Obj (Sensor (?raw\<lparr>sensor_id := i, room_id := rm\<rparr>))) ?h2"
  have up: "malloc (Obj (Sensor ?raw)) h = (?p, ?h1)" "?p \<noteq> 0"
      "upd_sensor ?h1 ?p (sensor_id_update (\<lambda>_. i)) = Inr ?h2"
      "upd_sensor ?h2 ?p (room_id_update (\<lambda>_. rm)) = Inr ?h3"
    using False ok heap_ok_pos [OF ok] by (simp_all add: malloc_ok upd_sensor_ok)
  have ok3: "heap_ok ?h3" using ok by simp
  show ?thesis
  proof (cases "budget h = 1")
    case True
    then have "dpl_create ?h3 = Inl NullDeref" by (intro dpl_create_fail) simp
    then show ?thesis using up True by (simp add: add_sensor_def map_fault_def)
  next
    case two: False
    then have "0 < budget ?h3" "budget h = 2" using False b by simp_all
    from dpl_create_ok [OF ok3 this(1)] obtain h4 where
      h4: "dpl_create ?h3 = Inr (Suc ?p, h4)" "dlist h4 (Suc ?p) []" "frame {Suc ?p} ?h3 h4" "budget h4 = 0"
      using \<open>budget h = 2\<close> by auto
    have "cells h4 ?p = Some (Obj (Sensor (?raw\<lparr>sensor_id := i, room_id := rm\<rparr>)))"
      using frameD [OF h4(3), of ?p] by simp
    from upd_sensor_ok [OF this dlist_ok [OF h4(2)], of "temperatures_update (\<lambda>_. Suc ?p)"]
    obtain h5 where "upd_sensor h4 ?p (temperatures_update (\<lambda>_. Suc ?p)) = Inr h5" "budget h5 = 0"
      using h4(4) by auto
    then show ?thesis
      using up h4(1) dpl_insert_at_index_no_memory [OF sl, of h5] \<open>budget h = 2\<close>
      by (simp add: add_sensor_def map_fault_def)
  qed
qed

lemma read_map_no_memory:
  "sensors_repr h sl es ss \<Longrightarrow> budget h < 3 * length (map_pairs fp r0 s0) \<Longrightarrow>
   read_map raw fp r0 s0 h sl = Inl (map_fault (budget h))"
proof (induction fp r0 s0 arbitrary: h es ss rule: map_pairs.induct)
  case (1 fp r0 s0)
  obtain n room sensor rest where f: "fscanf_hd_hd fp r0 s0 = (n, room, sensor, rest)"
    by (metis prod_cases4)
  have n: "0 < n" using "1.prems"(2) f by (subst (asm) map_pairs.simps) (auto split: if_splits)
  have p: "map_pairs fp r0 s0 = (room, sensor) # map_pairs rest room sensor"
    using n f by (subst map_pairs.simps) simp
  have d: "dlist h sl (entry_nodes es)" using "1.prems"(1) by (simp add: sensors_repr_def)
  have step: "read_map raw fp r0 s0 h sl =
      bindE (add_sensor raw h sl room sensor) (\<lambda>r. read_map raw rest room sensor (snd r) (fst r))"
    using n f by (subst read_map.simps) simp
  show ?case
  proof (cases "budget h < 3")
    case True
    from add_sensor_no_memory [OF dlist_ok [OF d] dlist_nonnull [OF d] this] show ?thesis by (simp add: step)
  next
    case False
    then have "3 \<le> budget h" by simp
    from add_sensor_implements [OF "1.prems"(1) this, of raw room sensor] obtain h1 es1 where
      h1: "add_sensor raw h sl room sensor = Inr (sl, h1)" "budget h1 = budget h - 3"
        "sensors_repr h1 sl es1 (insert_nth (ins_pos 150 (length ss)) (new_sensor (raw (next_addr h)) room sensor) ss)"
      by blast
    have "budget h1 < 3 * length (map_pairs rest room sensor)" using "1.prems"(2) p h1(2) False by simp
    moreover have "map_fault (budget h1) = map_fault (budget h)"
      using False h1(2) le_mod_geq [of 3 "budget h"] by (simp add: map_fault_def)
    ultimately show ?thesis using "1.IH" [OF f [symmetric] refl refl n h1(3)] h1(1) by (simp add: step)
  qed
qed

lemma datamgr_start_no_memory:
  assumes n: "n < 3 * length (map_pairs fp r0 s0) + 2"
  shows "datamgr_start raw raw_data fp r0 s0 (empty_heap n) = Inl (if n = 0 then NullDeref else map_fault (n - 1))"
proof (cases "n = 0")
  case True
  then have "budget (empty_heap n :: dm_heap) = 0" by (simp add: empty_heap_def)
  then show ?thesis using True by (simp add: datamgr_start_def dpl_create_fail)
next
  case False
  then have "0 < budget (empty_heap n :: dm_heap)" by (simp add: empty_heap_def)
  from dpl_create_ok [OF heap_ok_empty this] obtain h1 sl where
    h1: "dpl_create (empty_heap n :: dm_heap) = Inr (sl, h1)" "dlist h1 sl []" "budget h1 = n - 1"
    by (auto simp: empty_heap_def)
  have r1: "sensors_repr h1 sl [] []" using h1(2) by (simp add: sensors_repr_def entry_nodes_def apart_def)
  show ?thesis
  proof (cases "n - 1 < 3 * length (map_pairs fp r0 s0)")
    case True
    with read_map_no_memory [OF r1, of fp r0 s0 raw] show ?thesis using h1 False by (simp add: datamgr_start_def)
  next
    case full: False
    then have eq: "n - 1 = 3 * length (map_pairs fp r0 s0)" using n by linarith
    with read_map_implements [OF r1, of fp r0 s0 raw] obtain h2 where
      "read_map raw fp r0 s0 h1 sl = Inr (sl, h2)" "budget h2 = 0" using h1(3) by auto
    then show ?thesis using h1 eq False by (simp add: datamgr_start_def malloc_fail map_fault_def)
  qed
qed

end
