(* ===== verification/Datamgr_Drift.thy ===== *)
theory Datamgr_Drift
  imports Datamgr_Run
begin

text \<open>
  The running average in rounded arithmetic. The sliding formula works on the last rounded average,
  so that its errors add up; the drift from the true mean of the last five temperatures is bounded
  by three rounding errors for each measurement.
\<close>

text \<open>
  Rounding is within \<open>d\<close> up to the magnitude \<open>M\<close>, and exact for zero and for the number of
  temperatures. For IEEE doubles \<open>d\<close> can be \<open>M / 2 ^ 53\<close>.
\<close>

definition rounds_within :: "rat \<Rightarrow> rat \<Rightarrow> (rat \<Rightarrow> double) \<Rightarrow> bool" where
  "rounds_within d M rnd \<longleftrightarrow>
     0 \<le> d \<and> (\<forall>q. \<bar>q\<bar> \<le> M \<longrightarrow> (\<exists>r. rnd q = Fin r \<and> \<bar>r - q\<bar> \<le> d)) \<and>
     rnd 0 = Fin 0 \<and> rnd (of_nat RUN_AVG_LENGTH) = Fin (of_nat RUN_AVG_LENGTH)"

lemma rounds_withinE:
  assumes "rounds_within d M rnd" and "\<bar>q\<bar> \<le> M"
  obtains r where "rnd q = Fin r" "- d \<le> r - q" "r - q \<le> d"
  using assms unfolding rounds_within_def by (metis abs_le_iff minus_le_iff)

lemma rounds_within_nonneg: "rounds_within d M rnd \<Longrightarrow> 0 \<le> d"
  by (simp add: rounds_within_def)

lemma rounds_within_Fin: "rounds_within 0 M Fin"
  by (simp add: rounds_within_def)

section \<open>One measurement\<close>

lemma of_nat_small:
  "rat_of_nat 1 = 1" "rat_of_nat 2 = 2" "rat_of_nat 3 = 3" "rat_of_nat 4 = 4"
  "rat_of_nat (Suc 1) = 2" "rat_of_nat (Suc 2) = 3" "rat_of_nat (Suc 3) = 4" "rat_of_nat (Suc 4) = 5"
  by simp_all

lemma grow_error:
  fixes b S v e d T :: rat
  assumes rw: "rounds_within d M rnd" and L: "L \<in> {1, 2, 3, 4}"
    and b: "\<bar>b - S / of_nat L\<bar> \<le> e" and S: "\<bar>S\<bar> \<le> of_nat L * T" and v: "\<bar>v\<bar> \<le> T"
    and M: "7 * T + 7 * e + 2 * d \<le> M"
  shows "\<exists>r. average_grow rnd (Fin b) (int (Suc L)) (Fin v) = Fin r \<and>
     \<bar>r - (S + v) / of_nat (Suc L)\<bar> \<le> e + 3 * d"
proof -
  have d: "0 \<le> d" by (rule rounds_within_nonneg [OF rw])
  have e: "0 \<le> e" "0 \<le> T" using b v by linarith+
  have q1: "\<bar>b * of_nat L\<bar> \<le> M" using L b S M d e v by (auto simp: abs_le_iff)
  obtain r1 where r1: "rnd (b * of_nat L) = Fin r1" "- d \<le> r1 - b * of_nat L" "r1 - b * of_nat L \<le> d"
    by (rule rounds_withinE [OF rw q1])
  have q2: "\<bar>r1 + v\<bar> \<le> M" using L b S M d e v r1(2,3) by (auto simp: abs_le_iff)
  obtain r2 where r2: "rnd (r1 + v) = Fin r2" "- d \<le> r2 - (r1 + v)" "r2 - (r1 + v) \<le> d"
    by (rule rounds_withinE [OF rw q2])
  have q3: "\<bar>r2 / of_nat (Suc L)\<bar> \<le> M" using L b S M d e v r1(2,3) r2(2,3) by (auto simp: abs_le_iff)
  obtain r3 where r3: "rnd (r2 / of_nat (Suc L)) = Fin r3" "- d \<le> r3 - r2 / of_nat (Suc L)" "r3 - r2 / of_nat (Suc L) \<le> d"
    by (rule rounds_withinE [OF rw q3])
  have "\<bar>r3 - (S + v) / of_nat (Suc L)\<bar> \<le> e + 3 * d"
  proof -
    consider "L = 1" | "L = 2" | "L = 3" | "L = 4" using L by auto
    then show ?thesis
      using b r1(2,3) r2(2,3) r3(2,3) d e unfolding abs_le_iff add_divide_distrib diff_divide_distrib
      by cases (simp_all only: of_nat_small, linarith+)
  qed
  moreover have "average_grow rnd (Fin b) (int (Suc L)) (Fin v) = Fin r3"
    using r1(1) r2(1) r3(1) by (simp add: average_grow_def double_of_int_def)
  ultimately show ?thesis by blast
qed

lemma slide_error:
  fixes b S v x e d T :: rat
  assumes rw: "rounds_within d M rnd"
    and b: "\<bar>b - S / 5\<bar> \<le> e" and S: "\<bar>S\<bar> \<le> 5 * T" and v: "\<bar>v\<bar> \<le> T" and x: "\<bar>x\<bar> \<le> T"
    and M: "7 * T + 7 * e + 2 * d \<le> M"
  shows "\<exists>r. average_slide rnd (Fin b) 6 (Fin x) (Fin v) = Fin r \<and> \<bar>r - (S - x + v) / 5\<bar> \<le> e + 3 * d"
proof -
  have d: "0 \<le> d" by (rule rounds_within_nonneg [OF rw])
  have e: "0 \<le> e" "0 \<le> T" using b v by linarith+
  have five: "rnd 5 = Fin 5" using rw by (simp add: rounds_within_def RUN_AVG_LENGTH_def)
  have q1: "\<bar>5 * b\<bar> \<le> M" using b S M d e by (auto simp: abs_le_iff)
  obtain r1 where r1: "rnd (5 * b) = Fin r1" "- d \<le> r1 - 5 * b" "r1 - 5 * b \<le> d"
    by (rule rounds_withinE [OF rw q1])
  have q2: "\<bar>r1 - x\<bar> \<le> M" using b S M d e x r1(2,3) by (auto simp: abs_le_iff)
  obtain r2 where r2: "rnd (r1 - x) = Fin r2" "- d \<le> r2 - (r1 - x)" "r2 - (r1 - x) \<le> d"
    by (rule rounds_withinE [OF rw q2])
  have q3: "\<bar>r2 + v\<bar> \<le> M" using b S M d e x v r1(2,3) r2(2,3) by (auto simp: abs_le_iff)
  obtain r3 where r3: "rnd (r2 + v) = Fin r3" "- d \<le> r3 - (r2 + v)" "r3 - (r2 + v) \<le> d"
    by (rule rounds_withinE [OF rw q3])
  have q4: "\<bar>r3 / 5\<bar> \<le> M" using b S M d e x v r1(2,3) r2(2,3) r3(2,3) by (auto simp: abs_le_iff)
  obtain r4 where r4: "rnd (r3 / 5) = Fin r4" "- d \<le> r4 - r3 / 5" "r4 - r3 / 5 \<le> d"
    by (rule rounds_withinE [OF rw q4])
  have "\<bar>r4 - (S - x + v) / 5\<bar> \<le> e + 3 * d"
    using b r1(2,3) r2(2,3) r3(2,3) r4(2,3) d e unfolding abs_le_iff add_divide_distrib diff_divide_distrib
    by linarith
  moreover have "average_slide rnd (Fin b) 6 (Fin x) (Fin v) = Fin r4"
    using five r1(1) r2(1) r3(1) r4(1) by (simp add: average_slide_def double_of_int_def)
  ultimately show ?thesis by blast
qed

text \<open>The first measurement does not see the uninitialised average, as long as it is a number.\<close>

lemma first_error:
  fixes v d T :: rat
  assumes rw: "rounds_within d M rnd" and v: "\<bar>v\<bar> \<le> T" and M: "7 * T + 2 * d \<le> M"
  shows "\<exists>r. average_grow rnd (Fin a) 1 (Fin v) = Fin r \<and> \<bar>r - v\<bar> \<le> 3 * d"
proof -
  have d: "0 \<le> d" by (rule rounds_within_nonneg [OF rw])
  have zero: "rnd 0 = Fin 0" using rw by (simp add: rounds_within_def)
  have q1: "\<bar>v\<bar> \<le> M" using v M d by linarith
  obtain r1 where r1: "rnd v = Fin r1" "- d \<le> r1 - v" "r1 - v \<le> d" by (rule rounds_withinE [OF rw q1])
  have q2: "\<bar>r1\<bar> \<le> M" using v M d r1(2,3) by linarith
  obtain r2 where r2: "rnd r1 = Fin r2" "- d \<le> r2 - r1" "r2 - r1 \<le> d" by (rule rounds_withinE [OF rw q2])
  have "\<bar>r2 - v\<bar> \<le> 3 * d" using d r1(2,3) r2(2,3) by linarith
  moreover have "average_grow rnd (Fin a) 1 (Fin v) = Fin r2"
    using zero r1(1) r2(1) by (simp add: average_grow_def double_of_int_def)
  ultimately show ?thesis by blast
qed

section \<open>A sequence of measurements\<close>

lemma sum_list_bound:
  fixes vs :: "rat list"
  shows "\<forall>v \<in> set vs. \<bar>v\<bar> \<le> T \<Longrightarrow> \<bar>sum_list vs\<bar> \<le> of_nat (length vs) * T"
proof (induction vs)
  case (Cons v vs)
  have "\<bar>v\<bar> \<le> T" "\<bar>sum_list vs\<bar> \<le> of_nat (length vs) * T" using Cons by simp_all
  then show ?case by (simp add: algebra_simps)
qed simp

lemma take_measurement_drift:
  fixes vs :: "rat list"
  assumes rw: "rounds_within d M rnd" and T: "\<forall>w \<in> set (v # vs). \<bar>w\<bar> \<le> T"
    and w: "length vs \<le> RUN_AVG_LENGTH" and t: "s_temps s = map Fin vs"
    and a: "s_avg s = Fin b" "vs \<noteq> [] \<Longrightarrow> \<bar>b - mean vs\<bar> \<le> e" and e: "0 \<le> e"
    and M: "7 * T + 7 * e + 2 * d \<le> M"
  shows "\<exists>r. s_avg (take_measurement rnd (Fin v) s) = Fin r \<and>
     \<bar>r - mean (take RUN_AVG_LENGTH (v # vs))\<bar> \<le> e + 3 * d"
proof -
  have v: "\<bar>v\<bar> \<le> T" using T by simp
  have S: "\<bar>sum_list vs\<bar> \<le> of_nat (length vs) * T" by (rule sum_list_bound) (use T in simp)
  consider "vs = []" | "length vs \<in> {1, 2, 3, 4}" | "length vs = 5"
    using w by (force simp: RUN_AVG_LENGTH_def le_Suc_eq numeral_eq_Suc)
  then show ?thesis
  proof cases
    case 1
    have "7 * T + 2 * d \<le> M" using M e by linarith
    from first_error [OF rw v this, of b] obtain r where
      r: "average_grow rnd (Fin b) 1 (Fin v) = Fin r" "\<bar>r - v\<bar> \<le> 3 * d" by blast
    then show ?thesis
      using 1 t a(1) e by (simp add: take_measurement_def RUN_AVG_LENGTH_def mean_def)
  next
    case 2
    then have "vs \<noteq> []" "length vs < 5" by auto
    moreover from this have "\<bar>b - sum_list vs / of_nat (length vs)\<bar> \<le> e" using a(2) by (simp add: mean_def)
    from grow_error [OF rw 2 this S v M] obtain r where
      "average_grow rnd (Fin b) (int (Suc (length vs))) (Fin v) = Fin r"
      "\<bar>r - (sum_list vs + v) / of_nat (Suc (length vs))\<bar> \<le> e + 3 * d" by blast
    ultimately show ?thesis
      using t a(1) by (simp add: take_measurement_def RUN_AVG_LENGTH_def mean_def add.commute)
  next
    case 3
    then have ne: "vs \<noteq> []" by auto
    have l: "last vs \<in> set vs" using ne by simp
    have sum: "sum_list vs = sum_list (butlast vs) + last vs"
      using ne by (metis append_butlast_last_id sum_list.append sum_list_simps(1) sum_list_simps(2) add_0_right)
    have "\<bar>b - sum_list vs / 5\<bar> \<le> e" using a(2) [OF ne] 3 by (simp add: mean_def)
    moreover have "\<bar>sum_list vs\<bar> \<le> 5 * T" "\<bar>last vs\<bar> \<le> T" using S 3 T l by simp_all
    ultimately obtain r where r: "average_slide rnd (Fin b) 6 (Fin (last vs)) (Fin v) = Fin r"
        "\<bar>r - (sum_list vs - last vs + v) / 5\<bar> \<le> e + 3 * d"
      using slide_error [OF rw _ _ v _ M, of b "sum_list vs" "last vs"] by blast
    have nth: "(Fin v # map Fin vs) ! 5 = Fin (last vs)" using 3 ne by (simp add: last_conv_nth)
    have "take 5 (v # vs) = v # butlast vs" using 3 ne by (simp add: butlast_conv_take take_Cons')
    then have "mean (take 5 (v # vs)) = (sum_list vs - last vs + v) / 5"
      using 3 sum by (simp add: mean_def)
    then have "\<bar>r - mean (take RUN_AVG_LENGTH (v # vs))\<bar> \<le> e + 3 * d"
      using r(2) unfolding RUN_AVG_LENGTH_def by (rule ssubst)
    moreover have "s_avg (take_measurement rnd (Fin v) s) = Fin r"
      using r(1) 3 t a(1) nth by (simp add: take_measurement_def RUN_AVG_LENGTH_def)
    ultimately show ?thesis by blast
  qed
qed

lemma measured_drift:
  assumes rw: "rounds_within d M rnd" and s0: "s_temps s = []" "s_avg s = Fin a"
    and "map data_value ds = map Fin vs" and "\<forall>v \<in> set vs. \<bar>v\<bar> \<le> T"
    and "7 * T + 21 * d * of_nat (length vs) + 2 * d \<le> M"
  shows "s_temps (foldl (\<lambda>s d. measured rnd d s) s ds) = map Fin (take RUN_AVG_LENGTH (rev vs)) \<and>
    (\<exists>b. s_avg (foldl (\<lambda>s d. measured rnd d s) s ds) = Fin b \<and>
       (vs \<noteq> [] \<longrightarrow> \<bar>b - mean (take RUN_AVG_LENGTH (rev vs))\<bar> \<le> 3 * d * of_nat (length vs)))"
  using assms(4-6)
proof (induction ds arbitrary: vs rule: rev_induct)
  case (snoc x ds)
  then obtain us v where vs: "vs = us @ [v]" "data_value x = Fin v" "map data_value ds = map Fin us"
    by (auto simp: append_eq_map_conv map_eq_append_conv)
  let ?s = "foldl (\<lambda>s d. measured rnd d s) s ds" and ?w = "take RUN_AVG_LENGTH (rev us)"
  let ?e = "3 * d * of_nat (length us)"
  have d: "0 \<le> d" by (rule rounds_within_nonneg [OF rw])
  have M: "7 * T + 7 * ?e + 2 * d \<le> M" using snoc.prems(3) vs(1) d by (simp add: algebra_simps)
  have "7 * T + 21 * d * of_nat (length us) + 2 * d \<le> M" using M by (simp add: algebra_simps)
  from snoc.IH [OF vs(3) _ this] obtain b where b: "s_avg ?s = Fin b" "us \<noteq> [] \<longrightarrow> \<bar>b - mean ?w\<bar> \<le> ?e"
      and t: "s_temps ?s = map Fin ?w" using snoc.prems(2) vs(1) by auto
  have T: "\<forall>w \<in> set (v # ?w). \<bar>w\<bar> \<le> T" using snoc.prems(2) vs(1) by (auto dest: in_set_takeD)
  have len: "length ?w \<le> RUN_AVG_LENGTH" by simp
  have avg: "?w \<noteq> [] \<Longrightarrow> \<bar>b - mean ?w\<bar> \<le> ?e" using b(2) by auto
  have "window_ok ?s" using t by (simp add: window_ok_def)
  from take_measurement_temps [OF this, of rnd "Fin v"] have
    "s_temps (take_measurement rnd (Fin v) ?s) = map Fin (take RUN_AVG_LENGTH (v # ?w))"
    using t by (simp add: take_map [symmetric])
  moreover obtain r where "s_avg (take_measurement rnd (Fin v) ?s) = Fin r"
      "\<bar>r - mean (take RUN_AVG_LENGTH (v # ?w))\<bar> \<le> ?e + 3 * d"
    using take_measurement_drift [OF rw T len t b(1) avg _ M] d by auto
  moreover have "take RUN_AVG_LENGTH (v # ?w) = take RUN_AVG_LENGTH (rev vs)"
    using vs(1) by (simp add: take_Cons' RUN_AVG_LENGTH_def min_def)
  ultimately show ?case using vs by (simp add: algebra_simps)
qed (use s0 in simp)

text \<open>A rounding that is not exact: to the next smaller eighth.\<close>

definition eighths :: "rat \<Rightarrow> double" where
  "eighths q = Fin (of_int \<lfloor>8 * q\<rfloor> / 8)"

lemma rounds_within_eighths: "rounds_within (1 / 8) M eighths"
proof -
  have "\<bar>of_int \<lfloor>8 * q\<rfloor> / 8 - q\<bar> \<le> 1 / 8" for q :: rat
    using floor_correct [of "8 * q"] by linarith
  then have "\<exists>r. eighths q = Fin r \<and> \<bar>r - q\<bar> \<le> 1 / 8" for q unfolding eighths_def by blast
  then show ?thesis by (simp add: rounds_within_def eighths_def RUN_AVG_LENGTH_def)
qed

end
