(* ===== verification/Datamgr_Claims.thy ===== *)
theory Datamgr_Claims
  imports Datamgr_Memory Datamgr_Drift
begin

text \<open>
  The properties of datamgr.c, from the text of the room map to the log messages and the
  queries, each with an application to a map of one or two sensors.
\<close>

section \<open>The values of the examples\<close>

text \<open>What \<open>malloc\<close> may leave in a sensor: a zero, or no number, as the running average.\<close>

definition raw_zero :: "addr \<Rightarrow> sensor_t" where
  "raw_zero a = \<lparr>sensor_id = 0, room_id = 0, running_avg = Fin 0, last_modified = 0, temperatures = 0\<rparr>"

definition raw_nan :: "addr \<Rightarrow> sensor_t" where
  "raw_nan a = \<lparr>sensor_id = 0, room_id = 0, running_avg = NaN, last_modified = 0, temperatures = 0\<rparr>"

definition raw_measurement :: sensor_data_t where
  "raw_measurement = \<lparr>data_id = 0, data_value = Fin 0, data_ts = 0\<rparr>"

definition reading :: "16 word \<Rightarrow> rat \<Rightarrow> 64 word \<Rightarrow> sensor_data_t" where
  "reading i q t = \<lparr>data_id = i, data_value = Fin q, data_ts = t\<rparr>"

lemma reading_fields [simp]:
  "data_id (reading i q t) = i" "data_value (reading i q t) = Fin q" "data_ts (reading i q t) = t"
  by (simp_all add: reading_def)

section \<open>The whole run\<close>

lemma map_pairs_of_text: "map_pairs (map_text ps) a b = ps"
  using map_pairs_text [of "[]" ps a b] by simp

lemma new_sensors:
  shows "map (\<lambda>s. (s_room s, s_id s)) (add_sensors raw a ps []) = map_order ps"
    and "\<forall>s \<in> set (add_sensors raw a ps []). s_temps s = []"
    and "\<forall>s \<in> set (add_sensors raw a ps []). window_ok s"
  using add_sensors_order [of raw a ps] add_sensors_temps [of "[]" raw a ps]
  by (simp_all add: window_ok_def)

lemma start_of_text:
  assumes "3 * length ps + 2 \<le> n"
  obtains sl bd h es where "datamgr_start raw raw_data (map_text ps) r0 s0 (empty_heap n) = Inr (sl, bd, h)"
    "sensors_repr h sl es (add_sensors raw 2 ps [])" "cells h bd = Some (Obj (Data raw_data))"
    "budget h = n - 2 - 3 * length ps" "owns h (footprint sl es \<union> {bd})"
proof -
  have "3 * length (map_pairs (map_text ps) r0 s0) + 2 \<le> n" using assms map_pairs_of_text by simp
  from datamgr_start_implements [OF this, of raw raw_data] show ?thesis using that unfolding map_pairs_of_text by blast
qed

lemma whole_run:
  assumes "3 * length ps + 2 + 2 * length ds \<le> n"
  shows "\<exists>sl bd h es h' es'.
     datamgr_start raw raw_data (map_text ps) r0 s0 (empty_heap n) = Inr (sl, bd, h) \<and>
     sensors_repr h sl es (add_sensors raw 2 ps []) \<and> cells h bd = Some (Obj (Data raw_data)) \<and>
     2 * length ds \<le> budget h \<and>
     process_all raw rnd h sl bd ds = Inr (fst (store_run rnd ds (add_sensors raw 2 ps [])), h') \<and>
     sensors_repr h' sl es' (snd (store_run rnd ds (add_sensors raw 2 ps []))) \<and>
     (\<exists>d. cells h' bd = Some (Obj (Data d))) \<and> owns h' (footprint sl es' \<union> {bd})"
proof -
  have "3 * length ps + 2 \<le> n" using assms by simp
  then obtain sl bd h es where
    st: "datamgr_start raw raw_data (map_text ps) r0 s0 (empty_heap n) = Inr (sl, bd, h)"
      "sensors_repr h sl es (add_sensors raw 2 ps [])" "cells h bd = Some (Obj (Data raw_data))"
      "budget h = n - 2 - 3 * length ps" "owns h (footprint sl es \<union> {bd})"
    using start_of_text by blast
  have room: "2 * length ds \<le> budget h" using assms(1) st(4) by linarith
  then have "demand ds (add_sensors raw 2 ps []) \<le> budget h" using demand_le le_trans by blast
  from process_all_implements [OF st(2,3) new_sensors(3) this, of raw rnd] st room
  show ?thesis by blast
qed

text \<open>C2. The data manager implements its abstract specification: from the text of a room map and with
  memory for three allocations per sensor, two per measurement and two more, the start-up and any
  sequence of measurements run without a fault; the heap then represents the abstract sensors after
  the abstract run, one for each line of the map, and exactly the messages of the abstract run have
  been logged. The sensors stand in the order of the map up to 151 lines; of a longer map every later
  line goes in front of the last one, and none is lost.\<close>

theorem datamgr_implements_store:
  assumes "3 * length ps + 2 + 2 * length ds \<le> n"
  shows "\<exists>ss sl bd h h' es'.
     datamgr_start raw raw_data (map_text ps) r0 s0 (empty_heap n) = Inr (sl, bd, h) \<and>
     map (\<lambda>s. (s_room s, s_id s)) ss = map_order ps \<and> (\<forall>s \<in> set ss. s_temps s = []) \<and>
     process_all raw rnd h sl bd ds = Inr (fst (store_run rnd ds ss), h') \<and>
     sensors_repr h' sl es' (snd (store_run rnd ds ss)) \<and>
     mset (map_order ps) = mset ps \<and> (length ps \<le> 151 \<longrightarrow> map_order ps = ps)"
  using whole_run [OF assms, of raw raw_data r0 s0 rnd] map_order_short [of ps] mset_map_order [of ps] new_sensors [of raw 2 ps] by blast

lemma datamgr_implements_store_witness:
  "\<exists>ss sl bd h h' es'.
     datamgr_start raw_zero raw_measurement (map_text [(1, 15), (2, 21)]) 0 0 (empty_heap 20) = Inr (sl, bd, h) \<and>
     map (\<lambda>s. (s_room s, s_id s)) ss = [(1, 15), (2, 21)] \<and> (\<forall>s \<in> set ss. s_temps s = []) \<and>
     process_all raw_zero Fin h sl bd [reading 15 18 100, reading 28 20 101] =
       Inr (fst (store_run Fin [reading 15 18 100, reading 28 20 101] ss), h') \<and>
     sensors_repr h' sl es' (snd (store_run Fin [reading 15 18 100, reading 28 20 101] ss))"
  using datamgr_implements_store [of "[(1, 15), (2, 21)]" "[reading 15 18 100, reading 28 20 101]" 20 raw_zero
      raw_measurement 0 0 Fin] map_order_short [of "[(1 :: 16 word, 15 :: 16 word), (2, 21)]"] by simp

lemma datamgr_whole_run:
  assumes "3 * length ps + 2 + 2 * length ds \<le> n"
  shows "\<exists>ss h'. map (\<lambda>s. (s_room s, s_id s)) ss = map_order ps \<and> (\<forall>s \<in> set ss. s_temps s = []) \<and>
     datamgr_parse_sensor_data raw rnd raw_data r0 s0 (map_text ps) ds (empty_heap n) =
       Inr (fst (store_run rnd ds ss), h') \<and> (\<forall>a. cells h' a = None)"
proof -
  from whole_run [OF assms, of raw raw_data r0 s0 rnd] obtain sl bd h h' es' d where
    run: "datamgr_start raw raw_data (map_text ps) r0 s0 (empty_heap n) = Inr (sl, bd, h)"
      "process_all raw rnd h sl bd ds = Inr (fst (store_run rnd ds (add_sensors raw 2 ps [])), h')"
    and r: "sensors_repr h' sl es' (snd (store_run rnd ds (add_sensors raw 2 ps [])))"
    and b: "cells h' bd = Some (Obj (Data d))" and o: "owns h' (footprint sl es' \<union> {bd})" by blast
  from datamgr_finish_ok [OF r b o, of raw] run new_sensors [of raw 2 ps] show ?thesis
    by (intro exI [of _ "add_sensors raw 2 ps []"]) (auto simp: datamgr_parse_sensor_data_def)
qed





section \<open>Averages\<close>



lemma measured_room [simp]:
  "s_room (foldl (\<lambda>s d. measured rnd d s) s ds) = s_room s" "s_id (foldl (\<lambda>s d. measured rnd d s) s ds) = s_id s"
  by (induction ds arbitrary: s) simp_all

lemma measured_NaN:
  assumes "s_temps s = []" and "\<nexists>a. s_avg s = Fin a" and "ds \<noteq> []"
  shows "s_avg (foldl (\<lambda>s d. measured rnd d s) s ds) = NaN"
  using assms(3)
proof (induction ds rule: rev_nonempty_induct)
  case (single d)
  then show ?case using average_not_finite [OF assms(1,2)] by simp
next
  case (snoc d ds)
  then show ?case using average_NaN by simp
qed

lemma store_run_ids [simp]: "map s_id (snd (store_run rnd ds ss)) = map s_id ss"
  by (induction ds arbitrary: ss) (simp_all add: case_prod_beta)

text \<open>After a run, the queries see the fold of a sensor's own measurements.\<close>

lemma queries_after_run:
  assumes r: "sensors_repr h sl es (snd (store_run rnd ds ss))"
    and di: "distinct (map s_id ss)" and k: "k < length ss"
    and f: "f = foldl (\<lambda>s d. measured rnd d s) (ss ! k) (filter (\<lambda>d. data_id d = s_id (ss ! k)) ds)"
  shows "datamgr_get_room_id h (s_id (ss ! k)) sl = Inr (s_room (ss ! k)) \<and>
    datamgr_get_avg h (s_id (ss ! k)) sl = Inr (s_avg f) \<and>
    datamgr_get_last_modified h (s_id (ss ! k)) sl = Inr (s_last f)"
proof -
  let ?ss = "snd (store_run rnd ds ss)"
  have kth: "?ss ! k = f" using store_run_own_measurements [OF di k] f by simp
  have "distinct (map s_id ?ss)" "k < length ?ss" using di k by simp_all
  from sensor_index_nth [OF this] have ix: "sensor_index (s_id (ss ! k)) ?ss = int k"
    unfolding kth using f by simp
  then have "sensor_index (s_id (ss ! k)) ?ss \<noteq> -1" by simp
  from queries_of [OF r this] show ?thesis using f by (simp add: ix kth)
qed

text \<open>Each line of the map has its sensor.\<close>

lemma added_sensor:
  assumes "p \<in> set ps"
  obtains j where "j < length (add_sensors raw a ps [])" "s_id (add_sensors raw a ps [] ! j) = snd p"
    "s_room (add_sensors raw a ps [] ! j) = fst p" "s_temps (add_sensors raw a ps [] ! j) = []"
proof -
  have "p \<in> (\<lambda>s. (s_room s, s_id s)) ` set (add_sensors raw a ps [])"
    using assms arg_cong [OF new_sensors(1) [of raw a ps], of set] mset_eq_setD [OF mset_map_order [of ps]] by simp
  then obtain s where s: "s \<in> set (add_sensors raw a ps [])" "p = (s_room s, s_id s)" by blast
  then obtain j where "j < length (add_sensors raw a ps [])" "add_sensors raw a ps [] ! j = s"
    by (auto simp: in_set_conv_nth)
  then show ?thesis using that s new_sensors(2) [of raw a ps] by simp
qed

lemma added_sensors_distinct:
  assumes "distinct (map snd ps)"
  shows "distinct (map s_id (add_sensors raw a ps []))"
proof -
  have "map s_id (add_sensors raw a ps []) = map snd (map_order ps)"
    using arg_cong [OF new_sensors(1) [of raw a ps], of "map snd"] by (simp add: comp_def)
  moreover have "mset (map snd (map_order ps)) = mset (map snd ps)" by simp
  ultimately show ?thesis using assms mset_eq_imp_distinct_iff by metis
qed

lemma added_sensor_avg:
  "s \<in> set (add_sensors raw a ps ss) \<Longrightarrow> s \<in> set ss \<or> (\<exists>b. s_avg s = running_avg (raw b))"
proof (induction raw a ps ss rule: add_sensors.induct)
  case (2 raw a room i ps ss)
  then show ?case by (auto simp: new_sensor_def)
qed simp






lemma silent_run:
  "distinct (map s_id ss) \<Longrightarrow> k < length ss \<Longrightarrow> \<forall>d \<in> set ds. data_id d = s_id (ss ! k) \<Longrightarrow>
   s_avg (ss ! k) = NaN \<or> s_temps (ss ! k) = [] \<and> (\<nexists>a. s_avg (ss ! k) = Fin a) \<Longrightarrow>
   fst (store_run rnd ds ss) = []"
proof (induction ds arbitrary: ss)
  case (Cons d ds)
  let ?s' = "measured rnd d (ss ! k)"
  have nan: "s_avg ?s' = NaN"
    using Cons.prems(4) average_NaN average_not_finite by auto
  have ix: "sensor_index (data_id d) ss = int k"
    using sensor_index_nth [OF Cons.prems(1,2)] Cons.prems(3) by simp
  have up: "store_update rnd d ss ! k = ?s'"
    using store_update_nth [OF Cons.prems(1,2), of rnd d] Cons.prems(3) by simp
  have "store_msgs rnd d ss = []"
    using ix average_NaN_silent [OF nan] by (simp add: store_msgs_def)
  moreover have "fst (store_run rnd ds (store_update rnd d ss)) = []"
    using Cons.prems up nan by (intro Cons.IH) simp_all
  ultimately show ?case by (simp add: case_prod_beta)
qed simp

text \<open>C26. The running average of a new sensor is not initialised. When that memory does not hold a
  finite number, the average is NaN from the first measurement on, whatever the measurements and the
  rounding, and no measurement of the sensor, however hot or cold, is ever reported.\<close>

theorem uninitialised_average_silent:
  assumes "3 * length ps + 2 + 2 * length ds \<le> n"
    and "distinct (map snd ps)" and "k < length ps" and "\<forall>a q. running_avg (raw a) \<noteq> Fin q"
    and "\<forall>d \<in> set ds. data_id d = snd (ps ! k)" and "ds \<noteq> []"
  shows "\<exists>sl bd h h'.
     datamgr_start raw raw_data (map_text ps) r0 s0 (empty_heap n) = Inr (sl, bd, h) \<and>
     process_all raw rnd h sl bd ds = Inr ([], h') \<and>
     datamgr_get_avg h' (snd (ps ! k)) sl = Inr NaN"
proof -
  let ?ss = "add_sensors raw 2 ps []"
  obtain j where j: "j < length ?ss" and nth: "s_id (?ss ! j) = snd (ps ! k)" "s_temps (?ss ! j) = []"
    by (rule added_sensor [OF nth_mem [OF assms(3)], of raw 2])
  obtain sl bd h h' es' where run:
    "datamgr_start raw raw_data (map_text ps) r0 s0 (empty_heap n) = Inr (sl, bd, h)"
    "process_all raw rnd h sl bd ds = Inr (fst (store_run rnd ds ?ss), h')"
    "sensors_repr h' sl es' (snd (store_run rnd ds ?ss))"
    using whole_run [OF assms(1), of raw raw_data r0 s0 rnd] by blast
  note di = added_sensors_distinct [OF assms(2), of raw 2]
  have nf: "\<nexists>a. s_avg (?ss ! j) = Fin a"
    using added_sensor_avg [OF nth_mem [OF j]] assms(4) by (metis empty_iff list.set(1))
  have own: "filter (\<lambda>d. data_id d = s_id (?ss ! j)) ds = ds" using assms(5) nth(1) by (simp add: filter_id_conv)
  from queries_after_run [OF run(3) di j refl] have
    "datamgr_get_avg h' (snd (ps ! k)) sl = Inr NaN"
    using own measured_NaN [OF nth(2) nf assms(6)] nth(1) by simp
  moreover have "fst (store_run rnd ds ?ss) = []"
    using assms(5) nth(1) di j nf nth(2)
    by (intro silent_run [of ?ss j]) auto
  ultimately show ?thesis using run by auto
qed

lemma uninitialised_average_silent_witness:
  "\<exists>sl bd h h'.
     datamgr_start raw_nan raw_measurement (map_text [(1, 15)]) 0 0 (empty_heap 20) = Inr (sl, bd, h) \<and>
     process_all raw_nan Fin h sl bd [reading 15 90 1, reading 15 95 2] = Inr ([], h') \<and>
     datamgr_get_avg h' 15 sl = Inr NaN"
  using uninitialised_average_silent [of "[(1, 15)]" "[reading 15 90 1, reading 15 95 2]" 20 0 raw_nan
      raw_measurement 0 0 Fin]
  by (simp add: raw_nan_def)

section \<open>Messages\<close>

text \<open>C25. A measurement of a sensor of the map logs at most one message, about that sensor and its new
  average: the sensor is too cold exactly when the average is below ten, too warm exactly when it is
  above twenty; nothing else is logged. The time of the measurement becomes the sensor's last
  change.\<close>

theorem threshold_messages:
  assumes "sensors_repr h sl es ss" and "cells h b = Some (Obj (Data d))"
    and "\<forall>s \<in> set ss. window_ok s" and "2 \<le> budget h"
    and "sensor_index (data_id d) ss = int k"
    and "s_avg (take_measurement rnd (data_value d) (ss ! k)) = Fin q"
  shows "\<exists>h'. process_measurement raw rnd h sl b =
       Inr (if q < 10 then [too_cold_msg (data_id d) (Fin q)]
            else if 20 < q then [too_warm_msg (s_room (ss ! k)) (data_id d) (Fin q) (data_ts d)] else [], h') \<and>
     datamgr_get_avg h' (data_id d) sl = Inr (Fin q) \<and>
     datamgr_get_last_modified h' (data_id d) sl = Inr (data_ts d)"
proof -
  obtain h' es' where h': "process_measurement raw rnd h sl b = Inr (store_msgs rnd d ss, h')"
      "sensors_repr h' sl es' (store_update rnd d ss)"
    using process_measurement_implements [OF assms(1-3), of raw rnd] assms(4) by blast
  have k: "k < length ss"
    using sensor_index_found(1) [of "data_id d" ss] assms(5) by simp
  have "store_msgs rnd d ss =
      (if q < 10 then [too_cold_msg (data_id d) (Fin q)]
       else if 20 < q then [too_warm_msg (s_room (ss ! k)) (data_id d) (Fin q) (data_ts d)] else [])"
    using assms(5,6) by (simp add: store_msgs_def threshold_msgs_def sensor_struct_def double_of_int_def
        SET_MIN_TEMP_def SET_MAX_TEMP_def)
  moreover have "sensor_index (data_id d) (store_update rnd d ss) = int k"
    using sensor_index_ids [of "store_update rnd d ss" ss "data_id d"] assms(5) by simp
  moreover have "store_update rnd d ss ! k = measured rnd d (ss ! k)"
    using assms(5) k by (simp add: store_update_def)
  ultimately show ?thesis
    using h' queries_of [OF h'(2), of "data_id d"] assms(6) by (intro exI [of _ h']) simp
qed

text \<open>A measurement with an id that is not in the map changes no sensor and nothing else in the
  heap: it only logs the message about the invalid id, with the number of the measurement.\<close>

theorem unknown_sensor:
  assumes "sensors_repr h sl es ss" and "cells h b = Some (Obj (Data d))"
    and "\<forall>s \<in> set ss. s_id s \<noteq> data_id d"
  shows "process_measurement raw rnd h sl b = Inr ([invalid_id_msg (data_id d)], h)"
proof -
  have "sensor_index (data_id d) ss = -1"
    using assms(3) by (simp add: sensor_index_def index_where_Nil_iff)
  moreover have "heap_ok h" using assms(1) dlist_ok by (auto simp: sensors_repr_def)
  ultimately show ?thesis
    using find_measured_sensor [OF assms(1,2), of raw] read_data_ok [OF assms(2)]
    by (simp add: process_measurement_def)
qed


section \<open>Applications to a heap with one sensor\<close>

lemma one_sensor:
  "\<exists>sl b h es. datamgr_start raw_zero (reading i q t) (map_text [(1, 15)]) 0 0 (empty_heap 20) = Inr (sl, b, h) \<and>
     sensors_repr h sl es [new_sensor (raw_zero 2) 1 15] \<and>
     cells h b = Some (Obj (Data (reading i q t))) \<and> 2 \<le> budget h"
  using whole_run [of "[(1, 15)]" "[reading 0 0 0]" 20 raw_zero "reading i q t" 0 0 Fin]
  by (auto simp: ins_pos_def)

lemma threshold_messages_witness:
  "\<exists>sl b h h'.
     datamgr_start raw_zero (reading 15 25 100) (map_text [(1, 15)]) 0 0 (empty_heap 20) = Inr (sl, b, h) \<and>
     process_measurement raw_zero Fin h sl b = Inr ([too_warm_msg 1 15 (Fin 25) 100], h')"
proof -
  let ?s = "new_sensor (raw_zero 2) 1 15"
  obtain sl b h es where h: "datamgr_start raw_zero (reading 15 25 100) (map_text [(1, 15)]) 0 0 (empty_heap 20) = Inr (sl, b, h)"
      "sensors_repr h sl es [?s]" "cells h b = Some (Obj (Data (reading 15 25 100)))" "2 \<le> budget h"
    using one_sensor by blast
  have ix: "sensor_index (data_id (reading 15 25 100)) [?s] = int 0"
    by (simp add: sensor_index_def new_sensor_def)
  have av: "s_avg (take_measurement Fin (data_value (reading 15 25 100)) ([?s] ! 0)) = Fin 25"
    by (simp add: take_measurement_def RUN_AVG_LENGTH_def average_grow_def new_sensor_def raw_zero_def double_of_int_def)
  have w: "\<forall>s \<in> set [?s]. window_ok s" by (simp add: window_ok_def new_sensor_def)
  from threshold_messages [OF h(2,3) w h(4) ix av, of raw_zero] h(1) show ?thesis
    by (auto simp: new_sensor_def)
qed

lemma unknown_sensor_witness:
  "\<exists>sl b h.
     datamgr_start raw_zero (reading 28 25 100) (map_text [(1, 15)]) 0 0 (empty_heap 20) = Inr (sl, b, h) \<and>
     process_measurement raw_zero Fin h sl b = Inr ([invalid_id_msg 28], h)"
proof -
  let ?s = "new_sensor (raw_zero 2) 1 15"
  obtain sl b h es where h: "datamgr_start raw_zero (reading 28 25 100) (map_text [(1, 15)]) 0 0 (empty_heap 20) = Inr (sl, b, h)"
      "sensors_repr h sl es [?s]" "cells h b = Some (Obj (Data (reading 28 25 100)))"
    using one_sensor by blast
  have "\<forall>s \<in> set [?s]. s_id s \<noteq> data_id (reading 28 25 100)" by (simp add: new_sensor_def)
  from unknown_sensor [OF h(2,3) this, of raw_zero Fin] h(1) show ?thesis by auto
qed


end
