(* ===== verification/Tcpsock.thy ===== *)
theory Tcpsock
  imports CHeap CFormat
begin

text \<open>
  lib/tcpsock.c: the socket structs, which live in a heap of their own, and every operation of
  the file. The results of the system calls are arguments, collected in one record per
  operation; what a call does to the table of open descriptors is modelled (a successful
  \<open>socket\<close> or \<open>accept\<close> adds one, a successful \<open>close\<close> removes it), so that
  descriptors that an operation forgets are visible.
\<close>

section \<open>State\<close>

definition TCP_NO_ERROR :: int where "TCP_NO_ERROR = 0"
definition TCP_SOCKET_ERROR :: int where "TCP_SOCKET_ERROR = 1"
definition TCP_ADDRESS_ERROR :: int where "TCP_ADDRESS_ERROR = 2"
definition TCP_SOCKOP_ERROR :: int where "TCP_SOCKOP_ERROR = 3"
definition TCP_CONNECTION_CLOSED :: int where "TCP_CONNECTION_CLOSED = 4"
definition TCP_MEMORY_ERROR :: int where "TCP_MEMORY_ERROR = 5"

lemmas tcp_codes = TCP_NO_ERROR_def TCP_SOCKET_ERROR_def TCP_ADDRESS_ERROR_def
  TCP_SOCKOP_ERROR_def TCP_CONNECTION_CLOSED_def TCP_MEMORY_ERROR_def

definition MIN_PORT :: int where "MIN_PORT = 1024"
definition MAX_PORT :: int where "MAX_PORT = 65536"
definition MAGIC_COOKIE :: int where "MAGIC_COOKIE = 0xA2E1CF37D35"
definition CHAR_IP_ADDR_LENGTH :: nat where "CHAR_IP_ADDR_LENGTH = 16"
definition EPIPE :: int where "EPIPE = 32"
definition ENOTCONN :: int where "ENOTCONN = 107"

record tcpsock =
  cookie :: int
  sd :: int
  ip_addr :: addr
  port :: int

text \<open>What the operations get from \<open>malloc\<close>: socket structs and address strings.\<close>

datatype net_obj = Sock tcpsock | Str string

record net =
  net_heap :: "net_obj heap"
  open_sds :: "int list"

definition read_sock :: "net \<Rightarrow> addr \<Rightarrow> tcpsock res" where
  "read_sock n p =
     bindE (load (net_heap n) p) (\<lambda>c. case c of Sock s \<Rightarrow> Inr s | _ \<Rightarrow> Inl InvalidPtr)"

definition upd_sock :: "net \<Rightarrow> addr \<Rightarrow> (tcpsock \<Rightarrow> tcpsock) \<Rightarrow> net res" where
  "upd_sock n p f =
     bindE (read_sock n p) (\<lambda>s.
     bindE (store (net_heap n) p (Sock (f s))) (\<lambda>h. Inr (n\<lparr>net_heap := h\<rparr>)))"

definition free_net :: "net \<Rightarrow> addr \<Rightarrow> net res" where
  "free_net n p = bindE (cfree (net_heap n) p) (\<lambda>h. Inr (n\<lparr>net_heap := h\<rparr>))"

text \<open>The descriptor that \<open>socket\<close> or \<open>accept\<close> has returned; the calls \<open>shutdown\<close> and \<open>close\<close>.\<close>

definition got_sd :: "int \<Rightarrow> net \<Rightarrow> net" where
  "got_sd d n = (if 0 \<le> d then n\<lparr>open_sds := d # open_sds n\<rparr> else n)"

definition closed_sd :: "int \<Rightarrow> int \<Rightarrow> net \<Rightarrow> net" where
  "closed_sd result d n = (if result = 0 then n\<lparr>open_sds := remove1 d (open_sds n)\<rparr> else n)"

text \<open>\<open>inet_ntoa\<close>: the four bytes of an address, most significant first, in decimal.\<close>

definition inet_ntoa :: "32 word \<Rightarrow> string" where
  "inet_ntoa a =
     show_nat (unat (take_bit 8 (drop_bit 24 a))) @ ''.'' @
     show_nat (unat (take_bit 8 (drop_bit 16 a))) @ ''.'' @
     show_nat (unat (take_bit 8 (drop_bit 8 a))) @ ''.'' @
     show_nat (unat (take_bit 8 a))"

section \<open>Operations\<close>

definition unbound_sock :: tcpsock where
  "unbound_sock = \<lparr>cookie = 0, sd = -1, ip_addr = 0, port = -1\<rparr>"

definition tcp_sock_create :: "net \<Rightarrow> addr \<times> net" where
  "tcp_sock_create n =
     (let (s, h) = malloc (Sock unbound_sock) (net_heap n) in (s, n\<lparr>net_heap := h\<rparr>))"

text \<open>The answers of \<open>socket\<close>, \<open>bind\<close> (by port) and \<open>listen\<close>.\<close>

record passive_answers =
  pa_socket :: int
  pa_bind :: "16 word \<Rightarrow> int"
  pa_listen :: int

text \<open>
  The result of an operation that opens a socket: its code, what it has stored in \<open>*sock\<close>,
  if anything, and the state. \<open>htons\<close> takes the low sixteen bits of the port.
\<close>

definition tcp_passive_open :: "passive_answers \<Rightarrow> int \<Rightarrow> net \<Rightarrow> (int \<times> addr option \<times> net) res" where
  "tcp_passive_open os prt n =
     (if prt < MIN_PORT \<or> prt > MAX_PORT then Inr (TCP_ADDRESS_ERROR, None, n)
      else let (s, n1) = tcp_sock_create n in
        if s = 0 then Inr (TCP_MEMORY_ERROR, None, n1)
        else let n2 = got_sd (pa_socket os) n1 in
          bindE (upd_sock n2 s (sd_update (\<lambda>_. pa_socket os))) (\<lambda>n3.
          if pa_socket os < 0
          then bindE (free_net n3 s) (\<lambda>n4. Inr (TCP_SOCKOP_ERROR, None, n4))
          else if pa_bind os (word_of_int prt) \<noteq> 0
          then bindE (free_net n3 s) (\<lambda>n4. Inr (TCP_SOCKOP_ERROR, None, n4))
          else if pa_listen os \<noteq> 0
          then bindE (free_net n3 s) (\<lambda>n4. Inr (TCP_SOCKOP_ERROR, None, n4))
          else
            bindE (upd_sock n3 s (\<lambda>t. t\<lparr>ip_addr := 0, port := prt, cookie := MAGIC_COOKIE\<rparr>)) (\<lambda>n4.
            Inr (TCP_NO_ERROR, Some s, n4))))"

text \<open>
  The answers that \<open>tcp_active_open\<close> gets: \<open>inet_aton\<close> (the address it has parsed),
  \<open>connect\<close>, and \<open>getsockname\<close> with the local address and port.
\<close>

record active_answers =
  aa_socket :: int
  aa_aton :: "string \<Rightarrow> 32 word option"
  aa_connect :: "32 word \<Rightarrow> 16 word \<Rightarrow> int"
  aa_getsockname :: int
  aa_local_addr :: "32 word"
  aa_local_port :: "16 word"

definition tcp_active_open ::
    "active_answers \<Rightarrow> int \<Rightarrow> string option \<Rightarrow> net \<Rightarrow> (int \<times> addr option \<times> net) res" where
  "tcp_active_open os remote_port remote_ip n =
     (if remote_port < MIN_PORT \<or> remote_port > MAX_PORT then Inr (TCP_ADDRESS_ERROR, None, n)
      else case remote_ip of None \<Rightarrow> Inr (TCP_ADDRESS_ERROR, None, n)
      | Some ip \<Rightarrow>
        let (client, n1) = tcp_sock_create n in
        if client = 0 then Inr (TCP_MEMORY_ERROR, None, n1)
        else let n2 = got_sd (aa_socket os) n1 in
          bindE (upd_sock n2 client (sd_update (\<lambda>_. aa_socket os))) (\<lambda>n3.
          if aa_socket os < 0
          then bindE (free_net n3 client) (\<lambda>n4. Inr (TCP_SOCKOP_ERROR, None, n4))
          else case aa_aton os ip of
            None \<Rightarrow> bindE (free_net n3 client) (\<lambda>n4. Inr (TCP_ADDRESS_ERROR, None, n4))
          | Some a \<Rightarrow>
            if aa_connect os a (word_of_int remote_port) \<noteq> 0
            then bindE (free_net n3 client) (\<lambda>n4. Inr (TCP_SOCKOP_ERROR, None, n4))
            else if aa_getsockname os \<noteq> 0
            then bindE (free_net n3 client) (\<lambda>n4. Inr (TCP_SOCKOP_ERROR, None, n4))
            else
              let (p, h) = malloc (Str (take CHAR_IP_ADDR_LENGTH (inet_ntoa (aa_local_addr os))))
                             (net_heap n3);
                  n5 = n3\<lparr>net_heap := h\<rparr>
              in bindE (upd_sock n5 client (ip_addr_update (\<lambda>_. p))) (\<lambda>n6.
              if p = 0 then bindE (free_net n6 client) (\<lambda>n7. Inr (TCP_MEMORY_ERROR, None, n7))
              else
                bindE (upd_sock n6 client (\<lambda>t. t\<lparr>port := uint (aa_local_port os), cookie := MAGIC_COOKIE\<rparr>))
                  (\<lambda>n7. Inr (TCP_NO_ERROR, Some client, n7)))))"

text \<open>
  \<open>tcp_close (&socket)\<close>: the code, what is left in \<open>socket\<close> and the state. The
  descriptor is closed only when \<open>shutdown\<close> has not failed.
\<close>

definition tcp_close :: "int \<Rightarrow> int \<Rightarrow> addr \<Rightarrow> net \<Rightarrow> (int \<times> addr \<times> net) res" where
  "tcp_close shutdown_result close_result socket n =
     (if socket = 0 then Inr (TCP_SOCKET_ERROR, socket, n)
      else
        bindE (read_sock n socket) (\<lambda>s.
        bindE (if cookie s = MAGIC_COOKIE then
                 bindE (if ip_addr s \<noteq> 0 then free_net n (ip_addr s) else Inr n) (\<lambda>n1.
                 Inr (if 0 \<le> sd s \<and> shutdown_result \<noteq> -1 then closed_sd close_result (sd s) n1 else n1))
               else Inr n) (\<lambda>n2.
        bindE (upd_sock n2 socket (\<lambda>t. t\<lparr>cookie := 0, port := -1, sd := -1, ip_addr := 0\<rparr>)) (\<lambda>n3.
        bindE (free_net n3 socket) (\<lambda>n4. Inr (TCP_NO_ERROR, 0, n4))))))"

text \<open>The answers of \<open>accept\<close>: the descriptor, the peer's address and port.\<close>

record accept_answers =
  ac_accept :: int
  ac_addr :: "32 word"
  ac_port :: "16 word"

definition tcp_wait_for_connection ::
    "accept_answers \<Rightarrow> addr \<Rightarrow> net \<Rightarrow> (int \<times> addr option \<times> net) res" where
  "tcp_wait_for_connection os socket n =
     (if socket = 0 then Inr (TCP_SOCKET_ERROR, None, n)
      else bindE (read_sock n socket) (\<lambda>srv.
        if cookie srv \<noteq> MAGIC_COOKIE then Inr (TCP_SOCKET_ERROR, None, n)
        else let (s, n1) = tcp_sock_create n in
          if s = 0 then Inr (TCP_MEMORY_ERROR, None, n1)
          else let n2 = got_sd (ac_accept os) n1 in
            bindE (upd_sock n2 s (sd_update (\<lambda>_. ac_accept os))) (\<lambda>n3.
            if ac_accept os = -1
            then bindE (free_net n3 s) (\<lambda>n4. Inr (TCP_SOCKOP_ERROR, None, n4))
            else
              let (p, h) = malloc (Str (take CHAR_IP_ADDR_LENGTH (inet_ntoa (ac_addr os)))) (net_heap n3);
                  n5 = n3\<lparr>net_heap := h\<rparr>
              in bindE (upd_sock n5 s (ip_addr_update (\<lambda>_. p))) (\<lambda>n6.
              if p = 0 then bindE (free_net n6 s) (\<lambda>n7. Inr (TCP_MEMORY_ERROR, None, n7))
              else
                bindE (upd_sock n6 s (\<lambda>t. t\<lparr>port := uint (ac_port os), cookie := MAGIC_COOKIE\<rparr>)) (\<lambda>n7.
                Inr (TCP_NO_ERROR, Some s, n7))))))"

text \<open>
  The code that \<open>tcp_send\<close> and \<open>tcp_receive\<close> make of the number of bytes and of
  \<open>errno\<close>; only sending takes \<open>EPIPE\<close> for a closed connection.
\<close>

definition send_code :: "int \<Rightarrow> int \<Rightarrow> int" where
  "send_code bytes errno =
     (if bytes = 0 then TCP_CONNECTION_CLOSED
      else if bytes < 0 \<and> (errno = EPIPE \<or> errno = ENOTCONN) then TCP_CONNECTION_CLOSED
      else if bytes < 0 then TCP_SOCKOP_ERROR else TCP_NO_ERROR)"

definition receive_code :: "int \<Rightarrow> int \<Rightarrow> int" where
  "receive_code bytes errno =
     (if bytes = 0 then TCP_CONNECTION_CLOSED
      else if bytes < 0 \<and> errno = ENOTCONN then TCP_CONNECTION_CLOSED
      else if bytes < 0 then TCP_SOCKOP_ERROR else TCP_NO_ERROR)"

text \<open>
  Sending the bytes of \<open>buffer\<close>, of which \<open>sendto\<close> takes some; the result is the code
  and the new \<open>*buf_size\<close>. The buffer and the size are given by pointers that can be
  NULL, and a NULL size is written to.
\<close>

definition tcp_send ::
    "int \<Rightarrow> int \<Rightarrow> addr \<Rightarrow> 8 word list option \<Rightarrow> int option \<Rightarrow> net \<Rightarrow> (int \<times> int option) res" where
  "tcp_send sent errno socket buffer buf_size n =
     (if socket = 0 then Inr (TCP_SOCKET_ERROR, buf_size)
      else bindE (read_sock n socket) (\<lambda>s.
        if cookie s \<noteq> MAGIC_COOKIE then Inr (TCP_SOCKET_ERROR, buf_size)
        else case buf_size of None \<Rightarrow> Inl NullDeref
        | Some k \<Rightarrow>
          if buffer = None then Inr (TCP_NO_ERROR, Some 0)
          else Inr (send_code sent errno, Some sent)))"

text \<open>
  Receiving into \<open>buffer\<close>: \<open>recv\<close> answers with a number of bytes, at most
  \<open>*buf_size\<close>, and the bytes. The result has the new content of the buffer.
\<close>

record recv_answer =
  ra_bytes :: "8 word list option"
  ra_errno :: int

definition ra_count :: "recv_answer \<Rightarrow> int" where
  "ra_count r = (case ra_bytes r of None \<Rightarrow> -1 | Some bs \<Rightarrow> int (length bs))"

definition tcp_receive ::
    "recv_answer \<Rightarrow> addr \<Rightarrow> 8 word list option \<Rightarrow> int option \<Rightarrow> net \<Rightarrow>
     (int \<times> int option \<times> 8 word list option) res" where
  "tcp_receive r socket buffer buf_size n =
     (if socket = 0 then Inr (TCP_SOCKET_ERROR, buf_size, buffer)
      else bindE (read_sock n socket) (\<lambda>s.
        if cookie s \<noteq> MAGIC_COOKIE then Inr (TCP_SOCKET_ERROR, buf_size, buffer)
        else case buf_size of None \<Rightarrow> Inl NullDeref
        | Some k \<Rightarrow>
          case buffer of None \<Rightarrow> Inr (TCP_NO_ERROR, Some 0, None)
          | Some old \<Rightarrow>
            let new = (case ra_bytes r of None \<Rightarrow> [] | Some bs \<Rightarrow> bs)
            in Inr (receive_code (ra_count r) (ra_errno r), Some (ra_count r),
                 Some (new @ drop (length new) old))))"

text \<open>The three queries; \<open>None\<close> is an output that is not written.\<close>

definition sock_query :: "(tcpsock \<Rightarrow> 'a) \<Rightarrow> addr \<Rightarrow> net \<Rightarrow> (int \<times> 'a option) res" where
  "sock_query f socket n =
     (if socket = 0 then Inr (TCP_SOCKET_ERROR, None)
      else bindE (read_sock n socket) (\<lambda>s.
        if cookie s \<noteq> MAGIC_COOKIE then Inr (TCP_SOCKET_ERROR, None)
        else Inr (TCP_NO_ERROR, Some (f s))))"

definition tcp_get_ip_addr :: "addr \<Rightarrow> net \<Rightarrow> (int \<times> addr option) res" where
  "tcp_get_ip_addr = sock_query ip_addr"

definition tcp_get_port :: "addr \<Rightarrow> net \<Rightarrow> (int \<times> int option) res" where
  "tcp_get_port = sock_query port"

definition tcp_get_sd :: "addr \<Rightarrow> net \<Rightarrow> (int \<times> int option) res" where
  "tcp_get_sd = sock_query sd"

section \<open>Sockets in the heap\<close>

lemma read_sock_ok [heap_simps]:
  "cells (net_heap n) p = Some (Sock s) \<Longrightarrow> heap_ok (net_heap n) \<Longrightarrow> read_sock n p = Inr s"
  by (simp add: read_sock_def load_ok)

lemma upd_sock_ok [heap_simps]:
  "cells (net_heap n) p = Some (Sock s) \<Longrightarrow> heap_ok (net_heap n) \<Longrightarrow>
     upd_sock n p f = Inr (n\<lparr>net_heap := written p (Sock (f s)) (net_heap n)\<rparr>)"
  by (simp add: upd_sock_def read_sock_ok store_ok)

lemma free_net_ok [heap_simps]:
  "cells (net_heap n) p = Some c \<Longrightarrow> heap_ok (net_heap n) \<Longrightarrow>
     free_net n p = Inr (n\<lparr>net_heap := freed p (net_heap n)\<rparr>)"
  by (simp add: free_net_def cfree_ok)

lemma got_sd_simps [simp]:
  "net_heap (got_sd d n) = net_heap n"
  "open_sds (got_sd d n) = (if 0 \<le> d then d # open_sds n else open_sds n)"
  by (simp_all add: got_sd_def)

lemma closed_sd_simps [simp]:
  "net_heap (closed_sd r d n) = net_heap n"
  "open_sds (closed_sd r d n) = (if r = 0 then remove1 d (open_sds n) else open_sds n)"
  by (simp_all add: closed_sd_def)

text \<open>A socket that is bound, with its address string.\<close>

definition bound :: "net \<Rightarrow> addr \<Rightarrow> tcpsock \<Rightarrow> bool" where
  "bound n p s \<longleftrightarrow>
     heap_ok (net_heap n) \<and> cells (net_heap n) p = Some (Sock s) \<and> cookie s = MAGIC_COOKIE \<and>
     0 \<le> sd s \<and> (ip_addr s = 0 \<or> (\<exists>str. cells (net_heap n) (ip_addr s) = Some (Str str)))"

lemma bound_read:
  assumes "bound n p s"
  shows "read_sock n p = Inr s" and "p \<noteq> 0"
  using assms heap_ok_live [of "net_heap n" p "Sock s"] by (auto simp: bound_def read_sock_ok)

lemma bound_query: "bound n p s \<Longrightarrow> sock_query f p n = Inr (TCP_NO_ERROR, Some (f s))"
  using bound_read [of n p s] by (simp add: sock_query_def) (simp add: bound_def)

section \<open>Opening\<close>

text \<open>All the system calls succeed: the new socket is bound, and only it has been added.\<close>

lemma passive_open_ok:
  assumes ok: "heap_ok (net_heap n)" and room: "0 < budget (net_heap n)"
    and port: "MIN_PORT \<le> prt" "prt \<le> MAX_PORT"
    and os: "0 \<le> pa_socket os" "pa_bind os (word_of_int prt) = 0" "pa_listen os = 0"
  shows "\<exists>n'. tcp_passive_open os prt n = Inr (TCP_NO_ERROR, Some (next_addr (net_heap n)), n') \<and>
     bound n' (next_addr (net_heap n))
       \<lparr>cookie = MAGIC_COOKIE, sd = pa_socket os, ip_addr = 0, port = prt\<rparr> \<and>
     frame {next_addr (net_heap n)} (net_heap n) (net_heap n') \<and>
     open_sds n' = pa_socket os # open_sds n \<and> budget (net_heap n') = budget (net_heap n) - 1"
proof -
  have "next_addr (net_heap n) \<noteq> 0" using heap_ok_pos [OF ok] by simp
  then show ?thesis
    using ok room port os
    by (simp add: tcp_passive_open_def tcp_sock_create_def malloc_ok upd_sock_ok bound_def
        unbound_sock_def frame_def)
qed

text \<open>
  A call after \<open>socket\<close> fails: the struct is freed again, the descriptor stays open and
  no one knows it any more.
\<close>

lemma passive_open_leak:
  assumes ok: "heap_ok (net_heap n)" and room: "0 < budget (net_heap n)"
    and port: "MIN_PORT \<le> prt" "prt \<le> MAX_PORT"
    and os: "0 \<le> pa_socket os" "pa_bind os (word_of_int prt) \<noteq> 0 \<or> pa_listen os \<noteq> 0"
  shows "\<exists>n'. tcp_passive_open os prt n = Inr (TCP_SOCKOP_ERROR, None, n') \<and>
     cells (net_heap n') = cells (net_heap n) \<and> open_sds n' = pa_socket os # open_sds n"
proof -
  have "next_addr (net_heap n) \<noteq> 0" using heap_ok_pos [OF ok] by simp
  moreover have "(cells (net_heap n))(next_addr (net_heap n) := None) = cells (net_heap n)"
    using heap_ok_fresh [OF ok] by auto
  ultimately show ?thesis
    using ok room port os
    by (auto simp add: tcp_passive_open_def tcp_sock_create_def malloc_ok upd_sock_ok free_net_ok)
qed

lemma passive_open_address:
  "prt < MIN_PORT \<or> MAX_PORT < prt \<Longrightarrow> tcp_passive_open os prt n = Inr (TCP_ADDRESS_ERROR, None, n)"
  by (simp add: tcp_passive_open_def)

section \<open>Accepting\<close>

lemma wait_for_connection_ok:
  assumes srv: "bound n socket srv" and room: "2 \<le> budget (net_heap n)" and os: "0 \<le> ac_accept os"
  shows "\<exists>n'. tcp_wait_for_connection os socket n = Inr (TCP_NO_ERROR, Some (next_addr (net_heap n)), n') \<and>
     bound n' (next_addr (net_heap n))
       \<lparr>cookie = MAGIC_COOKIE, sd = ac_accept os, ip_addr = Suc (next_addr (net_heap n)),
        port = uint (ac_port os)\<rparr> \<and>
     frame {next_addr (net_heap n), Suc (next_addr (net_heap n))} (net_heap n) (net_heap n') \<and>
     open_sds n' = ac_accept os # open_sds n \<and>
     next_addr (net_heap n') = next_addr (net_heap n) + 2 \<and> budget (net_heap n') = budget (net_heap n) - 2"
proof -
  have ok: "heap_ok (net_heap n)" using srv by (simp add: bound_def)
  have "next_addr (net_heap n) \<noteq> 0" using heap_ok_pos [OF ok] by simp
  then show ?thesis
    using ok room os bound_read [OF srv] srv
    by (simp add: tcp_wait_for_connection_def tcp_sock_create_def malloc_ok upd_sock_ok bound_def
        unbound_sock_def frame_def)
qed

section \<open>Closing\<close>

lemma close_bound:
  assumes b: "bound n p s"
  shows "\<exists>n'. tcp_close sh cl p n = Inr (TCP_NO_ERROR, 0, n') \<and> heap_ok (net_heap n') \<and>
     cells (net_heap n') = (cells (net_heap n))(p := None, ip_addr s := None) \<and>
     next_addr (net_heap n') = next_addr (net_heap n) \<and> budget (net_heap n') = budget (net_heap n) \<and>
     open_sds n' = (if sh \<noteq> -1 \<and> cl = 0 then remove1 (sd s) (open_sds n) else open_sds n)"
proof -
  have ok: "heap_ok (net_heap n)" and p: "cells (net_heap n) p = Some (Sock s)"
    and ck: "cookie s = MAGIC_COOKIE" "0 \<le> sd s" using b by (simp_all add: bound_def)
  note rd = bound_read [OF b]
  show ?thesis
  proof (cases "ip_addr s = 0")
    case True
    have "(cells (net_heap n))(p := None, 0 := None) = (cells (net_heap n))(p := None)"
      using heap_ok_null [OF ok] by auto
    then show ?thesis
      using ok p ck rd True
      by (simp add: tcp_close_def upd_sock_ok free_net_ok)
  next
    case False
    then obtain str where str: "cells (net_heap n) (ip_addr s) = Some (Str str)"
      using b by (auto simp: bound_def)
    then have ne: "p \<noteq> ip_addr s" using p by auto
    then show ?thesis
      using ok p ck rd False str
      by (simp add: tcp_close_def upd_sock_ok free_net_ok fun_upd_twist)
  qed
qed

lemma close_null: "tcp_close sh cl 0 n = Inr (TCP_SOCKET_ERROR, 0, n)"
  by (simp add: tcp_close_def)

section \<open>Addresses\<close>

text \<open>The address string fits the sixteen bytes with its terminating zero.\<close>

lemma show_nat_length: "n < 1000 \<Longrightarrow> length (show_nat n) \<le> 3"
  by (subst show_nat.simps, subst show_nat.simps, subst show_nat.simps) auto

lemma take_bit_8: "unat (take_bit 8 (a :: 32 word)) < 1000"
proof -
  have "unat (take_bit 8 a) = take_bit 8 (unat a)" by (simp add: unsigned_take_bit_eq)
  also have "\<dots> < 2 ^ 8" by (rule take_bit_nat_less_exp)
  finally show ?thesis by simp
qed

lemma inet_ntoa_fits: "length (inet_ntoa a) < CHAR_IP_ADDR_LENGTH"
  using show_nat_length [OF take_bit_8, of "drop_bit 24 a"] show_nat_length [OF take_bit_8, of "drop_bit 16 a"]
    show_nat_length [OF take_bit_8, of "drop_bit 8 a"] show_nat_length [OF take_bit_8, of a]
  by (simp add: inet_ntoa_def CHAR_IP_ADDR_LENGTH_def)

end
