(* ===== verification/Bytes.thy ===== *)
theory Bytes
  imports "HOL-Library.Word"
begin

unbundle bit_operations_syntax

text \<open>
  Values in memory and on the wire: the bytes of a machine word, least significant first, and
  back. An object of \<open>n\<close> bytes takes the low \<open>8 * n\<close> bits of the word.
\<close>

fun le_bytes :: "nat \<Rightarrow> 64 word \<Rightarrow> 8 word list" where
  "le_bytes 0 w = []"
| "le_bytes (Suc n) w = ucast w # le_bytes n (drop_bit 8 w)"

fun le_word :: "8 word list \<Rightarrow> 64 word" where
  "le_word [] = 0"
| "le_word (b # bs) = ucast b OR push_bit 8 (le_word bs)"

lemma length_le_bytes [simp]: "length (le_bytes n w) = n"
  by (induction n arbitrary: w) simp_all

lemma le_word_bytes: "le_word (le_bytes n w) = take_bit (8 * n) w"
proof (induction n arbitrary: w)
  case (Suc n)
  have "ucast (ucast w :: 8 word) OR push_bit 8 (take_bit (8 * n) (drop_bit 8 w)) = take_bit (8 * Suc n) w"
    by (rule bit_eqI) (auto simp: bit_simps)
  then show ?case using Suc by simp
qed simp

lemma le_word_bytes_8: "le_word (le_bytes 8 w) = w"
  using le_word_bytes [of 8 w] take_bit_length_eq [of w] by simp

lemma le_word_bytes_2: "ucast (le_word (le_bytes 2 (ucast (i :: 16 word)))) = i"
proof -
  have "le_word (le_bytes 2 (ucast i)) = take_bit 16 (ucast i)"
    using le_word_bytes [of 2 "ucast i"] by simp
  moreover have "ucast (take_bit 16 (ucast i :: 64 word)) = i"
    by (rule bit_eqI) (auto simp: bit_simps)
  ultimately show ?thesis by simp
qed

end
