(* ===== verification/Connmgr.thy ===== *)
theory Connmgr
  imports Dplist_Objects Tcpsock Config Bytes
begin

unbundle bit_operations_syntax

text \<open>
  The connection manager, connmgr.c: the poll array, which grows and shrinks with the number
  of connections, the list of connections (a dplist of copies of the local variable
  \<open>new_sensor\<close>), and one round of the loop of \<open>manage_connection\<close>. What the world
  answers in a round (\<open>poll\<close>, \<open>accept\<close>, \<open>recv\<close>, the clock and so on) is the
  record \<open>round_env\<close>. Insertions into the shared buffer, lines written to
  sensor_data_recv and messages to the log are collected in order.
\<close>

section \<open>Structs\<close>

definition FIRST_SENSOR_ID :: "16 word" where "FIRST_SENSOR_ID = 0"
definition BEGINING_SIZE :: nat where "BEGINING_SIZE = 4"
definition DECREASE_SIZE :: int where "DECREASE_SIZE = 5"
definition TIMEOUT :: "64 word" where "TIMEOUT = 5"
definition POLLIN :: "16 word" where "POLLIN = 1"
definition POLLRDHUP :: "16 word" where "POLLRDHUP = 0x2000"

record poll_d =
  pfd :: int
  events :: "16 word"
  revents :: "16 word"

record sensor_socket_t =
  ss_id :: "16 word"
  ss_socket :: addr
  ss_last_record :: "64 word"

text \<open>
  The server: \<open>conn_size\<close> is the size that the code believes the array to have, the length
  of \<open>fd\<close> is the number of elements that have been allocated.
\<close>

record server_t =
  conn_size :: int
  fd :: "poll_d list"
  srv_socket :: addr
  srv_last_record :: "64 word"

type_synonym conn_heap = "sensor_socket_t dheap"

record conn_state =
  conns :: conn_heap
  connections_to_server :: addr
  new_sensor :: addr
  server :: server_t
  cnet :: net
  recv_open :: bool
  recv_file :: "string list"
  fifo_msgs :: "string list"
  to_sbuffer :: "sensor_data_t list"

definition has_flag :: "16 word \<Rightarrow> 16 word \<Rightarrow> bool" where
  "has_flag w f \<longleftrightarrow> w AND f \<noteq> 0"

text \<open>Times are signed; \<open>later now t\<close> is \<open>now > t + TIMEOUT\<close>.\<close>

definition later :: "64 word \<Rightarrow> 64 word \<Rightarrow> bool" where
  "later now t \<longleftrightarrow> sint (t + TIMEOUT) < sint now"

section \<open>Access to the poll array\<close>

definition fd_get :: "poll_d list \<Rightarrow> int \<Rightarrow> poll_d res" where
  "fd_get a i = (if 0 \<le> i \<and> i < int (length a) then Inr (a ! nat i) else Inl OutOfBounds)"

definition fd_upd :: "poll_d list \<Rightarrow> int \<Rightarrow> (poll_d \<Rightarrow> poll_d) \<Rightarrow> poll_d list res" where
  "fd_upd a i f =
     (if 0 \<le> i \<and> i < int (length a) then Inr (a[nat i := f (a ! nat i)]) else Inl OutOfBounds)"

text \<open>\<open>shift_array\<close>: every element from \<open>index\<close> on takes the one after it.\<close>

fun shift_loop :: "nat \<Rightarrow> int \<Rightarrow> poll_d list \<Rightarrow> poll_d list res" where
  "shift_loop 0 i a = Inr a"
| "shift_loop (Suc k) i a =
     bindE (fd_get a (i + 1)) (\<lambda>p. bindE (fd_upd a i (\<lambda>_. p)) (\<lambda>a'. shift_loop k (i + 1) a'))"

definition shift_array :: "int \<Rightarrow> int \<Rightarrow> poll_d list \<Rightarrow> poll_d list res" where
  "shift_array index asize a = shift_loop (nat (asize - index)) index a"

text \<open>\<open>realloc\<close>: the common part stays, \<open>raw\<close> is what fills new elements.\<close>

definition realloc_fd :: "poll_d \<Rightarrow> int \<Rightarrow> poll_d list \<Rightarrow> poll_d list" where
  "realloc_fd raw n a = take (nat n) a @ replicate (nat n - length a) raw"

text \<open>
  Growing and shrinking. The number of bytes is computed with \<open>sizeof (poll_d *)\<close>, eight
  like \<open>sizeof (poll_d)\<close>.
\<close>

definition resize_fd :: "poll_d \<Rightarrow> int \<Rightarrow> server_t \<Rightarrow> server_t" where
  "resize_fd raw list_size srv =
     (let c = conn_size srv in
      if list_size = c - 1
      then srv\<lparr>fd := realloc_fd raw (c * 2) (fd srv), conn_size := c * 2\<rparr>
      else if list_size = c - DECREASE_SIZE
      then srv\<lparr>fd := realloc_fd raw (list_size + 1) (fd srv), conn_size := list_size + 1\<rparr>
      else srv)"

text \<open>
  Whether the array is resized. When \<open>realloc\<close> then gives NULL, the code prints a message and goes
  on: its next statement reads element 0 through NULL (see \<open>manage_round\<close>).
\<close>

definition resizes :: "int \<Rightarrow> server_t \<Rightarrow> bool" where
  "resizes list_size srv \<longleftrightarrow> list_size = conn_size srv - 1 \<or> list_size = conn_size srv - DECREASE_SIZE"

section \<open>Callbacks\<close>

definition read_conn :: "conn_heap \<Rightarrow> addr \<Rightarrow> sensor_socket_t res" where
  "read_conn h p =
     bindE (load h p) (\<lambda>c. case c of Obj s \<Rightarrow> Inr s | _ \<Rightarrow> Inl InvalidPtr)"

definition upd_conn :: "conn_heap \<Rightarrow> addr \<Rightarrow> (sensor_socket_t \<Rightarrow> sensor_socket_t) \<Rightarrow> conn_heap res" where
  "upd_conn h p f = bindE (read_conn h p) (\<lambda>s. store h p (Obj (f s)))"

definition raw_conn :: sensor_socket_t where
  "raw_conn = \<lparr>ss_id = 0, ss_socket = 0, ss_last_record = 0\<rparr>"

definition callback_copy :: "conn_heap \<Rightarrow> addr \<Rightarrow> (addr \<times> conn_heap) res" where
  "callback_copy h socket_node =
     (let (copy_socket, h1) = malloc (Obj raw_conn) h in
      bindE (assertE (copy_socket \<noteq> 0)) (\<lambda>_.
      bindE (read_conn h1 socket_node) (\<lambda>s.
      bindE (upd_conn h1 copy_socket (\<lambda>c. c\<lparr>ss_last_record := ss_last_record s, ss_id := ss_id s,
               ss_socket := ss_socket s\<rparr>)) (\<lambda>h2.
      Inr (copy_socket, h2)))))"

text \<open>\<open>callback_free\<close> releases the object and leaves the pointer as it is.\<close>

definition callback_free :: "conn_heap \<Rightarrow> addr \<Rightarrow> (addr \<times> conn_heap) res" where
  "callback_free h socket_node = bindE (cfree h socket_node) (\<lambda>h1. Inr (socket_node, h1))"

definition callback_compare :: "conn_heap \<Rightarrow> addr \<Rightarrow> addr \<Rightarrow> int res" where
  "callback_compare h node_x node_y = Inr 0"

definition conn_callbacks :: "sensor_socket_t callbacks" where
  "conn_callbacks = \<lparr>element_copy = callback_copy, element_free = callback_free,
                     element_compare = callback_compare\<rparr>"

section \<open>Starting\<close>

text \<open>The answers of \<open>tcp_passive_open\<close>'s system calls, the clock and the raw memory.\<close>

definition server_create ::
    "passive_answers \<Rightarrow> 64 word \<Rightarrow> poll_d \<Rightarrow> int \<Rightarrow> net \<Rightarrow> (server_t \<times> net) res" where
  "server_create os now raw port_number n =
     bindE (tcp_passive_open os port_number n) (\<lambda>(code, sock, n1).
     if code \<noteq> TCP_NO_ERROR then Inl (ExitCall 1)
     else let socket = (case sock of Some s \<Rightarrow> s | None \<Rightarrow> 0) in
       bindE (tcp_get_sd socket n1) (\<lambda>(code2, d).
       if code2 \<noteq> TCP_NO_ERROR then Inl (ExitCall 1)
       else let a = replicate BEGINING_SIZE raw in
         bindE (case d of None \<Rightarrow> Inr a | Some x \<Rightarrow> fd_upd a 0 (pfd_update (\<lambda>_. x))) (\<lambda>a1.
         bindE (fd_upd a1 0 (events_update (\<lambda>_. POLLIN OR POLLRDHUP))) (\<lambda>a2.
         Inr (\<lparr>conn_size = int BEGINING_SIZE, fd = a2, srv_socket = socket, srv_last_record = now\<rparr>,
              n1)))))"

text \<open>
  The list of connections and the local variable \<open>new_sensor\<close>, an object whose address is
  taken and which no \<open>malloc\<close> has made. \<open>opened\<close> tells whether the file sensor_data_recv has been
  opened; the result of \<open>fopen\<close> is not checked.
\<close>

definition local_var :: "'c \<Rightarrow> 'c heap \<Rightarrow> addr \<times> 'c heap" where
  "local_var c h =
     (next_addr h, h\<lparr>next_addr := Suc (next_addr h), cells := (cells h)(next_addr h \<mapsto> c)\<rparr>)"

definition start_connections :: "bool \<Rightarrow> sensor_socket_t \<Rightarrow> server_t \<Rightarrow> net \<Rightarrow> conn_heap \<Rightarrow> conn_state res" where
  "start_connections opened raw srv n h =
     bindE (dpl_create h) (\<lambda>(l, h1).
     let (v, h2) = local_var (Obj raw) h1 in
     Inr \<lparr>conns = h2, connections_to_server = l, new_sensor = v, server = srv, cnet = n,
          recv_open = opened, recv_file = [], fifo_msgs = [], to_sbuffer = []\<rparr>)"

section \<open>One round\<close>

text \<open>
  The answers of one round. \<open>env_revents\<close> is what \<open>poll\<close> reports for each element,
  \<open>env_recv i k\<close> the answer to the \<open>k\<close>-th \<open>recv\<close> on connection \<open>i\<close>,
  \<open>env_local i\<close> the bytes that the local variable \<open>data\<close> happens to hold.
\<close>

record round_env =
  env_revents :: "nat \<Rightarrow> 16 word"
  env_realloc :: bool
  env_raw_fd :: poll_d
  env_accept :: accept_answers
  env_accept_time :: "64 word"
  env_idle_time :: "64 word"
  env_recv :: "nat \<Rightarrow> nat \<Rightarrow> recv_answer"
  env_local :: "nat \<Rightarrow> 8 word list \<times> 8 word list \<times> 8 word list"
  env_timeout_time :: "nat \<Rightarrow> 64 word"
  env_close_time :: "64 word"
  env_shutdown :: int
  env_close :: int

text \<open>\<open>poll\<close> writes the \<open>revents\<close> of the first \<open>n\<close> elements.\<close>

definition poll :: "(nat \<Rightarrow> 16 word) \<Rightarrow> int \<Rightarrow> poll_d list \<Rightarrow> poll_d list res" where
  "poll answer n a =
     (if int (length a) < n then Inl OutOfBounds
      else Inr (map (\<lambda>i. if int i < n then (a ! i)\<lparr>revents := answer i\<rparr> else a ! i) [0..<length a]))"

definition set_fd :: "poll_d list \<Rightarrow> conn_state \<Rightarrow> conn_state" where
  "set_fd a st = st\<lparr>server := (server st)\<lparr>fd := a\<rparr>\<rparr>"

text \<open>
  A request on the server's socket: the socket struct goes to \<open>new_sensor\<close> when the call
  gives one, the descriptor to the array behind the last connection, the copy of
  \<open>new_sensor\<close> to the end of the list.
\<close>

definition accept_sensor :: "round_env \<Rightarrow> int \<Rightarrow> conn_state \<Rightarrow> conn_state res" where
  "accept_sensor env list_size st =
     bindE (tcp_wait_for_connection (env_accept env) (srv_socket (server st)) (cnet st)) (\<lambda>(_, sock, n1).
     bindE (case sock of None \<Rightarrow> Inr (conns st)
            | Some s \<Rightarrow> upd_conn (conns st) (new_sensor st) (ss_socket_update (\<lambda>_. s))) (\<lambda>h1.
     bindE (read_conn h1 (new_sensor st)) (\<lambda>v.
     bindE (tcp_get_sd (ss_socket v) n1) (\<lambda>(_, d).
     bindE (case d of None \<Rightarrow> Inr (fd (server st))
            | Some x \<Rightarrow> fd_upd (fd (server st)) (list_size + 1) (pfd_update (\<lambda>_. x))) (\<lambda>a1.
     bindE (fd_upd a1 (list_size + 1) (events_update (\<lambda>_. POLLIN OR POLLRDHUP))) (\<lambda>a2.
     bindE (upd_conn h1 (new_sensor st)
             (\<lambda>c. c\<lparr>ss_last_record := env_accept_time env, ss_id := FIRST_SENSOR_ID\<rparr>)) (\<lambda>h2.
     bindE (dpl_size h2 (connections_to_server st)) (\<lambda>k.
     bindE (dpl_insert_at_index conn_callbacks h2 (connections_to_server st) (new_sensor st) k True)
       (\<lambda>(l, h3).
     Inr (set_fd a2 (st\<lparr>conns := h3, connections_to_server := l, cnet := n1\<rparr>)))))))))))"

text \<open>
  The three calls of \<open>tcp_receive\<close>: the code and the size of the last one, and the
  measurement that the local variable then holds.
\<close>

definition receive_data ::
    "(nat \<Rightarrow> recv_answer) \<Rightarrow> 8 word list \<times> 8 word list \<times> 8 word list \<Rightarrow> addr \<Rightarrow> net \<Rightarrow>
     (int \<times> int \<times> sensor_data_t) res" where
  "receive_data recv old socket n =
     bindE (tcp_receive (recv 0) socket (Some (fst old)) (Some 2) n) (\<lambda>(_, _, b0).
     bindE (tcp_receive (recv 1) socket (Some (fst (snd old))) (Some 8) n) (\<lambda>(_, _, b1).
     bindE (tcp_receive (recv 2) socket (Some (snd (snd old))) (Some 8) n) (\<lambda>(result, bytes, b2).
     Inr (result, the bytes,
          \<lparr>data_id = ucast (le_word (the b0)), data_value = double_of_bits (le_word (the b1)),
           data_ts = le_word (the b2)\<rparr>))))"

definition recv_line :: "sensor_data_t \<Rightarrow> string" where
  "recv_line d = fmt_d16 (data_id d) @ '' '' @ fmt_f (data_value d) @ '' '' @ fmt_ld (data_ts d) @ [newline]"

definition opened_msg :: "16 word \<Rightarrow> string" where
  "opened_msg i = ''A sensor node with '' @ fmt_d16 i @ '' has opened a new connection'' @ [newline]"

definition closed_msg :: "16 word \<Rightarrow> string" where
  "closed_msg i = ''Client sensor id '' @ fmt_d16 i @ '' closed the TCP connection'' @ [newline]"

definition timeout_msg :: "16 word \<Rightarrow> string" where
  "timeout_msg i = ''Client sensor id '' @ fmt_d16 i @ '' excessed the TIMEOUT limit'' @ [newline]"

text \<open>
  Data on connection \<open>i\<close>: the measurement goes out, the first one announces the sensor. A file that
  could not be opened is a NULL stream.
\<close>

definition read_sensor_data :: "round_env \<Rightarrow> nat \<Rightarrow> addr \<Rightarrow> conn_state \<Rightarrow> conn_state res" where
  "read_sensor_data env i sensor st =
     bindE (read_conn (conns st) sensor) (\<lambda>c.
     bindE (receive_data (env_recv env i) (env_local env i) (ss_socket c) (cnet st)) (\<lambda>(result, bytes, d).
     bindE (if result = TCP_NO_ERROR \<and> bytes \<noteq> 0 then
              bindE (upd_conn (conns st) sensor (ss_last_record_update (\<lambda>_. data_ts d))) (\<lambda>h1.
              if \<not> recv_open st then Inl NullDeref
              else Inr (st\<lparr>conns := h1, server := (server st)\<lparr>srv_last_record := data_ts d\<rparr>,
                      recv_file := recv_file st @ [recv_line d],
                      to_sbuffer := to_sbuffer st @ [d]\<rparr>))
            else Inr st) (\<lambda>st1.
     bindE (read_conn (conns st1) sensor) (\<lambda>c1.
     if ss_id c1 = FIRST_SENSOR_ID then
       bindE (upd_conn (conns st1) sensor (ss_id_update (\<lambda>_. data_id d))) (\<lambda>h2.
       Inr (st1\<lparr>conns := h2, fifo_msgs := fifo_msgs st1 @ [opened_msg (data_id d)]\<rparr>))
     else Inr st1))))"

text \<open>
  The end of connection \<open>i\<close>, by the peer or by the timeout: the two differ in the message.
\<close>

definition drop_sensor ::
    "(16 word \<Rightarrow> string) \<Rightarrow> round_env \<Rightarrow> int \<Rightarrow> nat \<Rightarrow> addr \<Rightarrow> conn_state \<Rightarrow> conn_state res" where
  "drop_sensor msg env list_size i sensor st =
     bindE (read_conn (conns st) sensor) (\<lambda>c.
     bindE (tcp_close (env_shutdown env) (env_close env) (ss_socket c) (cnet st)) (\<lambda>(_, s, n1).
     bindE (upd_conn (conns st) sensor (ss_socket_update (\<lambda>_. s))) (\<lambda>h1.
     bindE (dpl_remove_at_index conn_callbacks h1 (connections_to_server st) (int i) False) (\<lambda>(_, h2).
     bindE (shift_array (int i + 1) (list_size + 1) (fd (server st))) (\<lambda>a1.
     let st1 = set_fd a1 (st\<lparr>conns := h2, cnet := n1, fifo_msgs := fifo_msgs st @ [msg (ss_id c)]\<rparr>) in
     Inr (st1\<lparr>server := (server st1)\<lparr>srv_last_record := env_close_time env\<rparr>\<rparr>))))))"

text \<open>
  The loop over the connections that were in the list when the round began; a \<open>break\<close>
  follows the end of a connection.
\<close>

fun serve_loop :: "nat \<Rightarrow> round_env \<Rightarrow> int \<Rightarrow> nat \<Rightarrow> conn_state \<Rightarrow> conn_state res" where
  "serve_loop 0 env list_size i st = Inr st"
| "serve_loop (Suc k) env list_size i st =
     bindE (dpl_get_element_at_index (conns st) (connections_to_server st) (int i)) (\<lambda>sensor.
     bindE (fd_get (fd (server st)) (int i + 1)) (\<lambda>p.
     bindE (if has_flag (revents p) POLLIN then read_sensor_data env i sensor st else Inr st) (\<lambda>st1.
     if has_flag (revents p) POLLRDHUP then drop_sensor closed_msg env list_size i sensor st1
     else
       bindE (read_conn (conns st1) sensor) (\<lambda>c.
       if later (env_timeout_time env i) (ss_last_record c)
       then drop_sensor timeout_msg env list_size i sensor st1
       else serve_loop k env list_size (Suc i) st1))))"

text \<open>\<open>connmgr_free\<close>: the list goes, then the array and the server struct.\<close>

definition connmgr_free :: "conn_state \<Rightarrow> conn_state res" where
  "connmgr_free st =
     bindE (dpl_free conn_callbacks (conns st) (connections_to_server st) False) (\<lambda>(l, h1).
     Inr (st\<lparr>conns := h1, connections_to_server := l, server := (server st)\<lparr>fd := []\<rparr>\<rparr>))"

text \<open>The end of the manager when there was no connection for too long.\<close>

definition stop_server :: "round_env \<Rightarrow> conn_state \<Rightarrow> conn_state res" where
  "stop_server env st =
     bindE (tcp_close (env_shutdown env) (env_close env) (srv_socket (server st)) (cnet st)) (\<lambda>(_, s, n1).
     connmgr_free (st\<lparr>cnet := n1, server := (server st)\<lparr>srv_socket := s\<rparr>\<rparr>))"

text \<open>
  One round; the flag tells whether the loop goes on. The code resizes the array and then reads its
  first element.
\<close>

definition manage_round :: "round_env \<Rightarrow> conn_state \<Rightarrow> (bool \<times> conn_state) res" where
  "manage_round env st =
     bindE (dpl_size (conns st) (connections_to_server st)) (\<lambda>list_size.
     bindE (poll (env_revents env) (list_size + 1) (fd (server st))) (\<lambda>a1.
     let st1 = set_fd a1 st;
         st2 = st1\<lparr>server := resize_fd (env_raw_fd env) list_size (server st1)\<rparr>
     in
     bindE (if resizes list_size (server st1) \<and> \<not> env_realloc env then Inl NullDeref
            else fd_get (fd (server st2)) 0) (\<lambda>p0.
     bindE (if has_flag (revents p0) POLLIN then accept_sensor env list_size st2 else Inr st2) (\<lambda>st3.
     if list_size = 0 \<and> later (env_idle_time env) (srv_last_record (server st3))
     then bindE (stop_server env st3) (\<lambda>st4. Inr (False, st4))
     else bindE (serve_loop (nat list_size) env list_size 0 st3) (\<lambda>st4. Inr (True, st4))))))"

text \<open>
  The loop of \<open>manage_connection\<close>: before each round the flag \<open>*thread_result_connmgr\<close>
  is read. The rounds that the world plays are a list of answers, each with the value that
  the flag has; the result says whether the loop has ended. After the loop the file is closed, which
  takes a stream that is not NULL.
\<close>

definition close_recv :: "conn_state \<Rightarrow> (bool \<times> conn_state) res" where
  "close_recv st = (if recv_open st then Inr (True, st) else Inl NullDeref)"

fun manage_rounds :: "(int \<times> round_env) list \<Rightarrow> conn_state \<Rightarrow> (bool \<times> conn_state) res" where
  "manage_rounds [] st = Inr (False, st)"
| "manage_rounds ((flag, env) # rs) st =
     (if flag = 0 then close_recv st
      else bindE (manage_round env st) (\<lambda>(go, st1).
           if go then manage_rounds rs st1 else close_recv st1))"

text \<open>
  \<open>connmgr_listen\<close>: the file is opened, the server is created, then the loop runs. The first two allocations of
  \<open>server_create\<close> have their failures in \<open>assert\<close>.
\<close>

definition connmgr_listen ::
    "bool \<Rightarrow> bool \<Rightarrow> passive_answers \<Rightarrow> 64 word \<Rightarrow> poll_d \<Rightarrow> sensor_socket_t \<Rightarrow> int \<Rightarrow> net \<Rightarrow> conn_heap \<Rightarrow>
     (int \<times> round_env) list \<Rightarrow> (bool \<times> conn_state) res" where
  "connmgr_listen opened got_memory os now raw raw_local port_number n h rounds =
     bindE (assertE got_memory) (\<lambda>_.
     bindE (server_create os now raw port_number n) (\<lambda>(srv, n1).
     bindE (start_connections opened raw_local srv n1 h) (\<lambda>st. manage_rounds rounds st)))"

text \<open>The comparison callback calls all connections equal: a total order of one class.\<close>

interpretation same_connection: element_order "\<lambda>(x :: sensor_socket_t) y. 0"
  by unfold_locales simp_all

end
