(* ===== verification/Connmgr_Inv.thy ===== *)
theory Connmgr_Inv
  imports Connmgr
begin

text \<open>
  The invariant of the connection manager between the steps of a round: the list of
  connections owns its objects, every connection has a bound socket of its own, and the poll
  array is aligned with the list: element \<open>k + 1\<close> holds the descriptor of connection
  \<open>k\<close>, element \<open>0\<close> the server's.
\<close>

section \<open>The poll array\<close>

lemma poll_ok:
  assumes "n \<le> int (length a)"
  shows "\<exists>a'. poll answer n a = Inr a' \<and> length a' = length a \<and> map pfd a' = map pfd a"
proof -
  have "map pfd (map (\<lambda>i. if int i < n then (a ! i)\<lparr>revents := answer i\<rparr> else a ! i) [0..<length a]) =
      map pfd a"
    by (rule nth_equalityI) auto
  then show ?thesis using assms by (simp add: poll_def)
qed

lemma take_realloc: "m \<le> nat k \<Longrightarrow> m \<le> length a \<Longrightarrow> take m (realloc_fd raw k a) = take m a"
  by (simp add: realloc_fd_def)

lemma length_realloc [simp]: "length (realloc_fd raw k a) = nat k"
  by (simp add: realloc_fd_def)

text \<open>
  The resizing keeps the part of the array that is in use; except when it shrinks, there is
  room for one more connection afterwards.
\<close>

lemma resize_fd_ok:
  assumes "conn_size srv = int (length (fd srv))" and "n < length (fd srv)"
  shows "conn_size (resize_fd raw (int n) srv) = int (length (fd (resize_fd raw (int n) srv))) \<and>
     take (Suc n) (fd (resize_fd raw (int n) srv)) = take (Suc n) (fd srv) \<and>
     n < length (fd (resize_fd raw (int n) srv)) \<and>
     (length (fd srv) \<noteq> n + 5 \<longrightarrow> Suc n < length (fd (resize_fd raw (int n) srv))) \<and>
     srv_socket (resize_fd raw (int n) srv) = srv_socket srv \<and>
     srv_last_record (resize_fd raw (int n) srv) = srv_last_record srv"
proof -
  consider "int n = conn_size srv - 1" | "int n = conn_size srv - 5"
    | "int n \<noteq> conn_size srv - 1" "int n \<noteq> conn_size srv - 5" by blast
  then show ?thesis
  proof cases
    case 1
    then have l: "length (fd srv) = Suc n" and c: "conn_size srv = int n + 1" using assms by linarith+
    have "nat ((int n + 1) * 2) = 2 * Suc n" by simp
    then show ?thesis by (simp add: resize_fd_def Let_def take_realloc l c)
  next
    case 2
    then have l: "length (fd srv) = n + 5" and c: "conn_size srv = int n + 5" using assms by linarith+
    have nn: "nat (int n + 1) = Suc n" by simp
    have "realloc_fd raw (int n + 1) (fd srv) = take (Suc n) (fd srv)" by (simp add: realloc_fd_def nn l)
    then show ?thesis by (simp add: resize_fd_def Let_def take_realloc DECREASE_SIZE_def l c)
  next
    case 3
    then show ?thesis using assms by (simp add: resize_fd_def Let_def DECREASE_SIZE_def)
  qed
qed

text \<open>Shifting drops the element at \<open>i\<close> from the part in use.\<close>

lemma shift_loop_ok:
  "i + k < length a \<Longrightarrow>
   \<exists>a'. shift_loop k (int i) a = Inr a' \<and> length a' = length a \<and>
     a' = take i a @ take k (drop (Suc i) a) @ drop (i + k) a"
proof (induction k arbitrary: i a)
  case 0
  then show ?case by simp
next
  case (Suc k)
  let ?b = "a[i := a ! Suc i]"
  have get: "fd_get a (int i + 1) = Inr (a ! Suc i)" using Suc.prems by (simp add: fd_get_def nat_add_distrib)
  have upd: "fd_upd a (int i) (\<lambda>_. a ! Suc i) = Inr ?b" using Suc.prems by (simp add: fd_upd_def)
  have "Suc i + k < length ?b" using Suc.prems by simp
  from Suc.IH [OF this] obtain a' where a': "shift_loop k (int (Suc i)) ?b = Inr a'" "length a' = length ?b"
      "a' = take (Suc i) ?b @ take k (drop (Suc (Suc i)) ?b) @ drop (Suc i + k) ?b" by blast
  have "take (Suc i) ?b = take i a @ [a ! Suc i]"
    using Suc.prems by (simp add: take_Suc_conv_app_nth)
  moreover have "drop (Suc (Suc i)) ?b = drop (Suc (Suc i)) a" "drop (Suc i + k) ?b = drop (Suc i + k) a"
    by (simp_all add: drop_update_cancel)
  moreover have "take (Suc k) (drop (Suc i) a) = a ! Suc i # take k (drop (Suc (Suc i)) a)"
    using Suc.prems by (metis Cons_nth_drop_Suc add_Suc_right less_add_Suc1 order.strict_trans2
        not_less_eq_eq nat_less_le take_Suc_Cons add_leD1 Suc_leI)
  ultimately have "a' = take i a @ take (Suc k) (drop (Suc i) a) @ drop (i + Suc k) a"
    using a'(3) by simp
  then show ?case using a'(1,2) get upd by (simp add: algebra_simps)
qed

lemma shift_array_ok:
  assumes i: "0 < i" "i \<le> n" and n: "n < length a"
    and m: "i < m" "m \<le> Suc n"
  shows "\<exists>a'. shift_array (int i) (int n) a = Inr a' \<and> length a' = length a \<and>
     take (m - 1) (map pfd a') = remove_nth i (take m (map pfd a)) \<and> take i a' = take i a"
proof -
  have "i + (n - i) < length a" using i n by simp
  from shift_loop_ok [OF this] obtain a' where a': "shift_loop (n - i) (int i) a = Inr a'"
      "length a' = length a" "a' = take i a @ take (n - i) (drop (Suc i) a) @ drop n a"
    using i by auto
  have "nat (int n - int i) = n - i" by simp
  then have sh: "shift_array (int i) (int n) a = Inr a'" using a'(1) by (simp add: shift_array_def)
  have "take (m - 1) a' = take i a @ take (m - 1 - i) (drop (Suc i) a)"
  proof -
    have l: "length (take i a) = i" using i n by simp
    have t: "take (m - 1 - i) (take (n - i) (drop (Suc i) a) @ drop n a) = take (m - 1 - i) (drop (Suc i) a)"
    proof -
      have "m - 1 - i \<le> length (take (n - i) (drop (Suc i) a))" using i n m by simp
      then have "take (m - 1 - i) (take (n - i) (drop (Suc i) a) @ drop n a) =
          take (m - 1 - i) (take (n - i) (drop (Suc i) a))" by (rule take_append_le)
      moreover have "min (m - 1 - i) (n - i) = m - 1 - i" using m by simp
      ultimately show ?thesis by (simp only: take_take)
    qed
    have "take (m - 1) a' = take (m - 1) (take i a) @ take (m - 1 - i) (take (n - i) (drop (Suc i) a) @ drop n a)"
      using l by (simp only: a'(3) take_append)
    moreover have "take (m - 1) (take i a) = take i a" using m by simp
    ultimately show ?thesis using t by simp
  qed
  also have "\<dots> = remove_nth i (take m a)"
    using m by (simp add: remove_nth_def drop_take min_def)
  finally have "map pfd (take (m - 1) a') = map pfd (remove_nth i (take m a))" by simp
  then have "take (m - 1) (map pfd a') = remove_nth i (take m (map pfd a))"
    by (simp only: take_map map_remove_nth)
  moreover have "take i a' = take i a" using a'(3) i n by simp
  ultimately show ?thesis using sh a'(2) by blast
qed

section \<open>Sockets\<close>

definition sock_foot :: "addr \<times> tcpsock \<Rightarrow> addr set" where
  "sock_foot ps = insert (fst ps) ({ip_addr (snd ps)} - {0})"

definition socks_ok :: "net \<Rightarrow> (addr \<times> tcpsock) list \<Rightarrow> bool" where
  "socks_ok n ps \<longleftrightarrow>
     heap_ok (net_heap n) \<and> (\<forall>p \<in> set ps. bound n (fst p) (snd p)) \<and>
     sorted_wrt (\<lambda>x y. sock_foot x \<inter> sock_foot y = {}) ps"

lemma bound_cong:
  assumes b: "bound n p s" and ok: "heap_ok (net_heap n')"
    and same: "\<And>a. a \<in> sock_foot (p, s) \<Longrightarrow> cells (net_heap n') a = cells (net_heap n) a"
  shows "bound n' p s"
  using b ok same [of p] same [of "ip_addr s"] unfolding bound_def sock_foot_def by auto

lemma bound_live: "bound n p s \<Longrightarrow> a \<in> sock_foot (p, s) \<Longrightarrow> 0 < a \<and> a < next_addr (net_heap n)"
  unfolding bound_def sock_foot_def using heap_ok_live by (metis Diff_iff fst_conv insertE insertI1 singletonD snd_conv)

lemma socks_add:
  assumes s: "socks_ok n ps" and ok: "heap_ok (net_heap n')"
    and b: "bound n' p s" and fr: "frame (sock_foot (p, s)) (net_heap n) (net_heap n')"
    and new: "\<And>a. a \<in> sock_foot (p, s) \<Longrightarrow> next_addr (net_heap n) \<le> a"
  shows "socks_ok n' (ps @ [(p, s)])"
proof -
  have old: "sock_foot x \<inter> sock_foot (p, s) = {}" if "x \<in> set ps" for x
  proof -
    have "bound n (fst x) (snd x)" using s that by (simp add: socks_ok_def)
    from bound_live [OF this] new show ?thesis by fastforce
  qed
  have "bound n' (fst x) (snd x)" if "x \<in> set ps" for x
  proof (rule bound_cong [OF _ ok])
    show "bound n (fst x) (snd x)" using s that by (simp add: socks_ok_def)
    fix a assume "a \<in> sock_foot (fst x, snd x)"
    then show "cells (net_heap n') a = cells (net_heap n) a"
      using old [OF that] by (intro frameD [OF fr]) auto
  qed
  then show ?thesis using s b ok old by (simp add: socks_ok_def sorted_wrt_append)
qed

lemma socks_remove:
  assumes s: "socks_ok n ps" and i: "i < length ps" and ok: "heap_ok (net_heap n')"
    and cells': "cells (net_heap n') =
      (cells (net_heap n))(fst (ps ! i) := None, ip_addr (snd (ps ! i)) := None)"
  shows "socks_ok n' (remove_nth i ps)"
proof -
  obtain xs y ys where ps: "ps = xs @ y # ys" and il: "i = length xs"
    using split_at_nth [OF i] i by (metis length_take min.absorb4)
  have st: "sorted_wrt (\<lambda>x y. sock_foot x \<inter> sock_foot y = {}) (xs @ y # ys)"
    using s ps by (simp add: socks_ok_def)
  have rm: "remove_nth i ps = xs @ ys" and yi: "ps ! i = y" by (simp_all add: ps il)
  have dis: "sock_foot x \<inter> sock_foot (ps ! i) = {}" if "x \<in> set (remove_nth i ps)" for x
  proof -
    have "\<forall>x \<in> set xs. sock_foot x \<inter> sock_foot y = {}" "\<forall>x \<in> set ys. sock_foot y \<inter> sock_foot x = {}"
      using st by (simp_all add: sorted_wrt_append)
    moreover have "x \<in> set xs \<or> x \<in> set ys" using that unfolding rm by simp
    ultimately show ?thesis unfolding yi by blast
  qed
  have "bound n' (fst x) (snd x)" if x: "x \<in> set (remove_nth i ps)" for x
  proof (rule bound_cong [OF _ ok])
    have "x \<in> set ps" using subsetD [OF set_remove_nth_subset x] .
    then show bx: "bound n (fst x) (snd x)" using s by (simp add: socks_ok_def)
    fix a assume a: "a \<in> sock_foot (fst x, snd x)"
    have "a \<noteq> 0" using bound_live [OF bx a] by simp
    moreover have "a \<notin> sock_foot (ps ! i)" using a dis [OF x] by (metis disjoint_iff prod.collapse)
    ultimately have "a \<noteq> fst (ps ! i)" "a \<noteq> ip_addr (snd (ps ! i))"
      by (simp_all add: sock_foot_def)
    then show "cells (net_heap n') a = cells (net_heap n) a" by (simp add: cells')
  qed
  moreover have "sorted_wrt (\<lambda>x y. sock_foot x \<inter> sock_foot y = {}) (remove_nth i ps)"
    using st unfolding rm by (simp add: sorted_wrt_append)
  ultimately show ?thesis using ok by (simp add: socks_ok_def)
qed

section \<open>The invariant\<close>

text \<open>
  \<open>cs\<close> are the connections and \<open>ns\<close> their nodes, \<open>ps\<close> the sockets, the server's
  first. The file sensor_data_recv is open.
\<close>

definition conn_inv ::
    "conn_state \<Rightarrow> dnode list \<Rightarrow> sensor_socket_t list \<Rightarrow> (addr \<times> tcpsock) list \<Rightarrow> bool" where
  "conn_inv st ns cs ps \<longleftrightarrow>
     elem_list (\<lambda>c. c) (conns st) (connections_to_server st) ns cs \<and>
     (\<exists>v. cells (conns st) (new_sensor st) = Some (Obj v)) \<and> new_sensor st \<notin> snd ` set ns \<and>
     socks_ok (cnet st) ps \<and> map fst ps = srv_socket (server st) # map ss_socket cs \<and>
     conn_size (server st) = int (length (fd (server st))) \<and> length cs < length (fd (server st)) \<and>
     take (length ps) (map pfd (fd (server st))) = map (sd \<circ> snd) ps \<and> recv_open st"

lemma conn_invD:
  assumes "conn_inv st ns cs ps"
  shows "elem_list (\<lambda>c. c) (conns st) (connections_to_server st) ns cs"
    and "length ps = Suc (length cs)" and "socks_ok (cnet st) ps"
    and "fst (ps ! 0) = srv_socket (server st)"
    and "i < length cs \<Longrightarrow> fst (ps ! Suc i) = ss_socket (cs ! i)"
    and "length cs < length (fd (server st))"
    and "conn_size (server st) = int (length (fd (server st)))"
    and "take (length ps) (map pfd (fd (server st))) = map (sd \<circ> snd) ps"
    and "new_sensor st \<notin> snd ` set ns"
    and "recv_open st"
proof -
  have m: "map fst ps = srv_socket (server st) # map ss_socket cs" using assms by (simp add: conn_inv_def)
  then show l: "length ps = Suc (length cs)" by (metis length_Cons length_map)
  show "fst (ps ! 0) = srv_socket (server st)" using m l by (metis nth_Cons_0 nth_map zero_less_Suc)
  show "fst (ps ! Suc i) = ss_socket (cs ! i)" if "i < length cs"
  proof -
    have "map fst ps ! Suc i = map ss_socket cs ! i" by (simp add: m)
    then show ?thesis using l that by simp
  qed
qed (use assms in \<open>simp_all add: conn_inv_def\<close>)

lemma conn_inv_bound:
  assumes "conn_inv st ns cs ps"
  shows "bound (cnet st) (srv_socket (server st)) (snd (ps ! 0))"
    and "i < length cs \<Longrightarrow> bound (cnet st) (ss_socket (cs ! i)) (snd (ps ! Suc i))"
proof -
  note d = conn_invD [OF assms]
  have all: "\<And>k. k < length ps \<Longrightarrow> bound (cnet st) (fst (ps ! k)) (snd (ps ! k))"
    using d(3) by (simp add: socks_ok_def)
  show "bound (cnet st) (srv_socket (server st)) (snd (ps ! 0))" using all [of 0] d(2,4) by simp
  show "bound (cnet st) (ss_socket (cs ! i)) (snd (ps ! Suc i))" if "i < length cs"
    using all [of "Suc i"] d(2) d(5) [OF that] that by simp
qed

text \<open>The element that belongs to a connection holds its descriptor.\<close>

lemma conn_inv_aligned:
  assumes "conn_inv st ns cs ps" and "i < length cs"
  shows "pfd (fd (server st) ! Suc i) = sd (snd (ps ! Suc i))"
proof -
  note d = conn_invD [OF assms(1)]
  have "take (length ps) (map pfd (fd (server st))) ! Suc i = map (sd \<circ> snd) ps ! Suc i"
    by (simp only: d(8))
  then show ?thesis using d(2,6) assms(2) by simp
qed

lemma read_conn_ok [heap_simps]:
  "cells h p = Some (Obj s) \<Longrightarrow> heap_ok h \<Longrightarrow> read_conn h p = Inr s"
  by (simp add: read_conn_def load_ok)

lemma upd_conn_ok [heap_simps]:
  "cells h p = Some (Obj s) \<Longrightarrow> heap_ok h \<Longrightarrow> upd_conn h p f = Inr (written p (Obj (f s)) h)"
  by (simp add: upd_conn_def read_conn_ok store_ok)

end
