(* ===== verification/Connmgr_Spec.thy ===== *)
theory Connmgr_Spec
  imports Connmgr
begin

text \<open>
  What the connection manager promises, without heap, sockets and poll array: the connections are
  a list of ids and times, the array is only its size, and a round is a function of what the world
  answers. \<open>Connmgr_Refine\<close> shows that the code implements it.
\<close>

record conn =
  c_id :: "16 word"
  c_last :: "64 word"

text \<open>
  The abstract state: the connections in the order of their acceptance, the size of the array, the
  time of the last activity, the measurements handed to the shared buffer and the messages handed
  to the log, oldest first.
\<close>

record manager =
  m_conns :: "conn list"
  m_size :: nat
  m_last :: "64 word"
  m_data :: "sensor_data_t list"
  m_msgs :: "string list"

text \<open>What \<open>recv\<close> makes of a buffer, and the measurement that three such answers give.\<close>

definition filled :: "recv_answer \<Rightarrow> 8 word list \<Rightarrow> 8 word list" where
  "filled r old =
     (case ra_bytes r of None \<Rightarrow> old | Some bs \<Rightarrow> bs @ drop (length bs) old)"

definition received :: "round_env \<Rightarrow> nat \<Rightarrow> sensor_data_t" where
  "received env i =
     (case env_local env i of (b0, b1, b2) \<Rightarrow>
        \<lparr>data_id = ucast (le_word (filled (env_recv env i 0) b0)),
         data_value = double_of_bits (le_word (filled (env_recv env i 1) b1)),
         data_ts = le_word (filled (env_recv env i 2) b2)\<rparr>)"

text \<open>Only the answer to the third call decides whether the measurement counts.\<close>

definition got_data :: "round_env \<Rightarrow> nat \<Rightarrow> bool" where
  "got_data env i \<longleftrightarrow> 0 < ra_count (env_recv env i 2)"

definition ready :: "round_env \<Rightarrow> nat \<Rightarrow> bool" where
  "ready env i \<longleftrightarrow> has_flag (env_revents env i) POLLIN"

definition hung_up :: "round_env \<Rightarrow> nat \<Rightarrow> bool" where
  "hung_up env i \<longleftrightarrow> has_flag (env_revents env i) POLLRDHUP"

text \<open>A connection from which data is read.\<close>

definition read_conn_spec :: "round_env \<Rightarrow> nat \<Rightarrow> conn \<Rightarrow> conn" where
  "read_conn_spec env i c =
     (let d = received env i in
      \<lparr>c_id = (if c_id c = FIRST_SENSOR_ID then data_id d else c_id c),
       c_last = (if got_data env i then data_ts d else c_last c)\<rparr>)"

definition spec_read :: "round_env \<Rightarrow> nat \<Rightarrow> manager \<Rightarrow> manager" where
  "spec_read env i m =
     (let d = received env i; c = m_conns m ! i in
      m\<lparr>m_conns := (m_conns m)[i := read_conn_spec env i c],
        m_last := (if got_data env i then data_ts d else m_last m),
        m_data := m_data m @ (if got_data env i then [d] else []),
        m_msgs := m_msgs m @ (if c_id c = FIRST_SENSOR_ID then [opened_msg (data_id d)] else [])\<rparr>)"

text \<open>
  The end of a connection. \<open>n\<close> is the number of connections at the begin of the round: when
  the array has been cut to \<open>n + 1\<close> elements, closing the gap reads behind it.
\<close>

definition spec_drop :: "(16 word \<Rightarrow> string) \<Rightarrow> round_env \<Rightarrow> nat \<Rightarrow> nat \<Rightarrow> manager \<Rightarrow> manager res" where
  "spec_drop msg env n i m =
     (if m_size m = Suc n then Inl OutOfBounds
      else Inr (m\<lparr>m_conns := remove_nth i (m_conns m), m_last := env_close_time env,
                  m_msgs := m_msgs m @ [msg (c_id (m_conns m ! i))]\<rparr>))"

fun spec_serve :: "nat \<Rightarrow> round_env \<Rightarrow> nat \<Rightarrow> nat \<Rightarrow> manager \<Rightarrow> manager res" where
  "spec_serve 0 env n i m = Inr m"
| "spec_serve (Suc k) env n i m =
     (let m1 = (if ready env (Suc i) then spec_read env i m else m) in
      if hung_up env (Suc i) then spec_drop closed_msg env n i m1
      else if later (env_timeout_time env i) (c_last (m_conns m1 ! i))
      then spec_drop timeout_msg env n i m1
      else spec_serve k env n (Suc i) m1)"

definition spec_resize :: "manager \<Rightarrow> manager" where
  "spec_resize m =
     (let n = length (m_conns m) in
      m\<lparr>m_size := (if m_size m = Suc n then 2 * m_size m
                   else if m_size m = n + 5 then Suc n else m_size m)\<rparr>)"

definition spec_accept :: "round_env \<Rightarrow> manager \<Rightarrow> manager res" where
  "spec_accept env m =
     (if m_size m = Suc (length (m_conns m)) then Inl OutOfBounds
      else Inr (m\<lparr>m_conns := m_conns m @ [\<lparr>c_id = FIRST_SENSOR_ID, c_last = env_accept_time env\<rparr>]\<rparr>))"

definition spec_round :: "round_env \<Rightarrow> manager \<Rightarrow> (bool \<times> manager) res" where
  "spec_round env m =
     (let n = length (m_conns m) in
      bindE (if ready env 0 then spec_accept env (spec_resize m) else Inr (spec_resize m)) (\<lambda>m1.
      if n = 0 \<and> later (env_idle_time env) (m_last m1) then Inr (False, m1)
      else bindE (spec_serve n env n 0 m1) (\<lambda>m2. Inr (True, m2))))"

fun spec_rounds :: "(int \<times> round_env) list \<Rightarrow> manager \<Rightarrow> (bool \<times> manager) res" where
  "spec_rounds [] m = Inr (False, m)"
| "spec_rounds ((flag, env) # rs) m =
     (if flag = 0 then Inr (True, m)
      else bindE (spec_round env m) (\<lambda>(go, m1). if go then spec_rounds rs m1 else Inr (True, m1)))"

definition new_manager :: "64 word \<Rightarrow> manager" where
  "new_manager now = \<lparr>m_conns = [], m_size = BEGINING_SIZE, m_last = now, m_data = [], m_msgs = []\<rparr>"

section \<open>When a round goes wrong\<close>

text \<open>The connection that ends in a round: the first one that hangs up or is silent for too long.\<close>

definition ends :: "round_env \<Rightarrow> nat \<Rightarrow> conn \<Rightarrow> bool" where
  "ends env i c \<longleftrightarrow>
     hung_up env (Suc i) \<or>
     later (env_timeout_time env i) (c_last (if ready env (Suc i) then read_conn_spec env i c else c))"

lemma spec_read_simps [simp]:
  "length (m_conns (spec_read env i m)) = length (m_conns m)"
  "m_size (spec_read env i m) = m_size m"
  by (simp_all add: spec_read_def Let_def)

lemma spec_read_nth:
  "j < length (m_conns m) \<Longrightarrow> m_conns (spec_read env i m) ! j =
     (if j = i then read_conn_spec env i (m_conns m ! i) else m_conns m ! j)"
  by (simp add: spec_read_def Let_def)

lemma spec_serve_fault:
  "i + k \<le> length (m_conns m) \<Longrightarrow>
   (\<exists>e. spec_serve k env n i m = Inl e) \<longleftrightarrow>
     m_size m = Suc n \<and> (\<exists>j. i \<le> j \<and> j < i + k \<and> ends env j (m_conns m ! j))"
proof (induction k arbitrary: i m)
  case (Suc k)
  let ?m1 = "if ready env (Suc i) then spec_read env i m else m"
  have m1: "m_size ?m1 = m_size m" "length (m_conns ?m1) = length (m_conns m)"
    and nth: "j < length (m_conns m) \<Longrightarrow> i < j \<Longrightarrow> m_conns ?m1 ! j = m_conns m ! j" for j
    by (simp_all add: spec_read_nth)
  have last: "m_conns ?m1 ! i = (if ready env (Suc i) then read_conn_spec env i (m_conns m ! i) else m_conns m ! i)"
    using Suc.prems by (simp add: spec_read_nth)
  show ?case
  proof (cases "ends env i (m_conns m ! i)")
    case True
    then have "hung_up env (Suc i) \<or> later (env_timeout_time env i) (c_last (m_conns ?m1 ! i))"
      by (simp add: ends_def last)
    then have "(\<exists>e. spec_serve (Suc k) env n i m = Inl e) \<longleftrightarrow> m_size m = Suc n"
      using m1(1) by (auto simp: Let_def spec_drop_def)
    then show ?thesis using True by auto
  next
    case False
    then have "spec_serve (Suc k) env n i m = spec_serve k env n (Suc i) ?m1"
      by (simp add: ends_def last Let_def)
    moreover have "(\<exists>j. Suc i \<le> j \<and> j < Suc i + k \<and> ends env j (m_conns ?m1 ! j)) \<longleftrightarrow>
        (\<exists>j. i \<le> j \<and> j < i + Suc k \<and> ends env j (m_conns m ! j))"
      using False nth Suc.prems by (metis Suc_le_eq add_Suc_right add_Suc le_eq_less_or_eq less_le_trans)
    ultimately show ?thesis using Suc.IH [of "Suc i" ?m1] Suc.prems m1 by simp
  qed
qed simp

text \<open>
  A round of the contract is defined except when the array shrinks and, in the same round, a
  connection is accepted or one ends.
\<close>

lemma spec_round_fault:
  assumes "length (m_conns m) < m_size m"
  shows "(\<exists>e. spec_round env m = Inl e) \<longleftrightarrow>
     m_size m = length (m_conns m) + 5 \<and>
     (ready env 0 \<or> (\<exists>j < length (m_conns m). ends env j (m_conns m ! j)))"
proof -
  let ?n = "length (m_conns m)" and ?m1 = "spec_resize m"
  have m1: "m_conns ?m1 = m_conns m" "m_last ?m1 = m_last m" by (simp_all add: spec_resize_def Let_def)
  have size: "m_size ?m1 = Suc ?n \<longleftrightarrow> m_size m = ?n + 5"
    using assms by (auto simp: spec_resize_def Let_def)
  show ?thesis
  proof (cases "ready env 0")
    case True
    show ?thesis
    proof (cases "m_size m = ?n + 5")
      case True
      then show ?thesis using \<open>ready env 0\<close> size m1 by (simp add: spec_round_def spec_accept_def)
    next
      case False
      let ?m2 = "?m1\<lparr>m_conns := m_conns m @ [\<lparr>c_id = FIRST_SENSOR_ID, c_last = env_accept_time env\<rparr>]\<rparr>"
      have "\<nexists>e. spec_serve ?n env ?n 0 ?m2 = Inl e"
        using spec_serve_fault [of 0 ?n ?m2 env ?n] False size by simp
      then have "\<nexists>e. spec_round env m = Inl e"
        using \<open>ready env 0\<close> False size m1
        by (auto simp: spec_round_def spec_accept_def Let_def bindE_def split: sum.splits)
      then show ?thesis using False by simp
    qed
  next
    case False
    have serve: "(\<exists>e. spec_serve ?n env ?n 0 ?m1 = Inl e) \<longleftrightarrow>
        m_size m = ?n + 5 \<and> (\<exists>j < ?n. ends env j (m_conns m ! j))"
      using spec_serve_fault [of 0 ?n ?m1 env ?n] size m1 by simp
    show ?thesis
      using False serve m1 by (auto simp: spec_round_def Let_def bindE_def split: sum.splits)
  qed
qed

text \<open>The only fault is the access behind the array.\<close>

lemma spec_serve_error: "spec_serve k env n i m = Inl e \<Longrightarrow> e = OutOfBounds"
  by (induction k arbitrary: i m) (auto simp: Let_def spec_drop_def split: if_splits)

lemma spec_round_error: "spec_round env m = Inl e \<Longrightarrow> e = OutOfBounds"
  by (auto simp: spec_round_def spec_accept_def Let_def bindE_def dest: spec_serve_error
      split: sum.splits if_splits)

section \<open>Few connections\<close>

lemma length_remove_nth_le: "length (remove_nth i xs) \<le> length xs"
  by (simp add: remove_nth_def)

lemma spec_serve_sizes:
  "spec_serve k env n i m = Inr m' \<Longrightarrow> m_size m' = m_size m \<and> length (m_conns m') \<le> length (m_conns m)"
proof (induction k arbitrary: i m)
  case (Suc k)
  let ?m1 = "if ready env (Suc i) then spec_read env i m else m"
  have m1: "m_size ?m1 = m_size m" "length (m_conns ?m1) = length (m_conns m)" by simp_all
  have drop: "m_size m' = m_size m \<and> length (m_conns m') \<le> length (m_conns m)"
    if "spec_drop msg env n i ?m1 = Inr m'" for msg
    using that m1 length_remove_nth_le [of i "m_conns ?m1"]
    by (auto simp: spec_drop_def simp del: spec_read_simps split: if_split_asm)
  show ?case
    using Suc.prems drop Suc.IH [of "Suc i" ?m1] m1 unfolding spec_serve.simps Let_def by metis
qed simp

lemma spec_round_sizes:
  assumes "spec_round env m = Inr (go, m')" and "m_size m = 4" and "length (m_conns m) \<le> 2"
  shows "m_size m' = 4 \<and> length (m_conns m') \<le> length (m_conns m) + (if ready env 0 then 1 else 0)"
proof -
  have m1: "spec_resize m = m" using assms(2,3) by (simp add: spec_resize_def Let_def)
  obtain m2 where m2: "(if ready env 0 then spec_accept env m else Inr m) = Inr m2"
      "m' = m2 \<or> spec_serve (length (m_conns m)) env (length (m_conns m)) 0 m2 = Inr m'"
    using assms(1) unfolding spec_round_def Let_def m1 bindE_eq_Inr by (auto split: if_splits)
  have "m_size m2 = 4 \<and> length (m_conns m2) = length (m_conns m) + (if ready env 0 then 1 else 0)"
    using m2(1) assms(2) by (auto simp: spec_accept_def split: if_splits)
  then show ?thesis using m2(2) spec_serve_sizes by fastforce
qed

text \<open>The number of requests in a run.\<close>

definition requests :: "(int \<times> round_env) list \<Rightarrow> nat" where
  "requests rounds = length (filter (\<lambda>r. ready (snd r) 0) rounds)"

lemma spec_rounds_few:
  "m_size m = 4 \<Longrightarrow> length (m_conns m) + requests rounds \<le> 2 \<Longrightarrow> spec_rounds rounds m \<noteq> Inl e"
proof (induction rounds arbitrary: m)
  case (Cons r rounds)
  obtain flag env where r: "r = (flag, env)" by fastforce
  have "\<nexists>e. spec_round env m = Inl e"
    using spec_round_fault [of m env] Cons.prems by simp
  then obtain go m' where m': "spec_round env m = Inr (go, m')" by (cases "spec_round env m") auto
  have "m_size m' = 4" "length (m_conns m') + requests rounds \<le> 2"
    using spec_round_sizes [OF m' Cons.prems(1)] Cons.prems(2) r by (auto simp: requests_def split: if_splits)
  from Cons.IH [OF this] show ?case using m' r by simp
qed simp

end
