(* ===== verification/Connmgr_Round.thy ===== *)
theory Connmgr_Round
  imports Connmgr_Inv Connmgr_Spec
begin

text \<open>
  The steps of a round on the state of the code: accepting a connection, what is received from
  one, writing to it and ending it, each with the invariant it keeps and what it changes.
\<close>

section \<open>Accepting\<close>

lemma callback_copy_ok:
  assumes ok: "heap_ok h" and b: "0 < budget h" and v: "cells h v = Some (Obj c)"
  shows "\<exists>h'. callback_copy h v = Inr (next_addr h, h') \<and> heap_ok h' \<and>
     cells h' (next_addr h) = Some (Obj c) \<and> frame {next_addr h} h h' \<and>
     next_addr h' = Suc (next_addr h) \<and> budget h' = budget h - 1"
proof -
  let ?e = "next_addr h" and ?h1 = "alloced (Obj raw_conn) h"
  have ve: "v \<noteq> ?e" using v heap_ok_fresh [OF ok] by auto
  have "raw_conn\<lparr>ss_last_record := ss_last_record c, ss_id := ss_id c, ss_socket := ss_socket c\<rparr> = c"
    by (cases c) (simp add: raw_conn_def)
  then show ?thesis
    using ok b v ve heap_ok_pos [OF ok]
    by (simp add: callback_copy_def malloc_ok read_conn_ok upd_conn_ok frame_def)
qed

text \<open>A fresh connection: id zero, the time of the acceptance.\<close>

lemma accept_sensor_ok:
  assumes inv: "conn_inv st ns cs ps" and room: "Suc (length cs) < length (fd (server st))"
    and os: "0 \<le> ac_accept (env_accept env)"
    and b: "2 \<le> budget (net_heap (cnet st))" "2 \<le> budget (conns st)"
  shows "\<exists>st' ns' p s. accept_sensor env (int (length cs)) st = Inr st' \<and>
     conn_inv st' ns' (cs @ [\<lparr>ss_id = FIRST_SENSOR_ID, ss_socket = p, ss_last_record = env_accept_time env\<rparr>])
       (ps @ [(p, s)]) \<and>
     map revents (fd (server st')) = map revents (fd (server st)) \<and>
     srv_last_record (server st') = srv_last_record (server st) \<and>
     to_sbuffer st' = to_sbuffer st \<and> recv_file st' = recv_file st \<and> fifo_msgs st' = fifo_msgs st \<and>
     budget (net_heap (cnet st')) = budget (net_heap (cnet st)) - 2 \<and> budget (conns st') = budget (conns st) - 2"
proof -
  note d = conn_invD [OF inv]
  let ?n = "length cs" and ?v = "new_sensor st" and ?l = "connections_to_server st"
  let ?p = "next_addr (net_heap (cnet st))" and ?d = "ac_accept (env_accept env)"
  obtain x where x: "cells (conns st) ?v = Some (Obj x)" using inv by (auto simp: conn_inv_def)
  have ok: "heap_ok (conns st)" by (rule elem_list_ok [OF d(1)])
  obtain n1 where n1: "tcp_wait_for_connection (env_accept env) (srv_socket (server st)) (cnet st) =
        Inr (TCP_NO_ERROR, Some ?p, n1)"
      "bound n1 ?p \<lparr>cookie = MAGIC_COOKIE, sd = ?d, ip_addr = Suc ?p, port = uint (ac_port (env_accept env))\<rparr>"
      "frame {?p, Suc ?p} (net_heap (cnet st)) (net_heap n1)"
      "budget (net_heap n1) = budget (net_heap (cnet st)) - 2"
    using wait_for_connection_ok [OF conn_inv_bound(1) [OF inv] b(1) os] by blast
  let ?s = "\<lparr>cookie = MAGIC_COOKIE, sd = ?d, ip_addr = Suc ?p, port = uint (ac_port (env_accept env))\<rparr>"
  have foot: "sock_foot (?p, ?s) = {?p, Suc ?p}" by (auto simp: sock_foot_def)
  have okn: "heap_ok (net_heap n1)" using n1(2) by (simp add: bound_def)
  have ps': "socks_ok n1 (ps @ [(?p, ?s)])"
    by (rule socks_add [OF d(3) okn n1(2)]) (use n1(3) foot in auto)
  let ?c = "\<lparr>ss_id = FIRST_SENSOR_ID, ss_socket = ?p, ss_last_record = env_accept_time env\<rparr>"
  let ?h1 = "written ?v (Obj (x\<lparr>ss_socket := ?p\<rparr>)) (conns st)"
  let ?h2 = "written ?v (Obj ?c) ?h1"
  have h1: "upd_conn (conns st) ?v (ss_socket_update (\<lambda>_. ?p)) = Inr ?h1"
    using upd_conn_ok [OF x ok] by simp
  have ok1: "heap_ok ?h1" using ok x by simp
  have v1: "cells ?h1 ?v = Some (Obj (x\<lparr>ss_socket := ?p\<rparr>))" by simp
  have h2: "upd_conn ?h1 ?v (\<lambda>c. c\<lparr>ss_last_record := env_accept_time env, ss_id := FIRST_SENSOR_ID\<rparr>) = Inr ?h2"
    using upd_conn_ok [OF v1 ok1] by (cases x) simp
  have ok2: "heap_ok ?h2" using ok1 by simp
  have out: "?v \<notin> {?l} \<union> fst ` set ns \<union> snd ` set ns"
    using elem_list_apart [OF d(1) x] d(9) by simp
  have t2: "elem_list (\<lambda>c. c) ?h2 ?l ns cs"
    by (rule elem_list_cong [OF d(1) ok2]) (use out in auto)
  have sdq: "tcp_get_sd ?p n1 = Inr (TCP_NO_ERROR, Some ?d)"
    using bound_query [OF n1(2), of sd] by (simp add: tcp_get_sd_def)
  let ?a = "fd (server st)"
  let ?a1 = "?a[Suc ?n := (?a ! Suc ?n)\<lparr>pfd := ?d\<rparr>]"
  let ?a2 = "?a1[Suc ?n := (?a1 ! Suc ?n)\<lparr>events := POLLIN OR POLLRDHUP\<rparr>]"
  have nn: "nat (int ?n + 1) = Suc ?n" by simp
  have a1: "fd_upd ?a (int ?n + 1) (pfd_update (\<lambda>_. ?d)) = Inr ?a1"
    and a2: "fd_upd ?a1 (int ?n + 1) (events_update (\<lambda>_. POLLIN OR POLLRDHUP)) = Inr ?a2"
    using room by (simp_all add: fd_upd_def nn)
  let ?h3 = "alloced (Node raw_node) ?h2"
  have v3: "cells ?h3 ?v = Some (Obj ?c)" "?v \<noteq> next_addr ?h2"
    using x heap_ok_fresh [OF ok] by auto
  have ok3: "heap_ok ?h3" "0 < budget ?h3" using ok2 b(2) by simp_all
  obtain h4 where h4: "callback_copy ?h3 ?v = Inr (next_addr ?h3, h4)" "heap_ok h4"
      "cells h4 (next_addr ?h3) = Some (Obj ?c)" "frame {next_addr ?h3} ?h3 h4" "budget h4 = budget (conns st) - 2"
    using callback_copy_ok [OF ok3 v3(1)] by auto
  have b2: "0 < budget ?h2" using b(2) by simp
  have cp: "element_copy conn_callbacks ?h3 ?v = Inr (next_addr ?h3, h4)"
    using h4(1) by (simp add: conn_callbacks_def)
  let ?ns' = "ns @ [(next_addr ?h2, next_addr ?h3)]"
  obtain h5 where h5: "dpl_insert_at_index conn_callbacks ?h2 ?l ?v (int ?n) True = Inr (?l, h5)"
      "elem_list (\<lambda>c. c) h5 ?l ?ns' (cs @ [?c])"
      "frame ({?l, next_addr ?h2} \<union> fst ` set ns) h4 h5" "budget h5 = budget h4"
    using elem_list_insert_copy [OF t2 b2 cp h4(2,3) heap_ok_fresh [OF ok3(1)] h4(4), of "int ?n"]
      insert_nth_end [of ns] elem_list_length [OF t2] by (auto simp: ins_pos_def)
  have v4: "cells h4 ?v = Some (Obj ?c)" using v3 x frameD [OF h4(4), of ?v] heap_ok_live [OF ok x] by auto
  have "?v \<notin> {?l, next_addr ?h2} \<union> fst ` set ns" using out v3(2) by simp
  then have v5: "cells h5 ?v = Some (Obj ?c)" using frameD [OF h5(3), of ?v] v4 by simp
  have vn: "?v \<notin> snd ` set ?ns'" using out heap_ok_live [OF ok x] by auto
  let ?st = "set_fd ?a2 (st\<lparr>conns := h5, connections_to_server := ?l, cnet := n1\<rparr>)"
  have run: "accept_sensor env (int ?n) st = Inr ?st"
    using n1(1) h1 read_conn_ok [OF v1 ok1] sdq a1 a2 h2 elem_list_size [OF t2] h5(1)
    by (simp add: accept_sensor_def)
  have tk: "take (Suc (Suc ?n)) (map pfd ?a2) = map (sd \<circ> snd) (ps @ [(?p, ?s)])"
  proof -
    have "take (Suc (Suc ?n)) (map pfd ?a2) = take (Suc ?n) (map pfd ?a2) @ [map pfd ?a2 ! Suc ?n]"
      using room by (intro take_Suc_conv_app_nth) simp
    moreover have "take (Suc ?n) (map pfd ?a2) = take (Suc ?n) (map pfd ?a)"
      by (simp add: map_update take_update_cancel)
    moreover have "map pfd ?a2 ! Suc ?n = ?d" using room by simp
    ultimately show ?thesis using d(2,8) by simp
  qed
  have "conn_inv ?st ?ns' (cs @ [?c]) (ps @ [(?p, ?s)])"
    using h5(2) v5 vn ps' inv room tk d(2) by (simp add: conn_inv_def set_fd_def)
  moreover have "map revents ?a2 = map revents ?a" by (rule nth_equalityI) (use room in \<open>auto simp: nth_list_update\<close>)
  ultimately show ?thesis using run n1(4) h4(5) h5(4)
    by (intro exI [of _ ?st] exI conjI) (auto simp: set_fd_def)
qed

section \<open>Data on a connection\<close>

lemma receive_data_bound:
  assumes b: "bound n p s"
  shows "receive_data (env_recv env i) (env_local env i) p n =
     Inr (receive_code (ra_count (env_recv env i 2)) (ra_errno (env_recv env i 2)), ra_count (env_recv env i 2),
          received env i)"
proof -
  have "tcp_receive r p (Some buf) (Some k) n =
      Inr (receive_code (ra_count r) (ra_errno r), Some (ra_count r), Some (filled r buf))" for r buf k
    using bound_read [OF b] b
    by (auto simp: tcp_receive_def bound_def Let_def filled_def split: option.split)
  then show ?thesis by (simp add: receive_data_def received_def split: prod.split)
qed

lemma received_iff:
  "receive_code (ra_count r) e = TCP_NO_ERROR \<and> ra_count r \<noteq> 0 \<longleftrightarrow> 0 < ra_count r"
  by (auto simp: receive_code_def tcp_codes)

text \<open>A write to a connection that keeps its socket.\<close>

lemma conn_inv_write:
  assumes inv: "conn_inv st ns cs ps" and i: "i < length cs" and c: "ss_socket c = ss_socket (cs ! i)"
  shows "conn_inv (st\<lparr>conns := written (snd (ns ! i)) (Obj c) (conns st)\<rparr>) ns (cs[i := c]) ps"
proof -
  note d = conn_invD [OF inv]
  have "elem_list (\<lambda>c. c) (written (snd (ns ! i)) (Obj c) (conns st)) (connections_to_server st) ns (cs[i := c])"
    by (rule elem_list_write [OF d(1) i])
  moreover have "map ss_socket (cs[i := c]) = map ss_socket cs"
    using c i by (metis list_update_id map_update nth_map)
  moreover have "new_sensor st \<noteq> snd (ns ! i)"
    using d(9) i elem_list_length [OF d(1)] by (metis image_eqI nth_mem)
  ultimately show ?thesis using inv by (simp add: conn_inv_def)
qed

text \<open>The invariant looks only at these parts of the state.\<close>

lemma conn_inv_cong:
  assumes "conn_inv st ns cs ps"
    and "conns st' = conns st" "connections_to_server st' = connections_to_server st"
      "new_sensor st' = new_sensor st" "cnet st' = cnet st"
      "conn_size (server st') = conn_size (server st)" "fd (server st') = fd (server st)"
      "srv_socket (server st') = srv_socket (server st)" "recv_open st' = recv_open st"
  shows "conn_inv st' ns cs ps"
  using assms by (simp add: conn_inv_def)

lemma conn_inv_element:
  assumes inv: "conn_inv st ns cs ps" and i: "i < length cs"
  shows "cells (conns st) (snd (ns ! i)) = Some (Obj (cs ! i))"
    and "read_conn (conns st) (snd (ns ! i)) = Inr (cs ! i)"
    and "upd_conn (conns st) (snd (ns ! i)) f = Inr (written (snd (ns ! i)) (Obj (f (cs ! i))) (conns st))"
    and "dpl_get_element_at_index (conns st) (connections_to_server st) (int i) = Inr (snd (ns ! i))"
proof -
  note t = conn_invD(1) [OF inv]
  show e: "cells (conns st) (snd (ns ! i)) = Some (Obj (cs ! i))" by (rule elem_list_nth [OF t i])
  then show "read_conn (conns st) (snd (ns ! i)) = Inr (cs ! i)"
    and "upd_conn (conns st) (snd (ns ! i)) f = Inr (written (snd (ns ! i)) (Obj (f (cs ! i))) (conns st))"
    using elem_list_ok [OF t] by (simp_all add: read_conn_ok upd_conn_ok)
  have "ref_pos (int i) (length cs) = i" "cs \<noteq> []" using i by (auto simp: ref_pos_def)
  then show "dpl_get_element_at_index (conns st) (connections_to_server st) (int i) = Inr (snd (ns ! i))"
    by (rule elem_list_get(1) [OF t])
qed

section \<open>The end of a connection\<close>

lemma drop_sensor_ok:
  assumes inv: "conn_inv st ns cs ps" and i: "i < m" "m \<le> length cs" "length cs \<le> Suc m"
    and room: "Suc m < length (fd (server st))"
  shows "\<exists>st'. drop_sensor msg env (int m) i (snd (ns ! i)) st = Inr st' \<and>
     conn_inv st' (remove_nth i ns) (remove_nth i cs) (remove_nth (Suc i) ps) \<and>
     length (fd (server st')) = length (fd (server st)) \<and>
     fifo_msgs st' = fifo_msgs st @ [msg (ss_id (cs ! i))] \<and> srv_last_record (server st') = env_close_time env \<and>
     to_sbuffer st' = to_sbuffer st \<and> recv_file st' = recv_file st \<and>
     budget (net_heap (cnet st')) = budget (net_heap (cnet st)) \<and> budget (conns st') = budget (conns st)"
proof -
  have il: "i < length cs" using i by simp
  note d = conn_invD [OF inv] and el = conn_inv_element [OF inv il]
  let ?c = "(cs ! i)\<lparr>ss_socket := 0\<rparr>" and ?l = "connections_to_server st"
  obtain n1 where n1: "tcp_close (env_shutdown env) (env_close env) (ss_socket (cs ! i)) (cnet st) = Inr (TCP_NO_ERROR, 0, n1)"
      "heap_ok (net_heap n1)"
      "cells (net_heap n1) = (cells (net_heap (cnet st)))(ss_socket (cs ! i) := None, ip_addr (snd (ps ! Suc i)) := None)"
      "budget (net_heap n1) = budget (net_heap (cnet st))"
    using close_bound [OF conn_inv_bound(2) [OF inv il]] by blast
  have "socks_ok n1 (remove_nth (Suc i) ps)"
    using socks_remove [OF d(3) _ n1(2), of "Suc i"] n1(3) d(2) d(5) [OF il] il by simp
  moreover have t1: "elem_list (\<lambda>c. c) (written (snd (ns ! i)) (Obj ?c) (conns st)) ?l ns (cs[i := ?c])"
    by (rule elem_list_write [OF d(1) il])
  have "cs[i := ?c] \<noteq> []" "ref_pos (int i) (length (cs[i := ?c])) = i" using il by (auto simp: ref_pos_def)
  from elem_list_remove [OF t1 this, of conn_callbacks] obtain h2 where
    h2: "dpl_remove_at_index conn_callbacks (written (snd (ns ! i)) (Obj ?c) (conns st)) ?l (int i) False = Inr (?l, h2)"
      "elem_list (\<lambda>c. c) h2 ?l (remove_nth i ns) (remove_nth i (cs[i := ?c]))"
      "frame ({?l, snd (ns ! i)} \<union> fst ` set ns) (written (snd (ns ! i)) (Obj ?c) (conns st)) h2"
      "budget h2 = budget (conns st)"
    by auto
  have rm: "remove_nth i (cs[i := ?c]) = remove_nth i cs" by (simp add: remove_nth_def)
  obtain x where x: "cells (conns st) (new_sensor st) = Some (Obj x)" using inv by (auto simp: conn_inv_def)
  have "new_sensor st \<noteq> snd (ns ! i)"
    using d(9) il elem_list_length [OF d(1)] by (metis image_eqI nth_mem)
  then have "cells h2 (new_sensor st) = Some (Obj x)"
    using x elem_list_apart [OF d(1) x] frameD [OF h2(3), of "new_sensor st"] by simp
  moreover have "new_sensor st \<notin> snd ` set (remove_nth i ns)"
    using d(9) set_remove_nth_subset [of i ns] by blast
  moreover obtain a1 where a1: "shift_array (int (Suc i)) (int (Suc m)) (fd (server st)) = Inr a1"
      "length a1 = length (fd (server st))"
      "take (length ps - 1) (map pfd a1) = remove_nth (Suc i) (take (length ps) (map pfd (fd (server st))))"
    using shift_array_ok [of "Suc i" "Suc m" "fd (server st)" "length ps"] i room d(2) by auto
  have "take (length (remove_nth (Suc i) ps)) (map pfd a1) = map (sd \<circ> snd) (remove_nth (Suc i) ps)"
    using a1(3) d(2,8) il by (simp add: length_remove_nth map_remove_nth)
  moreover have "map fst (remove_nth (Suc i) ps) = srv_socket (server st) # map ss_socket (remove_nth i cs)"
    using inv by (simp add: conn_inv_def map_remove_nth)
  moreover have "length (remove_nth i cs) < length a1" using d(6) il a1(2) by (simp add: length_remove_nth)
  ultimately have inv': "conn_inv (set_fd a1 (st\<lparr>conns := h2, cnet := n1, fifo_msgs := fifo_msgs st @ [msg (ss_id (cs ! i))]\<rparr>))
      (remove_nth i ns) (remove_nth i cs) (remove_nth (Suc i) ps)"
    using h2(2) rm d(7,10) a1(2) by (simp add: conn_inv_def set_fd_def)
  have ix: "int i + 1 = int (Suc i)" "int m + 1 = int (Suc m)" by simp_all
  let ?st1 = "set_fd a1 (st\<lparr>conns := h2, cnet := n1, fifo_msgs := fifo_msgs st @ [msg (ss_id (cs ! i))]\<rparr>)"
  have "drop_sensor msg env (int m) i (snd (ns ! i)) st =
      Inr (?st1\<lparr>server := (server ?st1)\<lparr>srv_last_record := env_close_time env\<rparr>\<rparr>)"
    unfolding drop_sensor_def el(2,3) bindE_Inr n1(1) prod.case h2(1) ix a1(1) by (simp add: Let_def)
  then show ?thesis using conn_inv_cong [OF inv'] a1(2) n1(4) h2(4) by (auto simp: set_fd_def)
qed

end
