(* ===== verification/Connmgr_Refine.thy ===== *)
theory Connmgr_Refine
  imports Connmgr_Round
begin

text \<open>
  The code of connmgr.c implements \<open>Connmgr_Spec\<close>: every step of a round on the heap, the
  sockets and the poll array is the step of the contract on the list of connections, with the
  same data, messages and faults. \<open>mgr_repr k st m\<close> says that the state of the code
  represents the abstract one and has memory for \<open>k\<close> more allocations on either side.
\<close>

definition abs_conn :: "sensor_socket_t \<Rightarrow> conn" where
  "abs_conn c = \<lparr>c_id = ss_id c, c_last = ss_last_record c\<rparr>"

lemma abs_conn_simps [simp]: "c_id (abs_conn c) = ss_id c" "c_last (abs_conn c) = ss_last_record c"
  by (simp_all add: abs_conn_def)

definition mgr_repr :: "nat \<Rightarrow> conn_state \<Rightarrow> manager \<Rightarrow> bool" where
  "mgr_repr k st m \<longleftrightarrow>
     (\<exists>ns cs ps. conn_inv st ns cs ps \<and> m_conns m = map abs_conn cs) \<and>
     m_size m = length (fd (server st)) \<and> m_last m = srv_last_record (server st) \<and>
     m_data m = to_sbuffer st \<and> m_msgs m = fifo_msgs st \<and> recv_file st = map recv_line (m_data m) \<and>
     k \<le> budget (net_heap (cnet st)) \<and> k \<le> budget (conns st)"

lemma mgr_reprE:
  assumes "mgr_repr k st m"
  obtains ns cs ps where "conn_inv st ns cs ps" "m_conns m = map abs_conn cs"
    "m_size m = length (fd (server st))" "m_last m = srv_last_record (server st)"
    "m_data m = to_sbuffer st" "m_msgs m = fifo_msgs st" "recv_file st = map recv_line (m_data m)"
    "k \<le> budget (net_heap (cnet st))" "k \<le> budget (conns st)"
  using assms unfolding mgr_repr_def by blast

lemma mgr_reprI:
  assumes "conn_inv st ns cs ps" and "m_conns m = map abs_conn cs"
    and "m_size m = length (fd (server st))" "m_last m = srv_last_record (server st)"
    and "m_data m = to_sbuffer st" "m_msgs m = fifo_msgs st" "recv_file st = map recv_line (m_data m)"
    and "k \<le> budget (net_heap (cnet st))" "k \<le> budget (conns st)"
  shows "mgr_repr k st m"
  using assms unfolding mgr_repr_def by blast

lemma mgr_repr_size: "mgr_repr k st m \<Longrightarrow> length (fd (server st)) = m_size m"
  by (elim mgr_reprE) simp

lemma mgr_repr_length: "mgr_repr k st m \<Longrightarrow> length (m_conns m) < m_size m"
  by (elim mgr_reprE) (simp add: conn_invD(6))

section \<open>The loop over the connections\<close>

text \<open>The element of a connection that the loop looks at, and the abstract connection.\<close>

lemma mgr_repr_element:
  assumes "mgr_repr k st m" and "i < length (m_conns m)"
  obtains e c where "dpl_get_element_at_index (conns st) (connections_to_server st) (int i) = Inr e"
    "read_conn (conns st) e = Inr c" "m_conns m ! i = abs_conn c"
proof -
  obtain ns cs ps where r: "conn_inv st ns cs ps" "m_conns m = map abs_conn cs" using assms(1) by (elim mgr_reprE)
  then have "i < length cs" using assms(2) by simp
  then show ?thesis using conn_inv_element [OF r(1)] r(2) that by simp
qed

text \<open>Reading: the element, whatever it was found as, is the one of the list.\<close>

lemma read_refines:
  assumes r: "mgr_repr k st m" and i: "i < length (m_conns m)" and on: "ready env (Suc i)"
    and e: "dpl_get_element_at_index (conns st) (connections_to_server st) (int i) = Inr e"
  shows "\<exists>st'. read_sensor_data env i e st = Inr st' \<and> mgr_repr k st' (spec_read env i m) \<and>
     fd (server st') = fd (server st) \<and>
     dpl_get_element_at_index (conns st') (connections_to_server st') (int i) = Inr e"
proof -
  obtain ns cs ps where st: "conn_inv st ns cs ps" "m_conns m = map abs_conn cs"
      "m_size m = length (fd (server st))" "m_last m = srv_last_record (server st)"
      "m_data m = to_sbuffer st" "m_msgs m = fifo_msgs st" "recv_file st = map recv_line (m_data m)"
      "k \<le> budget (net_heap (cnet st))" "k \<le> budget (conns st)"
    using r by (elim mgr_reprE)
  have il: "i < length cs" using i st(2) by simp
  note el = conn_inv_element [OF st(1) il]
  have e': "e = snd (ns ! i)" using e el(4) by simp
  note rc = receive_data_bound [OF conn_inv_bound(2) [OF st(1) il], of env i]
  let ?e = "snd (ns ! i)" and ?c = "cs ! i" and ?d = "received env i" and ?got = "got_data env i"
  define c1 where "c1 = (if ?got then ?c\<lparr>ss_last_record := data_ts ?d\<rparr> else ?c)"
  define c2 where "c2 = (if ss_id ?c = FIRST_SENSOR_ID then c1\<lparr>ss_id := data_id ?d\<rparr> else c1)"
  define st1 where "st1 = (if ?got then st\<lparr>conns := written ?e (Obj c1) (conns st),
      server := (server st)\<lparr>srv_last_record := data_ts ?d\<rparr>,
      recv_file := recv_file st @ [recv_line ?d], to_sbuffer := to_sbuffer st @ [?d]\<rparr> else st)"
  define st2 where "st2 = (if ss_id ?c = FIRST_SENSOR_ID then st1\<lparr>conns := written ?e (Obj c2) (conns st1),
      fifo_msgs := fifo_msgs st1 @ [opened_msg (data_id ?d)]\<rparr> else st1)"
  have id1: "ss_id c1 = ss_id ?c" "ss_socket c1 = ss_socket ?c" "ss_socket c2 = ss_socket ?c"
    by (simp_all add: c1_def c2_def)
  have inv1: "conn_inv st1 ns (cs[i := c1]) ps"
  proof (cases ?got)
    case True
    from conn_inv_cong [OF conn_inv_write [OF st(1) il id1(2)]] show ?thesis
      using True by (simp add: st1_def)
  next
    case False
    then show ?thesis using st(1) by (simp add: st1_def c1_def)
  qed
  have i1: "i < length (cs[i := c1])" "(cs[i := c1]) ! i = c1" using il by simp_all
  note el1 = conn_inv_element [OF inv1 i1(1)]
  have inv2: "conn_inv st2 ns (cs[i := c2]) ps"
  proof (cases "ss_id ?c = FIRST_SENSOR_ID")
    case True
    have "ss_socket c2 = ss_socket ((cs[i := c1]) ! i)" using id1 i1(2) by simp
    from conn_inv_cong [OF conn_inv_write [OF inv1 i1(1) this]] show ?thesis
      using True by (simp add: st2_def)
  next
    case False
    then show ?thesis using inv1 by (simp add: st2_def c2_def)
  qed
  have s1: "(if ?got then bindE (upd_conn (conns st) ?e (ss_last_record_update (\<lambda>_. data_ts ?d))) (\<lambda>h1.
        if \<not> recv_open st then Inl NullDeref
        else Inr (st\<lparr>conns := h1, server := (server st)\<lparr>srv_last_record := data_ts ?d\<rparr>,
                recv_file := recv_file st @ [recv_line ?d], to_sbuffer := to_sbuffer st @ [?d]\<rparr>))
      else Inr st) = Inr st1"
    using el(3) conn_invD(10) [OF st(1)] by (simp add: st1_def c1_def)
  have s2: "(if ss_id c1 = FIRST_SENSOR_ID
      then bindE (upd_conn (conns st1) ?e (ss_id_update (\<lambda>_. data_id ?d))) (\<lambda>h2.
        Inr (st1\<lparr>conns := h2, fifo_msgs := fifo_msgs st1 @ [opened_msg (data_id ?d)]\<rparr>))
      else Inr st1) = Inr st2"
    using el1(3) i1(2) id1(1) by (simp add: st2_def c2_def)
  have "read_sensor_data env i ?e st = Inr st2"
    unfolding read_sensor_data_def el(2) bindE_Inr rc prod.case received_iff got_data_def [symmetric] s1
      el1(2) i1(2) by (rule s2)
  then have run: "read_sensor_data env i e st = Inr st2" by (simp only: e')
  have "m_conns (spec_read env i m) = map abs_conn (cs[i := c2])"
    using st(2) il
    by (simp add: spec_read_def Let_def map_update read_conn_spec_def abs_conn_def c2_def c1_def)
  then have "mgr_repr k st2 (spec_read env i m)"
    using st il by (intro mgr_reprI [OF inv2]) (simp_all add: spec_read_def Let_def st2_def st1_def)
  moreover have "dpl_get_element_at_index (conns st2) (connections_to_server st2) (int i) = Inr e"
    unfolding e' using il by (intro conn_inv_element(4) [OF inv2]) simp
  moreover have "fd (server st2) = fd (server st)" by (simp add: st2_def st1_def)
  ultimately show ?thesis using run by blast
qed

text \<open>Closing the gap in an array without a spare element reads behind its end.\<close>

lemma shift_loop_out: "i + k = length a \<Longrightarrow> 0 < k \<Longrightarrow> shift_loop k (int i) a = Inl OutOfBounds"
proof (induction k arbitrary: i a)
  case (Suc k)
  show ?case
  proof (cases k)
    case 0
    then show ?thesis using Suc.prems by (simp add: fd_get_def)
  next
    case (Suc k')
    have "fd_get a (int i + 1) = Inr (a ! Suc i)"
      using Suc \<open>i + Suc k = length a\<close> by (simp add: fd_get_def nat_add_distrib)
    moreover have "fd_upd a (int i) (\<lambda>_. a ! Suc i) = Inr (a[i := a ! Suc i])"
      using \<open>i + Suc k = length a\<close> by (simp add: fd_upd_def)
    ultimately show ?thesis
      using Suc.IH [of "Suc i" "a[i := a ! Suc i]"] Suc.prems Suc by (simp add: algebra_simps)
  qed
qed simp

lemma drop_sensor_out:
  assumes inv: "conn_inv st ns cs ps" and i: "i < length cs" and full: "length (fd (server st)) = Suc (length cs)"
  shows "drop_sensor msg env (int (length cs)) i (snd (ns ! i)) st = Inl OutOfBounds"
proof -
  note d = conn_invD [OF inv] and el = conn_inv_element [OF inv i]
  let ?c = "(cs ! i)\<lparr>ss_socket := 0\<rparr>"
  obtain n1 where n1: "tcp_close (env_shutdown env) (env_close env) (ss_socket (cs ! i)) (cnet st) = Inr (TCP_NO_ERROR, 0, n1)"
    using close_bound [OF conn_inv_bound(2) [OF inv i]] by blast
  have t1: "elem_list (\<lambda>c. c) (written (snd (ns ! i)) (Obj ?c) (conns st)) (connections_to_server st) ns (cs[i := ?c])"
    by (rule elem_list_write [OF d(1) i])
  have "cs[i := ?c] \<noteq> []" "ref_pos (int i) (length (cs[i := ?c])) = i" using i by (auto simp: ref_pos_def)
  from elem_list_remove [OF t1 this, of conn_callbacks] obtain h2 where
    h2: "dpl_remove_at_index conn_callbacks (written (snd (ns ! i)) (Obj ?c) (conns st)) (connections_to_server st) (int i) False
      = Inr (connections_to_server st, h2)" by blast
  have "shift_array (int i + 1) (int (length cs) + 1) (fd (server st)) = Inl OutOfBounds"
    using shift_loop_out [of "Suc i" "length cs - i" "fd (server st)"] i full
    by (simp add: shift_array_def algebra_simps of_nat_diff nat_diff_distrib)
  then show ?thesis unfolding drop_sensor_def el(2,3) bindE_Inr n1 prod.case h2 by simp
qed

text \<open>
  Results of the code and of the contract agree: the same fault, or results that are related.
\<close>

abbreviation agree :: "('a \<Rightarrow> 'b \<Rightarrow> bool) \<Rightarrow> 'a res \<Rightarrow> 'b res \<Rightarrow> bool" where
  "agree R \<equiv> rel_sum (=) R"

lemma agree_bind:
  "agree R x y \<Longrightarrow> (\<And>a b. R a b \<Longrightarrow> agree S (f a) (g b)) \<Longrightarrow> agree S (bindE x f) (bindE y g)"
  by (cases x; cases y) auto

lemma agree_InrD: "agree R x y \<Longrightarrow> y = Inr b \<Longrightarrow> \<exists>a. x = Inr a \<and> R a b"
  and agree_InlD: "agree R x y \<Longrightarrow> y = Inl e \<Longrightarrow> x = Inl e"
  by (cases x; simp)+

lemma map_sum_InrD: "map_sum f g x = Inr y \<Longrightarrow> \<exists>b. x = Inr b \<and> g b = y"
  by (cases x) simp_all

lemma drop_refines:
  assumes r: "mgr_repr k st m" and i: "i < n" "n \<le> length (m_conns m)" "length (m_conns m) \<le> Suc n"
    and e: "dpl_get_element_at_index (conns st) (connections_to_server st) (int i) = Inr e"
  shows "agree (mgr_repr k) (drop_sensor msg env (int n) i e st) (spec_drop msg env n i m)"
proof -
  obtain ns cs ps where st: "conn_inv st ns cs ps" "m_conns m = map abs_conn cs"
      "m_size m = length (fd (server st))" "m_last m = srv_last_record (server st)"
      "m_data m = to_sbuffer st" "m_msgs m = fifo_msgs st" "recv_file st = map recv_line (m_data m)"
      "k \<le> budget (net_heap (cnet st))" "k \<le> budget (conns st)"
    using r by (elim mgr_reprE)
  have c: "n \<le> length cs" "length cs \<le> Suc n" "i < length cs" using i st(2) by simp_all
  have e': "e = snd (ns ! i)" using e conn_inv_element(4) [OF st(1) c(3)] by simp
  have lt: "length cs < m_size m" using conn_invD(6) [OF st(1)] st(3) by simp
  show ?thesis
  proof (cases "m_size m = Suc n")
    case True
    then have "length cs = n" using lt c(1) by simp
    then show ?thesis using drop_sensor_out [OF st(1) c(3), of msg env] True st(3) e'
      by (simp add: spec_drop_def)
  next
    case False
    then have "Suc n < length (fd (server st))" using lt c(1) st(3) by simp
    from drop_sensor_ok [OF st(1) i(1) c(1,2) this, of msg env] obtain st' where
      st': "drop_sensor msg env (int n) i e st = Inr st'"
        "conn_inv st' (remove_nth i ns) (remove_nth i cs) (remove_nth (Suc i) ps)"
        "length (fd (server st')) = length (fd (server st))"
        "fifo_msgs st' = fifo_msgs st @ [msg (ss_id (cs ! i))]" "srv_last_record (server st') = env_close_time env"
        "to_sbuffer st' = to_sbuffer st" "recv_file st' = recv_file st"
        "budget (net_heap (cnet st')) = budget (net_heap (cnet st))" "budget (conns st') = budget (conns st)"
      unfolding e' by auto
    let ?m = "m\<lparr>m_conns := remove_nth i (m_conns m), m_last := env_close_time env,
        m_msgs := m_msgs m @ [msg (c_id (m_conns m ! i))]\<rparr>"
    have "mgr_repr k st' ?m"
      using st st' c(3) by (intro mgr_reprI [OF st'(2)]) (simp_all add: map_remove_nth)
    then show ?thesis using st'(1) False by (simp add: spec_drop_def)
  qed
qed

lemma serve_refines:
  "mgr_repr b st m \<Longrightarrow> i + k = n \<Longrightarrow> n \<le> length (m_conns m) \<Longrightarrow> length (m_conns m) \<le> Suc n \<Longrightarrow>
   \<forall>j < n. revents (fd (server st) ! Suc j) = env_revents env (Suc j) \<Longrightarrow>
   agree (mgr_repr b) (serve_loop k env (int n) i st) (spec_serve k env n i m)"
proof (induction k arbitrary: i st m)
  case (Suc k)
  have i: "i < n" "i < length (m_conns m)" using Suc.prems by simp_all
  obtain e c where e: "dpl_get_element_at_index (conns st) (connections_to_server st) (int i) = Inr e"
    using mgr_repr_element [OF Suc.prems(1) i(2)] by blast
  have "Suc i < length (fd (server st))"
    using mgr_repr_length [OF Suc.prems(1)] i(2) Suc.prems(1) by (elim mgr_reprE) simp
  then obtain p where p: "fd_get (fd (server st)) (int i + 1) = Inr p" "revents p = env_revents env (Suc i)"
    using Suc.prems(5) i(1) by (simp add: fd_get_def nat_add_distrib)
  let ?m1 = "if ready env (Suc i) then spec_read env i m else m"
  obtain st1 where st1: "(if ready env (Suc i) then read_sensor_data env i e st else Inr st) = Inr st1"
      "mgr_repr b st1 ?m1" "fd (server st1) = fd (server st)"
      "dpl_get_element_at_index (conns st1) (connections_to_server st1) (int i) = Inr e"
    using read_refines [OF Suc.prems(1) i(2) _ e, of env] Suc.prems(1) e by (cases "ready env (Suc i)") auto
  have m1: "length (m_conns ?m1) = length (m_conns m)" by simp
  obtain c where c: "read_conn (conns st1) e = Inr c" "m_conns ?m1 ! i = abs_conn c"
    using mgr_repr_element [OF st1(2)] st1(4) i(2) m1 by (metis sum.inject(2))
  have drop: "agree (mgr_repr b) (drop_sensor msg env (int n) i e st1) (spec_drop msg env n i ?m1)" for msg
    using drop_refines [OF st1(2) i(1) _ _ st1(4)] Suc.prems(3,4) m1 by simp
  have loop: "agree (mgr_repr b) (serve_loop k env (int n) (Suc i) st1) (spec_serve k env n (Suc i) ?m1)"
    using Suc.IH [OF st1(2), of "Suc i"] Suc.prems st1(3) m1 by simp
  have code: "serve_loop (Suc k) env (int n) i st =
      (if hung_up env (Suc i) then drop_sensor closed_msg env (int n) i e st1
       else if later (env_timeout_time env i) (ss_last_record c)
       then drop_sensor timeout_msg env (int n) i e st1
       else serve_loop k env (int n) (Suc i) st1)"
    using st1(1) c(1) by (simp add: e p hung_up_def ready_def)
  have "spec_serve (Suc k) env n i m =
      (if hung_up env (Suc i) then spec_drop closed_msg env n i ?m1
       else if later (env_timeout_time env i) (ss_last_record c)
       then spec_drop timeout_msg env n i ?m1
       else spec_serve k env n (Suc i) ?m1)"
    unfolding spec_serve.simps Let_def c(2) abs_conn_simps ..
  with code show ?case using drop [of closed_msg] drop [of timeout_msg] loop by auto
qed auto

section \<open>A round\<close>

text \<open>The calls of \<open>accept\<close> and of \<open>realloc\<close> that a round makes succeed.\<close>

definition accepts :: "round_env \<Rightarrow> bool" where
  "accepts env \<longleftrightarrow> (ready env 0 \<longrightarrow> 0 \<le> ac_accept (env_accept env)) \<and> env_realloc env"

lemma poll_revents:
  assumes "n \<le> int (length a)" and "poll answer n a = Inr a'" and "int j < n"
  shows "revents (a' ! j) = answer j"
  using assms by (auto simp: poll_def split: if_splits)

lemma mgr_repr_poll:
  assumes r: "mgr_repr k st m"
  shows "\<exists>a. poll (env_revents env) (int (length (m_conns m)) + 1) (fd (server st)) = Inr a \<and>
     mgr_repr k (set_fd a st) m \<and> (\<forall>j \<le> length (m_conns m). revents (a ! j) = env_revents env j)"
proof -
  obtain ns cs ps where st: "conn_inv st ns cs ps" "m_conns m = map abs_conn cs"
      "m_size m = length (fd (server st))" "m_last m = srv_last_record (server st)"
      "m_data m = to_sbuffer st" "m_msgs m = fifo_msgs st" "recv_file st = map recv_line (m_data m)"
      "k \<le> budget (net_heap (cnet st))" "k \<le> budget (conns st)"
    using r by (elim mgr_reprE)
  have le: "int (length (m_conns m)) + 1 \<le> int (length (fd (server st)))"
    using mgr_repr_length [OF r] st(3) by simp
  from poll_ok [OF this, of "env_revents env"] obtain a where
    a: "poll (env_revents env) (int (length (m_conns m)) + 1) (fd (server st)) = Inr a"
      "length a = length (fd (server st))" "map pfd a = map pfd (fd (server st))" by blast
  have "conn_inv (set_fd a st) ns cs ps" using st(1) a(2,3) by (simp add: conn_inv_def set_fd_def)
  then have "mgr_repr k (set_fd a st) m"
    using st a(2) by (intro mgr_reprI) (simp_all add: set_fd_def)
  then show ?thesis using a(1) poll_revents [OF le a(1)] by auto
qed

lemma resize_refines:
  assumes r: "mgr_repr k st m" and st': "st' = st\<lparr>server := resize_fd raw (int (length (m_conns m))) (server st)\<rparr>"
  shows "mgr_repr k st' (spec_resize m)"
    and "\<forall>j \<le> length (m_conns m). fd (server st') ! j = fd (server st) ! j"
proof -
  obtain ns cs ps where st: "conn_inv st ns cs ps" "m_conns m = map abs_conn cs"
      "m_size m = length (fd (server st))" "m_last m = srv_last_record (server st)"
      "m_data m = to_sbuffer st" "m_msgs m = fifo_msgs st" "recv_file st = map recv_line (m_data m)"
      "k \<le> budget (net_heap (cnet st))" "k \<le> budget (conns st)"
    using r by (elim mgr_reprE)
  let ?n = "length (m_conns m)" and ?srv = "resize_fd raw (int (length (m_conns m))) (server st)"
  have n: "?n = length cs" using st(2) by simp
  note d = conn_invD [OF st(1)]
  note rs = resize_fd_ok [OF d(7), of ?n raw]
  have lt: "?n < length (fd (server st))" using d(6) n by simp
  have tk: "take (Suc ?n) (fd ?srv) = take (Suc ?n) (fd (server st))" using rs lt by simp
  then have "take (Suc ?n) (map pfd (fd ?srv)) = take (Suc ?n) (map pfd (fd (server st)))"
    by (simp only: take_map)
  then have inv: "conn_inv st' ns cs ps"
    using st(1) rs lt d(2,8) n by (simp add: conn_inv_def st')
  have "length (fd ?srv) = m_size (spec_resize m)"
    using d(7) lt st(3)
    by (auto simp: resize_fd_def Let_def spec_resize_def DECREASE_SIZE_def nat_mult_distrib)
  then show "mgr_repr k st' (spec_resize m)"
    using st rs lt by (intro mgr_reprI [OF inv]) (simp_all add: st' spec_resize_def Let_def)
  show "\<forall>j \<le> ?n. fd (server st') ! j = fd (server st) ! j"
  proof (intro allI impI)
    fix j assume "j \<le> ?n"
    then have "fd ?srv ! j = take (Suc ?n) (fd ?srv) ! j" "fd (server st) ! j = take (Suc ?n) (fd (server st)) ! j"
      by simp_all
    then show "fd (server st') ! j = fd (server st) ! j" unfolding tk by (simp add: st')
  qed
qed

lemma accept_out:
  assumes inv: "conn_inv st ns cs ps" and full: "length (fd (server st)) = Suc (length cs)"
    and os: "0 \<le> ac_accept (env_accept env)" and b: "2 \<le> budget (net_heap (cnet st))"
  shows "accept_sensor env (int (length cs)) st = Inl OutOfBounds"
proof -
  obtain n1 where n1: "tcp_wait_for_connection (env_accept env) (srv_socket (server st)) (cnet st) =
        Inr (TCP_NO_ERROR, Some (next_addr (net_heap (cnet st))), n1)"
      "bound n1 (next_addr (net_heap (cnet st))) \<lparr>cookie = MAGIC_COOKIE, sd = ac_accept (env_accept env),
         ip_addr = Suc (next_addr (net_heap (cnet st))), port = uint (ac_port (env_accept env))\<rparr>"
    using wait_for_connection_ok [OF conn_inv_bound(1) [OF inv] b os] by blast
  obtain x where x: "cells (conns st) (new_sensor st) = Some (Obj x)" using inv by (auto simp: conn_inv_def)
  have ok: "heap_ok (conns st)" by (rule elem_list_ok [OF conn_invD(1) [OF inv]])
  have "read_conn (written (new_sensor st) (Obj (x\<lparr>ss_socket := next_addr (net_heap (cnet st))\<rparr>)) (conns st)) (new_sensor st)
      = Inr (x\<lparr>ss_socket := next_addr (net_heap (cnet st))\<rparr>)"
    using ok x by (intro read_conn_ok) simp_all
  then show ?thesis
    using n1 upd_conn_ok [OF x ok] bound_query [OF n1(2), of sd] full
    by (simp add: accept_sensor_def tcp_get_sd_def fd_upd_def)
qed

lemma accept_refines:
  assumes r: "mgr_repr (k + 2) st m" and os: "0 \<le> ac_accept (env_accept env)"
  shows "agree (\<lambda>st' m'. mgr_repr k st' m' \<and> map revents (fd (server st')) = map revents (fd (server st)))
    (accept_sensor env (int (length (m_conns m))) st) (spec_accept env m)"
proof -
  obtain ns cs ps where st: "conn_inv st ns cs ps" "m_conns m = map abs_conn cs"
      "m_size m = length (fd (server st))" "m_last m = srv_last_record (server st)"
      "m_data m = to_sbuffer st" "m_msgs m = fifo_msgs st" "recv_file st = map recv_line (m_data m)"
      "k + 2 \<le> budget (net_heap (cnet st))" "k + 2 \<le> budget (conns st)"
    using r by (elim mgr_reprE)
  have n: "length (m_conns m) = length cs" using st(2) by simp
  have b: "2 \<le> budget (net_heap (cnet st))" "2 \<le> budget (conns st)" using st(8,9) by simp_all
  show ?thesis
  proof (cases "m_size m = Suc (length cs)")
    case True
    then show ?thesis using accept_out [OF st(1) _ os b(1)] st(3) n by (simp add: spec_accept_def)
  next
    case False
    then have room: "Suc (length cs) < length (fd (server st))"
      using conn_invD(6) [OF st(1)] st(3) by simp
    from accept_sensor_ok [OF st(1) room os b] obtain st' ns' p s where
      st': "accept_sensor env (int (length cs)) st = Inr st'"
        "conn_inv st' ns' (cs @ [\<lparr>ss_id = FIRST_SENSOR_ID, ss_socket = p, ss_last_record = env_accept_time env\<rparr>])
           (ps @ [(p, s)])"
        "map revents (fd (server st')) = map revents (fd (server st))"
        "srv_last_record (server st') = srv_last_record (server st)"
        "to_sbuffer st' = to_sbuffer st" "recv_file st' = recv_file st" "fifo_msgs st' = fifo_msgs st"
        "budget (net_heap (cnet st')) = budget (net_heap (cnet st)) - 2" "budget (conns st') = budget (conns st) - 2"
      by blast
    have "length (fd (server st')) = length (fd (server st))" using st'(3) by (metis length_map)
    then have "mgr_repr k st' (m\<lparr>m_conns := m_conns m @ [\<lparr>c_id = FIRST_SENSOR_ID, c_last = env_accept_time env\<rparr>]\<rparr>)"
      using st st' by (intro mgr_reprI [OF st'(2)]) (simp_all add: abs_conn_def)
    then show ?thesis using st'(1,3) False n by (simp add: spec_accept_def)
  qed
qed

text \<open>What can be seen of a manager from outside.\<close>

definition same_output :: "conn_state \<Rightarrow> manager \<Rightarrow> bool" where
  "same_output st m \<longleftrightarrow> to_sbuffer st = m_data m \<and> fifo_msgs st = m_msgs m \<and>
     recv_file st = map recv_line (m_data m)"

lemma mgr_repr_output: "mgr_repr k st m \<Longrightarrow> same_output st m"
  by (elim mgr_reprE) (simp add: same_output_def)

lemma mgr_repr_open: "mgr_repr k st m \<Longrightarrow> recv_open st"
  by (elim mgr_reprE) (simp add: conn_invD(10))

definition round_rel :: "nat \<Rightarrow> bool \<times> conn_state \<Rightarrow> bool \<times> manager \<Rightarrow> bool" where
  "round_rel k r s \<longleftrightarrow> fst r = fst s \<and> same_output (snd r) (snd s) \<and> recv_open (snd r) \<and> (fst r \<longrightarrow> mgr_repr k (snd r) (snd s))"

lemma stop_refines:
  assumes "mgr_repr k st m"
  shows "\<exists>st'. stop_server env st = Inr st' \<and> same_output st' m \<and> recv_open st'"
proof -
  obtain ns cs ps where inv: "conn_inv st ns cs ps" using assms by (elim mgr_reprE)
  obtain n1 where "tcp_close (env_shutdown env) (env_close env) (srv_socket (server st)) (cnet st) = Inr (TCP_NO_ERROR, 0, n1)"
    using close_bound [OF conn_inv_bound(1) [OF inv]] by blast
  then show ?thesis
    using elem_list_free [OF conn_invD(1) [OF inv], of conn_callbacks] mgr_repr_output [OF assms] mgr_repr_open [OF assms]
    by (auto simp: stop_server_def connmgr_free_def same_output_def)
qed

theorem round_refines:
  assumes r: "mgr_repr (k + 2) st m" and acc: "ready env 0 \<longrightarrow> 0 \<le> ac_accept (env_accept env)"
    and re: "env_realloc env \<or> \<not> resizes (int (length (m_conns m))) (server st)"
  shows "agree (round_rel k) (manage_round env st) (spec_round env m)"
proof -
  let ?n = "length (m_conns m)"
  obtain ns cs ps where cs: "conn_inv st ns cs ps" "m_conns m = map abs_conn cs" using r by (elim mgr_reprE)
  have size: "dpl_size (conns st) (connections_to_server st) = Inr (int ?n)"
    using elem_list_size [OF conn_invD(1) [OF cs(1)]] cs(2) by simp
  obtain a where a: "poll (env_revents env) (int ?n + 1) (fd (server st)) = Inr a"
      "mgr_repr (k + 2) (set_fd a st) m" "\<forall>j \<le> ?n. revents (a ! j) = env_revents env j"
    using mgr_repr_poll [OF r] by blast
  let ?st2 = "(set_fd a st)\<lparr>server := resize_fd (env_raw_fd env) (int ?n) (server (set_fd a st))\<rparr>"
    and ?m2 = "spec_resize m"
  have r2: "mgr_repr (k + 2) ?st2 ?m2" by (rule resize_refines(1) [OF a(2) refl])
  have rev2: "revents (fd (server ?st2) ! j) = env_revents env j" if "j \<le> ?n" for j
    using resize_refines(2) [OF a(2) refl, of "env_raw_fd env"] a(3) that by (simp add: set_fd_def)
  have m2: "m_conns ?m2 = m_conns m" by (simp add: spec_resize_def Let_def)
  have "0 < length (fd (server ?st2))" using mgr_repr_length [OF r2] mgr_repr_size [OF r2] by linarith
  then obtain p0 where p0: "fd_get (fd (server ?st2)) 0 = Inr p0" "revents p0 = env_revents env 0"
    using rev2 [of 0] by (simp add: fd_get_def)
  have re': "(if resizes (int ?n) (server (set_fd a st)) \<and> \<not> env_realloc env then Inl NullDeref else x) = x" for x
    using re by (auto simp: resizes_def set_fd_def)
  let ?R = "\<lambda>st' m'. mgr_repr k st' m' \<and> map revents (fd (server st')) = map revents (fd (server ?st2)) \<and>
      ?n \<le> length (m_conns m') \<and> length (m_conns m') \<le> Suc ?n"
  have accept: "agree ?R (if ready env 0 then accept_sensor env (int ?n) ?st2 else Inr ?st2)
      (if ready env 0 then spec_accept env ?m2 else Inr ?m2)"
  proof (cases "ready env 0")
    case True
    then have "0 \<le> ac_accept (env_accept env)" using acc by simp
    from accept_refines [OF r2 this] True show ?thesis unfolding m2
      by (auto simp: spec_accept_def m2 elim!: rel_sum.cases split: if_splits)
  next
    case False
    have "mgr_repr k ?st2 ?m2" using r2 by (simp add: mgr_repr_def)
    then show ?thesis using False m2 by simp
  qed
  show ?thesis
    unfolding manage_round_def size a(1) bindE_Inr Let_def spec_round_def re' p0(1) has_flag_def p0(2)
      ready_def [unfolded has_flag_def, symmetric]
  proof (rule agree_bind [OF accept])
    fix st3 m3 assume R: "?R st3 m3"
    then have r3: "mgr_repr k st3 m3" by simp
    have last: "m_last m3 = srv_last_record (server st3)" using r3 by (elim mgr_reprE)
    have lt: "\<forall>j < ?n. Suc j < length (fd (server ?st2))"
      using mgr_repr_length [OF r2] m2 mgr_repr_size [OF r2] by simp
    have "\<forall>j < ?n. revents (fd (server st3) ! Suc j) = env_revents env (Suc j)"
    proof (intro allI impI)
      fix j assume j: "j < ?n"
      have "revents (fd (server st3) ! Suc j) = map revents (fd (server ?st2)) ! Suc j"
        using R lt j by (metis length_map nth_map)
      also have "\<dots> = env_revents env (Suc j)" using lt j rev2 [of "Suc j"] by simp
      finally show "revents (fd (server st3) ! Suc j) = env_revents env (Suc j)" .
    qed
    then have serve: "agree (mgr_repr k) (serve_loop ?n env (int ?n) 0 st3) (spec_serve ?n env ?n 0 m3)"
      using R by (intro serve_refines [OF r3]) simp_all
    have go: "agree (round_rel k) (bindE (serve_loop ?n env (int ?n) 0 st3) (\<lambda>st4. Inr (True, st4)))
        (bindE (spec_serve ?n env ?n 0 m3) (\<lambda>m4. Inr (True, m4)))"
      by (rule agree_bind [OF serve]) (simp add: round_rel_def mgr_repr_output mgr_repr_open)
    obtain st4 where "stop_server env st3 = Inr st4" "same_output st4 m3" "recv_open st4" using stop_refines [OF r3] by blast
    then have stop: "agree (round_rel k) (bindE (stop_server env st3) (\<lambda>st4. Inr (False, st4))) (Inr (False, m3))"
      by (simp add: round_rel_def)
    show "agree (round_rel k)
        (if int ?n = 0 \<and> later (env_idle_time env) (srv_last_record (server st3))
         then bindE (stop_server env st3) (\<lambda>st4. Inr (False, st4))
         else bindE (serve_loop (nat (int ?n)) env (int ?n) 0 st3) (\<lambda>st4. Inr (True, st4)))
        (if ?n = 0 \<and> later (env_idle_time env) (m_last m3) then Inr (False, m3)
         else bindE (spec_serve ?n env ?n 0 m3) (\<lambda>m4. Inr (True, m4)))"
      using go stop last by simp
  qed
qed

section \<open>All the rounds\<close>

text \<open>When the rounds are used up before the loop ends, the state is one at the begin of a round.\<close>

definition run_rel :: "bool \<times> conn_state \<Rightarrow> bool \<times> manager \<Rightarrow> bool" where
  "run_rel r s \<longleftrightarrow> fst r = fst s \<and> same_output (snd r) (snd s) \<and> (\<not> fst r \<longrightarrow> mgr_repr 0 (snd r) (snd s))"

lemma run_rel_ended: "run_rel (True, st) (True, m) \<longleftrightarrow> same_output st m"
  by (simp add: run_rel_def)

theorem rounds_refine:
  "mgr_repr (2 * length rounds) st m \<Longrightarrow> \<forall>r \<in> set rounds. accepts (snd r) \<Longrightarrow>
   agree run_rel (manage_rounds rounds st) (spec_rounds rounds m)"
proof (induction rounds arbitrary: st m)
  case Nil
  then show ?case by (simp add: run_rel_def mgr_repr_output)
next
  case (Cons r rounds)
  obtain flag env where r: "r = (flag, env)" by fastforce
  have "mgr_repr (2 * length rounds + 2) st m" "ready env 0 \<longrightarrow> 0 \<le> ac_accept (env_accept env)"
      "env_realloc env \<or> \<not> resizes (int (length (m_conns m))) (server st)"
    using Cons.prems r by (simp_all add: accepts_def)
  from round_refines [OF this] have
    "agree run_rel
       (bindE (manage_round env st) (\<lambda>(go, st1). if go then manage_rounds rounds st1 else close_recv st1))
       (bindE (spec_round env m) (\<lambda>(go, m1). if go then spec_rounds rounds m1 else Inr (True, m1)))"
    by (rule agree_bind) (use Cons in \<open>auto simp: round_rel_def run_rel_ended close_recv_def\<close>)
  then show ?case using mgr_repr_output [OF Cons.prems(1)] mgr_repr_open [OF Cons.prems(1)] r
    by (simp add: run_rel_ended close_recv_def)
qed

end
