(* ===== verification/Connmgr_Claims.thy ===== *)
theory Connmgr_Claims
  imports Connmgr_Refine
begin

text \<open>
  The properties of connmgr.c, each with an application to a server on port 3756 that has just
  been started, or to a run of it.
\<close>

section \<open>The start\<close>

lemma start_connections_ok:
  assumes ok: "heap_ok h" "0 < budget h" and b: "bound n (srv_socket srv) s"
    and c: "conn_size srv = int (length (fd srv))" "fd srv \<noteq> []" "pfd (hd (fd srv)) = sd s"
  shows "\<exists>st. start_connections True raw srv n h = Inr st \<and> conn_inv st [] [] [(srv_socket srv, s)] \<and>
     server st = srv \<and> cnet st = n \<and> budget (conns st) = budget h - 1 \<and>
     to_sbuffer st = [] \<and> fifo_msgs st = [] \<and> recv_file st = [] \<and>
     cells (conns st) (new_sensor st) = Some (Obj raw)"
proof -
  obtain h1 where h1: "dpl_create h = Inr (next_addr h, h1)" "dlist h1 (next_addr h) []"
      "next_addr h1 = Suc (next_addr h)" "budget h1 = budget h - 1"
    using dpl_create_ok [OF ok] by auto
  have ok1: "heap_ok h1" by (rule dlist_ok [OF h1(2)])
  let ?v = "next_addr h1"
  let ?h2 = "h1\<lparr>next_addr := Suc ?v, cells := (cells h1)(?v \<mapsto> Obj raw)\<rparr>"
  have ok2: "heap_ok ?h2" using ok1 by (auto simp: heap_ok_def less_Suc_eq)
  have "elem_list (\<lambda>c. c) ?h2 (next_addr h) [] []"
    by (rule elem_list_empty, rule dlist_cong [OF h1(2) ok2]) (use h1(3) in simp)
  moreover have "take 1 (map pfd (fd srv)) = [sd s]" using c(2,3) by (cases "fd srv") auto
  ultimately show ?thesis
    using h1(1,4) b c(1,2)
    by (simp add: start_connections_def local_var_def conn_inv_def socks_ok_def bound_def sock_foot_def)
qed

lemma server_create_ok:
  assumes ok: "heap_ok (net_heap n)" "0 < budget (net_heap n)"
    and port: "1024 \<le> prt" "prt \<le> 65536"
    and os: "0 \<le> pa_socket os" "pa_bind os (word_of_int prt) = 0" "pa_listen os = 0"
  shows "\<exists>srv n1 s. server_create os now raw prt n = Inr (srv, n1) \<and> bound n1 (srv_socket srv) s \<and>
     sd s = pa_socket os \<and> conn_size srv = 4 \<and> length (fd srv) = 4 \<and> pfd (hd (fd srv)) = sd s \<and>
     srv_last_record srv = now \<and> open_sds n1 = pa_socket os # open_sds n \<and>
     budget (net_heap n1) = budget (net_heap n) - 1"
proof -
  let ?p = "next_addr (net_heap n)"
  let ?s = "\<lparr>cookie = MAGIC_COOKIE, sd = pa_socket os, ip_addr = 0, port = prt\<rparr>"
  obtain n1 where n1: "tcp_passive_open os prt n = Inr (TCP_NO_ERROR, Some ?p, n1)" "bound n1 ?p ?s"
      "open_sds n1 = pa_socket os # open_sds n" "budget (net_heap n1) = budget (net_heap n) - 1"
    using passive_open_ok [OF ok _ _ os] port by (auto simp: MIN_PORT_def MAX_PORT_def)
  have "tcp_get_sd ?p n1 = Inr (TCP_NO_ERROR, Some (pa_socket os))"
    using bound_query [OF n1(2), of sd] by (simp add: tcp_get_sd_def)
  then show ?thesis using n1
    by (simp add: server_create_def BEGINING_SIZE_def fd_upd_def eval_nat_numeral)
      (rule exI [of _ ?s], simp)
qed

text \<open>When the system calls succeed, the start of the connection manager establishes its
  invariant: no connections, an array of four elements whose first one holds the descriptor of the
  listening socket, which is the only descriptor that has been opened.\<close>

theorem connmgr_start_ok:
  assumes "heap_ok (net_heap n)" and "0 < budget (net_heap n)" and "heap_ok h" and "0 < budget h"
    and "1024 \<le> prt" and "prt \<le> 65536"
    and "0 \<le> pa_socket os" and "pa_bind os (word_of_int prt) = 0" and "pa_listen os = 0"
  shows "\<exists>srv n1 st ps. server_create os now raw prt n = Inr (srv, n1) \<and>
     start_connections True raw_local srv n1 h = Inr st \<and> conn_inv st [] [] ps \<and>
     conn_size (server st) = 4 \<and> pfd (fd (server st) ! 0) = pa_socket os \<and>
     open_sds (cnet st) = pa_socket os # open_sds n"
proof -
  obtain srv n1 s where s: "server_create os now raw prt n = Inr (srv, n1)" "bound n1 (srv_socket srv) s"
      "sd s = pa_socket os" "conn_size srv = 4" "length (fd srv) = 4" "pfd (hd (fd srv)) = sd s"
      "open_sds n1 = pa_socket os # open_sds n"
    using server_create_ok [OF assms(1,2,5-9), of now raw] by blast
  have "conn_size srv = int (length (fd srv))" "fd srv \<noteq> []" using s(4,5) by auto
  from start_connections_ok [OF assms(3,4) s(2) this s(6), of raw_local] obtain st where
    st: "start_connections True raw_local srv n1 h = Inr st" "conn_inv st [] [] [(srv_socket srv, s)]"
      "server st = srv" "cnet st = n1" by blast
  have "fd srv ! 0 = hd (fd srv)" using s(5) by (cases "fd srv") simp_all
  then have "conn_size (server st) = 4" "pfd (fd (server st) ! 0) = pa_socket os"
      "open_sds (cnet st) = pa_socket os # open_sds n"
    using st(3,4) s(3,4,6,7) by simp_all
  then show ?thesis using s(1) st(1,2) by blast
qed

section \<open>The values of the examples\<close>

definition os_fine :: passive_answers where
  "os_fine = \<lparr>pa_socket = 3, pa_bind = (\<lambda>_. 0), pa_listen = 0\<rparr>"

definition raw_poll :: poll_d where
  "raw_poll = \<lparr>pfd = 0, events = 0, revents = 0\<rparr>"

definition net0 :: net where
  "net0 = \<lparr>net_heap = empty_heap 100, open_sds = []\<rparr>"

text \<open>A round in which nothing happens, and one with a request on the server's socket.\<close>

definition quiet_env :: round_env where
  "quiet_env = \<lparr>env_revents = (\<lambda>_. 0), env_realloc = True, env_raw_fd = raw_poll,
     env_accept = \<lparr>ac_accept = -1, ac_addr = 0, ac_port = 0\<rparr>, env_accept_time = 0, env_idle_time = 0,
     env_recv = (\<lambda>_ _. \<lparr>ra_bytes = None, ra_errno = 0\<rparr>),
     env_local = (\<lambda>_. (replicate 2 0, replicate 8 0, replicate 8 0)),
     env_timeout_time = (\<lambda>_. 0), env_close_time = 0, env_shutdown = 0, env_close = 0\<rparr>"

definition request_env :: "int \<Rightarrow> round_env" where
  "request_env d = quiet_env\<lparr>env_revents := (\<lambda>i. if i = 0 then POLLIN else 0),
     env_accept := \<lparr>ac_accept = d, ac_addr = 0x7F000001, ac_port = 4000\<rparr>\<rparr>"

lemma net0_simps [simp]: "heap_ok (net_heap net0)" "budget (net_heap net0) = 100" "open_sds net0 = []"
  by (simp_all add: net0_def empty_heap_def [of 100] heap_ok_def)

lemma os_fine_simps [simp]: "pa_socket os_fine = 3" "pa_bind os_fine p = 0" "pa_listen os_fine = 0"
  by (simp_all add: os_fine_def)

lemma budget_empty [simp]: "budget (empty_heap n) = n"
  by (simp add: empty_heap_def)

lemma connmgr_start_ok_witness:
  "\<exists>srv n1 st ps. server_create os_fine 0 raw_poll 3756 net0 = Inr (srv, n1) \<and>
     start_connections True raw_conn srv n1 (empty_heap 100) = Inr st \<and> conn_inv st [] [] ps \<and>
     conn_size (server st) = 4 \<and> pfd (fd (server st) ! 0) = 3 \<and> open_sds (cnet st) = [3]"
  using connmgr_start_ok [of net0 "empty_heap 100" 3756 os_fine 0 raw_poll raw_conn] by simp

section \<open>Whole runs\<close>

lemma started_repr:
  assumes inv: "conn_inv st [] [] ps" and "length (fd (server st)) = 4" "srv_last_record (server st) = now"
    and "to_sbuffer st = []" "fifo_msgs st = []" "recv_file st = []"
    and "k \<le> budget (net_heap (cnet st))" "k \<le> budget (conns st)"
  shows "mgr_repr k st (new_manager now)"
  using assms by (intro mgr_reprI [OF inv]) (simp_all add: new_manager_def BEGINING_SIZE_def)

lemma connmgr_refined:
  assumes "heap_ok (net_heap n)" and "2 * length rounds < budget (net_heap n)"
    and "heap_ok h" and "2 * length rounds < budget h"
    and "1024 \<le> prt" and "prt \<le> 65536"
    and "0 \<le> pa_socket os" and "pa_bind os (word_of_int prt) = 0" and "pa_listen os = 0"
    and "\<forall>r \<in> set rounds. accepts (snd r)"
  shows "agree run_rel
     (connmgr_listen True True os now raw raw_local prt n h rounds) (spec_rounds rounds (new_manager now))"
proof -
  have b: "0 < budget (net_heap n)" "0 < budget h" using assms(2,4) by simp_all
  obtain srv n1 s where s: "server_create os now raw prt n = Inr (srv, n1)" "bound n1 (srv_socket srv) s"
      "conn_size srv = 4" "length (fd srv) = 4" "pfd (hd (fd srv)) = sd s" "srv_last_record srv = now"
      "budget (net_heap n1) = budget (net_heap n) - 1"
    using server_create_ok [OF assms(1) b(1) assms(5-9), of now raw] by blast
  have "conn_size srv = int (length (fd srv))" "fd srv \<noteq> []" using s(3,4) by auto
  from start_connections_ok [OF assms(3) b(2) s(2) this s(5), of raw_local] obtain st where
    st: "start_connections True raw_local srv n1 h = Inr st" "conn_inv st [] [] [(srv_socket srv, s)]"
      "server st = srv" "cnet st = n1" "budget (conns st) = budget h - 1"
      "to_sbuffer st = []" "fifo_msgs st = []" "recv_file st = []" by blast
  have "mgr_repr (2 * length rounds) st (new_manager now)"
    using started_repr [OF st(2)] st s assms(2,4) by simp
  from rounds_refine [OF this assms(10)] show ?thesis
    using s(1) st(1) by (simp add: connmgr_listen_def)
qed


text \<open>
  A sensor connects, sends a measurement and hangs up. The eight bytes of the value are those
  of \<open>20.0\<close>.
\<close>

definition sends :: "8 word list list \<Rightarrow> nat \<Rightarrow> recv_answer" where
  "sends bs k = \<lparr>ra_bytes = Some (bs ! k), ra_errno = 0\<rparr>"

definition data_env :: round_env where
  "data_env = quiet_env\<lparr>env_revents := (\<lambda>i. if i = 1 then POLLIN else 0),
     env_recv := (\<lambda>_. sends [[15, 0], [0, 0, 0, 0, 0, 0, 0x34, 0x40], [100, 0, 0, 0, 0, 0, 0, 0]])\<rparr>"

definition hangup_env :: round_env where
  "hangup_env = quiet_env\<lparr>env_revents := (\<lambda>i. if i = 1 then POLLRDHUP else 0)\<rparr>"

definition one_sensor_rounds :: "(int \<times> round_env) list" where
  "one_sensor_rounds = [(1, request_env 4), (1, data_env), (1, hangup_env), (0, quiet_env)]"

lemma accepts_examples [simp]: "accepts quiet_env" "accepts data_env" "accepts hangup_env"
  "0 \<le> d \<Longrightarrow> accepts (request_env d)"
  by (simp_all add: accepts_def ready_def has_flag_def quiet_env_def data_env_def hangup_env_def request_env_def)


lemma le_word_examples:
  "le_word [15, 0] = 15" "le_word [0, 0, 0, 0, 0, 0, 0x34, 0x40] = 0x4034000000000000"
  "le_word [100, 0, 0, 0, 0, 0, 0, 0] = 100"
  by code_simp+

lemma filled_examples:
  "env_local data_env i = (replicate 2 0, replicate 8 0, replicate 8 0)"
  "filled (env_recv data_env i 0) (replicate 2 0) = [15, 0]"
  "filled (env_recv data_env i 1) (replicate 8 0) = [0, 0, 0, 0, 0, 0, 0x34, 0x40]"
  "filled (env_recv data_env i 2) (replicate 8 0) = [100, 0, 0, 0, 0, 0, 0, 0]"
  by (simp_all add: data_env_def quiet_env_def filled_def sends_def numeral_2_eq_2)

lemma received_example: "received data_env i = \<lparr>data_id = 15, data_value = Fin 20, data_ts = 100\<rparr>"
  unfolding received_def filled_examples prod.case le_word_examples double_of_bits_20 by simp

lemma has_flag_examples:
  "has_flag POLLIN POLLIN" "has_flag POLLRDHUP POLLRDHUP" "\<not> has_flag POLLIN POLLRDHUP"
  "\<not> has_flag POLLRDHUP POLLIN" "\<not> has_flag 0 f"
  by code_simp+

lemma flags_examples [simp]:
  "ready quiet_env i = False" "hung_up quiet_env i = False"
  "ready data_env i = (i = 1)" "hung_up data_env i = False"
  "ready hangup_env i = False" "hung_up hangup_env i = (i = 1)"
  "ready (request_env d) i = (i = 0)" "hung_up (request_env d) i = False"
  "got_data data_env i"
  by (simp_all add: ready_def hung_up_def quiet_env_def data_env_def hangup_env_def request_env_def
      has_flag_examples got_data_def ra_count_def sends_def numeral_2_eq_2)

lemma times_examples [simp]:
  "env_idle_time (request_env d) = 0" "env_timeout_time data_env i = 0" "\<not> later 0 0" "\<not> later 0 100"
  by (simp_all add: quiet_env_def data_env_def request_env_def later_def TIMEOUT_def)

lemma spec_one_sensor:
  "map_sum id (\<lambda>(e, m). (e, m_data m, m_msgs m)) (spec_rounds one_sensor_rounds (new_manager 0)) =
      Inr (True, [\<lparr>data_id = 15, data_value = Fin 20, data_ts = 100\<rparr>], [opened_msg 15, closed_msg 15])"
  by (simp add: one_sensor_rounds_def new_manager_def spec_round_def spec_accept_def spec_resize_def Let_def
   spec_read_def read_conn_spec_def received_example BEGINING_SIZE_def spec_drop_def eval_nat_numeral)

lemma one_sensor_agree:
  assumes "agree run_rel
      (connmgr_listen True True os_fine 0 raw_poll raw_conn 3756 net0 (empty_heap 100) one_sensor_rounds)
      (spec_rounds one_sensor_rounds (new_manager 0))"
  shows "\<exists>st. connmgr_listen True True os_fine 0 raw_poll raw_conn 3756 net0 (empty_heap 100) one_sensor_rounds = Inr (True, st) \<and>
     to_sbuffer st = [\<lparr>data_id = 15, data_value = Fin 20, data_ts = 100\<rparr>] \<and>
     fifo_msgs st = [opened_msg 15, closed_msg 15]"
proof -
  obtain e m where m: "spec_rounds one_sensor_rounds (new_manager 0) = Inr (e, m)"
      "e = True" "m_data m = [\<lparr>data_id = 15, data_value = Fin 20, data_ts = 100\<rparr>]" "m_msgs m = [opened_msg 15, closed_msg 15]"
    using map_sum_InrD [OF spec_one_sensor] by fast
  have "\<exists>r. connmgr_listen True True os_fine 0 raw_poll raw_conn 3756 net0 (empty_heap 100) one_sensor_rounds = Inr r \<and>
      run_rel r (e, m)"
    by (rule agree_InrD [OF assms m(1)])
  then show ?thesis using m(2-4) unfolding run_rel_def same_output_def by (metis fst_conv snd_conv surj_pair)
qed

lemma one_sensor_run:
  "\<exists>st. connmgr_listen True True os_fine 0 raw_poll raw_conn 3756 net0 (empty_heap 100) one_sensor_rounds = Inr (True, st) \<and>
     to_sbuffer st = [\<lparr>data_id = 15, data_value = Fin 20, data_ts = 100\<rparr>] \<and>
     fifo_msgs st = [opened_msg 15, closed_msg 15]"
  by (rule one_sensor_agree, rule connmgr_refined) (simp_all add: one_sensor_rounds_def)




section \<open>Faults\<close>



text \<open>The state after a start, and rounds in it.\<close>

lemma started:
  "\<exists>st s. conn_inv st [] [] [(srv_socket (server st), s)] \<and> mgr_repr 99 st (new_manager 0) \<and>
     open_sds (cnet st) = [3] \<and> sd s = 3"
proof -
  obtain srv n1 s where s: "server_create os_fine 0 raw_poll 3756 net0 = Inr (srv, n1)" "bound n1 (srv_socket srv) s"
      "sd s = 3" "conn_size srv = 4" "length (fd srv) = 4" "pfd (hd (fd srv)) = sd s" "srv_last_record srv = 0"
      "open_sds n1 = [3]" "budget (net_heap n1) = 99"
    using server_create_ok [of net0 3756 os_fine 0 raw_poll] by auto
  have "conn_size srv = int (length (fd srv))" "fd srv \<noteq> []" using s(4,5) by auto
  from start_connections_ok [OF heap_ok_empty _ s(2) this s(6), of 100 raw_conn] obtain st where
    st: "conn_inv st [] [] [(srv_socket srv, s)]" "server st = srv" "cnet st = n1" "budget (conns st) = 99"
      "to_sbuffer st = []" "fifo_msgs st = []" "recv_file st = []" by auto
  have "mgr_repr 99 st (new_manager 0)"
    using started_repr [OF st(1)] st s by simp
  then show ?thesis using st s by blast
qed







text \<open>Without the file the first measurement is written to a NULL stream.\<close>

lemma read_sensor_no_file:
  assumes "bound (cnet st) (ss_socket c) s" and "read_conn (conns st) e = Inr c"
    and "upd_conn (conns st) e (ss_last_record_update (\<lambda>_. data_ts (received env i))) = Inr h1"
    and "got_data env i" and "\<not> recv_open st"
  shows "read_sensor_data env i e st = Inl NullDeref"
  unfolding read_sensor_data_def assms(2) bindE_Inr receive_data_bound [OF assms(1)] prod.case received_iff
    got_data_def [symmetric]
  by (simp add: assms(3-5))


section \<open>The end\<close>

text \<open>C31. When the list is empty, nothing is requested and more than the timeout has passed since the last
  activity, the manager ends. The struct of the list and that of the server's socket are released,
  nothing else in either heap has changed, and the descriptor of the server is closed when the
  system calls succeed.\<close>

theorem idle_server_stops:
  assumes "conn_inv st [] [] [(srv_socket (server st), s)]" and "\<not> ready env 0"
    and "later (env_idle_time env) (srv_last_record (server st))" and "env_realloc env"
  shows "\<exists>st'. manage_round env st = Inr (False, st') \<and>
     cells (conns st') = (cells (conns st))(connections_to_server st := None) \<and>
     cells (net_heap (cnet st')) = (cells (net_heap (cnet st)))(srv_socket (server st) := None, ip_addr s := None) \<and>
     open_sds (cnet st') = (if env_shutdown env \<noteq> -1 \<and> env_close env = 0
       then remove1 (sd s) (open_sds (cnet st)) else open_sds (cnet st))"
proof -
  note d = conn_invD [OF assms(1)]
  have size: "dpl_size (conns st) (connections_to_server st) = Inr 0"
    using elem_list_size [OF d(1)] by simp
  obtain a where a: "poll (env_revents env) 1 (fd (server st)) = Inr a" "length a = length (fd (server st))"
    using poll_ok [of 1 "fd (server st)"] d(6) by force
  have rev: "revents (a ! 0) = env_revents env 0"
    using poll_revents [of 1 "fd (server st)" "env_revents env" a 0] a d(6) by simp
  let ?st1 = "set_fd a st"
  let ?st2 = "?st1\<lparr>server := resize_fd (env_raw_fd env) 0 (server ?st1)\<rparr>"
  have rs: "take 1 (fd (server ?st2)) = take 1 a" "0 < length (fd (server ?st2))"
      "srv_socket (server ?st2) = srv_socket (server st)" "srv_last_record (server ?st2) = srv_last_record (server st)"
    using resize_fd_ok [of "server ?st1" 0 "env_raw_fd env"] d(6,7) a(2) by (simp_all add: set_fd_def)
  have "fd (server ?st2) ! 0 = a ! 0"
    using arg_cong [OF rs(1), of "\<lambda>xs. xs ! 0"] by simp
  then have p0: "fd_get (fd (server ?st2)) 0 = Inr (a ! 0)" using rs(2) by (simp add: fd_get_def)
  have b: "bound (cnet st) (srv_socket (server st)) s" using conn_inv_bound(1) [OF assms(1)] by simp
  obtain n1 where n1: "tcp_close (env_shutdown env) (env_close env) (srv_socket (server st)) (cnet st) = Inr (TCP_NO_ERROR, 0, n1)"
      "cells (net_heap n1) = (cells (net_heap (cnet st)))(srv_socket (server st) := None, ip_addr s := None)"
      "open_sds n1 = (if env_shutdown env \<noteq> -1 \<and> env_close env = 0 then remove1 (sd s) (open_sds (cnet st)) else open_sds (cnet st))"
    using close_bound [OF b] by blast
  obtain h1 where h1: "dpl_free conn_callbacks (conns st) (connections_to_server st) False = Inr (0, h1)"
      "cells h1 (connections_to_server st) = None" "frame {connections_to_server st} (conns st) h1"
    using elem_list_free [OF d(1), of conn_callbacks] by auto
  have c: "cells h1 = (cells (conns st))(connections_to_server st := None)"
    using h1(2,3) by (auto simp: frame_def)
  obtain st' where st': "stop_server env ?st2 = Inr st'" "conns st' = h1" "cnet st' = n1"
    using n1(1) h1(1) rs(3) by (simp add: stop_server_def connmgr_free_def set_fd_def)
  have "\<not> has_flag (revents (a ! 0)) POLLIN" using assms(2) rev by (simp add: ready_def)
  then have "manage_round env st = Inr (False, st')"
    using size a(1) p0 st'(1) rs(4) assms(3,4) by (simp add: manage_round_def Let_def)
  then show ?thesis using st'(2,3) c n1(2,3) by simp
qed

lemma idle_server_stops_witness:
  "\<exists>st st'. manage_round (quiet_env\<lparr>env_idle_time := 6\<rparr>) st = Inr (False, st') \<and>
     open_sds (cnet st) = [3] \<and> open_sds (cnet st') = []"
proof -
  obtain st s where st: "conn_inv st [] [] [(srv_socket (server st), s)]" "mgr_repr 99 st (new_manager 0)"
      "open_sds (cnet st) = [3]" "sd s = 3" using started by blast
  have env: "\<not> ready (quiet_env\<lparr>env_idle_time := 6\<rparr>) 0" "later 6 0"
    "env_shutdown quiet_env = 0" "env_close quiet_env = 0" "env_realloc quiet_env"
    by (simp_all add: ready_def quiet_env_def has_flag_def later_def TIMEOUT_def)
  have "srv_last_record (server st) = 0" using st(2) by (elim mgr_reprE) (simp add: new_manager_def)
  then show ?thesis
    using idle_server_stops [OF st(1) env(1)] env st(3,4) by auto
qed

end
