(* ===== verification/Sensor_Db.thy ===== *)
theory Sensor_Db
  imports Prelude Config Bytes
begin

text \<open>
  The storage manager's access to the database, sensor_db.c: the SQL texts, built with
  \<open>snprintf\<close> in buffers of 100 and 150 bytes, and what the functions do with the result
  codes. The SQLite library is a parameter: three functions on a state of its own. The number
  of connection handles that have been opened and not closed is kept, as are the messages to
  the log.
\<close>

section \<open>State\<close>

definition SQLITE_OK :: int where "SQLITE_OK = 0"
definition TABLE_NAME :: string where "TABLE_NAME = ''SensorData''"

text \<open>The address of the function that the library calls for each row, \<open>0\<close> for none.\<close>

type_synonym callback_t = nat

record 'w sqlite =
  sqlite3_open :: "'w \<Rightarrow> int \<times> 'w"
  sqlite3_exec :: "string \<Rightarrow> callback_t \<Rightarrow> 'w \<Rightarrow> int \<times> 'w"
  sqlite3_close :: "'w \<Rightarrow> 'w"

record 'w db_state =
  db_world :: 'w
  open_handles :: nat
  db_msgs :: "string list"

definition db_log :: "string \<Rightarrow> 'w db_state \<Rightarrow> 'w db_state" where
  "db_log m s = s\<lparr>db_msgs := db_msgs s @ [m]\<rparr>"

definition db_close :: "'w sqlite \<Rightarrow> 'w db_state \<Rightarrow> 'w db_state" where
  "db_close sq s = s\<lparr>db_world := sqlite3_close sq (db_world s), open_handles := open_handles s - 1\<rparr>"

section \<open>SQL texts\<close>

definition columns :: string where
  "columns = '' (id INTEGER,sensor_id INT,sensor_value DECIMAL(4 , 2),timestamp TIMESTAMP,PRIMARY KEY(id));''"

definition create_sql :: "bool \<Rightarrow> string" where
  "create_sql clear_up_flag = snprintf 150
     (if clear_up_flag
      then ''DROP TABLE IF EXISTS '' @ TABLE_NAME @ '';CREATE TABLE '' @ TABLE_NAME @ columns
      else ''CREATE TABLE IF NOT EXISTS '' @ TABLE_NAME @ columns)"

text \<open>The whole INSERT, and what the buffer of 100 bytes takes of it. \<open>%hd\<close> reads the id as signed.\<close>

definition insert_text :: "16 word \<Rightarrow> double \<Rightarrow> 64 word \<Rightarrow> string" where
  "insert_text i v t =
     ''INSERT INTO '' @ TABLE_NAME @ ''(sensor_id,sensor_value,timestamp) VALUES('' @
     fmt_hd i @ '','' @ fmt_f v @ '','' @ fmt_ld t @ '')''"

definition insert_sql :: "16 word \<Rightarrow> double \<Rightarrow> 64 word \<Rightarrow> string" where
  "insert_sql i v t = snprintf 100 (insert_text i v t)"

definition select_all_sql :: string where
  "select_all_sql = snprintf 100 (''SELECT * FROM '' @ TABLE_NAME)"

definition select_value_sql :: "double \<Rightarrow> string" where
  "select_value_sql v = snprintf 100 (''SELECT * FROM '' @ TABLE_NAME @ '' WHERE sensor_value IS '' @ fmt_f v @ '' '')"

definition select_exceed_sql :: "double \<Rightarrow> string" where
  "select_exceed_sql v = snprintf 100 (''SELECT * FROM '' @ TABLE_NAME @ '' WHERE sensor_value > '' @ fmt_f v @ '' '')"

text \<open>\<open>% ld\<close> writes a space where a sign would be.\<close>

definition fmt_space_ld :: "64 word \<Rightarrow> string" where
  "fmt_space_ld t = (if 0 \<le> sint t then '' '' else '''') @ fmt_ld t"

definition select_timestamp_sql :: "64 word \<Rightarrow> string" where
  "select_timestamp_sql t =
     snprintf 100 (''SELECT * FROM '' @ TABLE_NAME @ '' WHERE timestamp IS '' @ fmt_space_ld t @ '' '')"

definition select_after_sql :: "64 word \<Rightarrow> string" where
  "select_after_sql t =
     snprintf 100 (''SELECT * FROM '' @ TABLE_NAME @ '' WHERE timestamp > '' @ fmt_space_ld t @ '' '')"

section \<open>Operations\<close>

definition unable_msg :: string where "unable_msg = ''Unable to connect DB'' @ [newline]"
definition established_msg :: string where
  "established_msg = ''Connection to SQL server established'' @ [newline]"
definition created_msg :: string where
  "created_msg = ''New table '' @ TABLE_NAME @ '' created'' @ [newline]"
definition lost_msg :: string where "lost_msg = ''Connection to SQL server lost'' @ [newline]"

text \<open>
  The result tells whether a connection is returned. \<open>sqlite3_open\<close> gives a handle also
  when it fails.
\<close>

definition init_connection :: "'w sqlite \<Rightarrow> bool \<Rightarrow> 'w db_state \<Rightarrow> bool \<times> 'w db_state" where
  "init_connection sq clear_up_flag s =
     (let (rc, w) = sqlite3_open sq (db_world s);
          s1 = s\<lparr>db_world := w, open_handles := Suc (open_handles s)\<rparr>
      in if rc \<noteq> SQLITE_OK then (False, db_close sq (db_log unable_msg s1))
         else let s2 = db_log established_msg s1;
                  (rc2, w2) = sqlite3_exec sq (create_sql clear_up_flag) 0 (db_world s2);
                  s3 = s2\<lparr>db_world := w2\<rparr>
              in if rc2 \<noteq> SQLITE_OK then (False, s3) else (True, db_log created_msg s3))"

definition disconnect :: "'w sqlite \<Rightarrow> 'w db_state \<Rightarrow> 'w db_state" where
  "disconnect sq s = db_close sq (db_log lost_msg s)"

text \<open>One statement: \<open>0\<close> or \<open>-1\<close>.\<close>

definition exec_sql :: "'w sqlite \<Rightarrow> string \<Rightarrow> callback_t \<Rightarrow> 'w \<Rightarrow> int \<times> 'w" where
  "exec_sql sq sql f w =
     (let (rc, w') = sqlite3_exec sq sql f w in (if rc \<noteq> SQLITE_OK then -1 else 0, w'))"

definition insert_sensor :: "'w sqlite \<Rightarrow> 16 word \<Rightarrow> double \<Rightarrow> 64 word \<Rightarrow> 'w \<Rightarrow> int \<times> 'w" where
  "insert_sensor sq i v t w = exec_sql sq (insert_sql i v t) 0 w"

definition find_sensor_all :: "'w sqlite \<Rightarrow> callback_t \<Rightarrow> 'w \<Rightarrow> int \<times> 'w" where
  "find_sensor_all sq f w = exec_sql sq select_all_sql f w"

definition find_sensor_by_value :: "'w sqlite \<Rightarrow> double \<Rightarrow> callback_t \<Rightarrow> 'w \<Rightarrow> int \<times> 'w" where
  "find_sensor_by_value sq v f w = exec_sql sq (select_value_sql v) f w"

definition find_sensor_exceed_value :: "'w sqlite \<Rightarrow> double \<Rightarrow> callback_t \<Rightarrow> 'w \<Rightarrow> int \<times> 'w" where
  "find_sensor_exceed_value sq v f w = exec_sql sq (select_exceed_sql v) f w"

definition find_sensor_by_timestamp :: "'w sqlite \<Rightarrow> 64 word \<Rightarrow> callback_t \<Rightarrow> 'w \<Rightarrow> int \<times> 'w" where
  "find_sensor_by_timestamp sq t f w = exec_sql sq (select_timestamp_sql t) f w"

definition find_sensor_after_timestamp :: "'w sqlite \<Rightarrow> 64 word \<Rightarrow> callback_t \<Rightarrow> 'w \<Rightarrow> int \<times> 'w" where
  "find_sensor_after_timestamp sq t f w = exec_sql sq (select_after_sql t) f w"

text \<open>
  What \<open>get_sbuffer_data\<close> does with the measurements that the shared buffer hands over:
  each is inserted, the result is not looked at.
\<close>

fun store_measurements :: "'w sqlite \<Rightarrow> sensor_data_t list \<Rightarrow> 'w \<Rightarrow> 'w" where
  "store_measurements sq [] w = w"
| "store_measurements sq (d # ds) w =
     store_measurements sq ds (snd (insert_sensor sq (data_id d) (data_value d) (data_ts d) w))"

text \<open>The statements for a sequence of measurements, and the effect of a sequence of statements.\<close>

definition statements :: "sensor_data_t list \<Rightarrow> string list" where
  "statements ds = map (\<lambda>d. insert_sql (data_id d) (data_value d) (data_ts d)) ds"

definition run_statements :: "'w sqlite \<Rightarrow> string list \<Rightarrow> 'w \<Rightarrow> 'w" where
  "run_statements sq sqls w = foldl (\<lambda>w s. snd (sqlite3_exec sq s 0 w)) w sqls"

lemma store_measurements_statements: "store_measurements sq ds w = run_statements sq (statements ds) w"
  by (induction ds arbitrary: w)
    (simp_all add: run_statements_def statements_def insert_sensor_def exec_sql_def case_prod_beta)

section \<open>The file of measurements\<close>

text \<open>
  \<open>fread\<close> of one object of \<open>n\<close> bytes: the number of objects read, the object's bytes
  (an incomplete read overwrites the first ones) and the rest of the file.
\<close>

definition fread1 :: "nat \<Rightarrow> 8 word list \<Rightarrow> 8 word list \<Rightarrow> nat \<times> 8 word list \<times> 8 word list" where
  "fread1 n old fp =
     (if n \<le> length fp then (1, take n fp, drop n fp)
      else (0, fp @ drop (length fp) old, []))"

function insert_sensor_from_file ::
    "'w sqlite \<Rightarrow> 8 word list \<Rightarrow> 8 word list \<Rightarrow> 8 word list \<Rightarrow> 8 word list \<Rightarrow> 'w \<Rightarrow> int \<times> 'w" where
  "insert_sensor_from_file sq fp sensor_bfr temperature_bfr time_bfr w =
     (case fread1 2 sensor_bfr fp of (n, s, fp1) \<Rightarrow>
        if 0 < n then
          (case fread1 8 temperature_bfr fp1 of (_, v, fp2) \<Rightarrow>
           case fread1 8 time_bfr fp2 of (_, t, fp3) \<Rightarrow>
           case insert_sensor sq (ucast (le_word s)) (double_of_bits (le_word v)) (le_word t) w of
             (result, w1) \<Rightarrow>
               if result = -1 then (-1, w1) else insert_sensor_from_file sq fp3 s v t w1)
        else (0, w))"
  by pat_completeness auto
termination
  by (relation "measure (\<lambda>(sq, fp, s, v, t, w). length fp)")
    (auto simp: fread1_def split: if_splits)

declare insert_sensor_from_file.simps [simp del]

text \<open>The measurements of such a file; the temperature as its bits.\<close>

definition record_bytes :: "16 word \<times> 64 word \<times> 64 word \<Rightarrow> 8 word list" where
  "record_bytes r = le_bytes 2 (ucast (fst r)) @ le_bytes 8 (fst (snd r)) @ le_bytes 8 (snd (snd r))"

fun insert_all :: "'w sqlite \<Rightarrow> (16 word \<times> 64 word \<times> 64 word) list \<Rightarrow> 'w \<Rightarrow> int \<times> 'w" where
  "insert_all sq [] w = (0, w)"
| "insert_all sq (r # rs) w =
     (case insert_sensor sq (fst r) (double_of_bits (fst (snd r))) (snd (snd r)) w of (result, w1) \<Rightarrow>
        if result = -1 then (-1, w1) else insert_all sq rs w1)"

lemma fread1_all: "length bs = n \<Longrightarrow> fread1 n old (bs @ rest) = (1, bs, rest)"
  by (simp add: fread1_def)

lemma insert_from_file_records:
  "insert_sensor_from_file sq (concat (map record_bytes rs)) s0 v0 t0 w = insert_all sq rs w"
proof (induction rs arbitrary: s0 v0 t0 w)
  case Nil
  show ?case by (subst insert_sensor_from_file.simps) (simp add: fread1_def)
next
  case (Cons r rs)
  let ?b0 = "le_bytes 2 (ucast (fst r))" and ?b1 = "le_bytes 8 (fst (snd r))"
    and ?b2 = "le_bytes 8 (snd (snd r))" and ?rest = "concat (map record_bytes rs)"
  have cat: "concat (map record_bytes (r # rs)) = ?b0 @ ?b1 @ ?b2 @ ?rest"
    by (simp add: record_bytes_def)
  have rd: "fread1 2 s0 (?b0 @ ?b1 @ ?b2 @ ?rest) = (1, ?b0, ?b1 @ ?b2 @ ?rest)"
    "fread1 8 v0 (?b1 @ ?b2 @ ?rest) = (1, ?b1, ?b2 @ ?rest)"
    "fread1 8 t0 (?b2 @ ?rest) = (1, ?b2, ?rest)"
    by (rule fread1_all, rule length_le_bytes)+
  obtain result w1 where ins:
    "insert_sensor sq (fst r) (double_of_bits (fst (snd r))) (snd (snd r)) w = (result, w1)"
    by fastforce
  have "insert_sensor_from_file sq (concat (map record_bytes (r # rs))) s0 v0 t0 w =
      (if result = -1 then (-1, w1)
       else insert_sensor_from_file sq ?rest ?b0 ?b1 ?b2 w1)"
    unfolding cat
    by (subst insert_sensor_from_file.simps)
      (simp only: rd prod.case le_word_bytes_8 le_word_bytes_2 ins zero_less_one if_True)
  then show ?case using Cons.IH [of ?b0 ?b1 ?b2 w1] ins by simp
qed

section \<open>What fits\<close>

lemma create_sql_complete:
  "create_sql True = ''DROP TABLE IF EXISTS '' @ TABLE_NAME @ '';CREATE TABLE '' @ TABLE_NAME @ columns"
  "create_sql False = ''CREATE TABLE IF NOT EXISTS '' @ TABLE_NAME @ columns"
  by (simp_all add: create_sql_def snprintf_def TABLE_NAME_def columns_def)

lemma insert_sql_complete:
  "insert_sql i v t = insert_text i v t \<longleftrightarrow> length (insert_text i v t) \<le> 99"
proof
  assume "insert_sql i v t = insert_text i v t"
  then have "length (take 99 (insert_text i v t)) = length (insert_text i v t)"
    by (simp add: insert_sql_def snprintf_def)
  then show "length (insert_text i v t) \<le> 99" by simp
qed (simp add: insert_sql_def snprintf_def)

lemma insert_text_length:
  "length (insert_text i v t) = 67 + length (fmt_hd i) + length (fmt_f v) + length (fmt_ld t)"
  by (simp add: insert_text_def TABLE_NAME_def)

text \<open>The number of digits of a number.\<close>

lemma show_nat_digits_le: "n < 10 ^ Suc k \<Longrightarrow> length (show_nat n) \<le> Suc k"
proof (induction k arbitrary: n)
  case 0
  then show ?case by (subst show_nat.simps) simp
next
  case (Suc k)
  have "n div 10 < 10 ^ Suc k" using Suc.prems by (simp add: div_less_iff_less_mult mult.commute)
  from Suc.IH [OF this] show ?case by (subst show_nat.simps) simp
qed

lemma fmt_hd_length: "length (fmt_hd i) \<le> 6"
proof -
  have lo: "- (2 ^ 15) \<le> sint i" and hi: "sint i < 2 ^ 15"
    using sint_greater_eq [of i] sint_lt [of i] by simp_all
  then have "nat (sint i) < 10 ^ Suc 4" "nat (- sint i) < 10 ^ Suc 4" by simp_all
  from this [THEN show_nat_digits_le] show ?thesis by (auto simp: fmt_hd_def show_int_def)
qed

lemma nat_less_of_int: "i < int n \<Longrightarrow> 0 < n \<Longrightarrow> nat i < n"
  by linarith

lemma fmt_f_length:
  assumes "\<bar>q\<bar> < 10 ^ Suc k - 1"
  shows "length (fmt_f (Fin q)) \<le> k + 9"
proof -
  let ?n = "nat (round_even (\<bar>q\<bar> * 1000000))"
  have re: "round_even r \<le> \<lfloor>r\<rfloor> + 1" for r by (simp add: round_even_def Let_def)
  have "of_int (round_even (\<bar>q\<bar> * 1000000)) \<le> \<bar>q\<bar> * 1000000 + 1"
    using re [of "\<bar>q\<bar> * 1000000"] of_int_floor_le [of "\<bar>q\<bar> * 1000000"]
    by linarith
  also have "\<dots> < (10 ^ Suc k) * 1000000" using assms by (simp add: algebra_simps)
  finally have "round_even (\<bar>q\<bar> * 1000000) < 10 ^ Suc k * 1000000"
    by (metis of_int_less_iff of_int_mult of_int_numeral of_int_power)
  then have "round_even (\<bar>q\<bar> * 1000000) < int (10 ^ Suc k * 1000000)" by simp
  then have "?n < 10 ^ Suc k * 1000000" by (rule nat_less_of_int) simp
  then have "?n div 1000000 < 10 ^ Suc k" by (simp add: div_less_iff_less_mult)
  then have l: "length (show_nat (?n div 1000000)) \<le> Suc k" by (rule show_nat_digits_le)
  have "length (fmt_f (Fin q)) \<le> 1 + length (show_nat (?n div 1000000)) + 7"
    by (simp add: Let_def pad6_def)
  then show ?thesis using l by linarith
qed

lemma fmt_ld_length:
  assumes "- (10 ^ k) < sint t" "sint t < 10 ^ Suc k"
  shows "length (fmt_ld t) \<le> Suc k"
proof (cases k)
  case 0
  then have "sint t < 10 ^ Suc 0" "0 \<le> sint t" using assms by auto
  then show ?thesis using show_nat_digits_le [of "nat (sint t)" 0] 0 by (simp add: fmt_ld_def show_int_def)
next
  case (Suc m)
  have "sint t < int (10 ^ Suc k)" "- sint t < int (10 ^ Suc m)" using assms Suc by simp_all
  then have "nat (sint t) < 10 ^ Suc k" "nat (- sint t) < 10 ^ Suc m"
    using nat_less_of_int by (metis zero_less_numeral zero_less_power)+
  then show ?thesis using show_nat_digits_le [of "nat (sint t)" k] show_nat_digits_le [of "nat (- sint t)" m] Suc
    by (auto simp: fmt_ld_def show_int_def)
qed

end
