(* ===== verification/Errmacros.thy ===== *)
theory Errmacros
  imports Prelude
begin

text \<open>
  The checks of errmacros.h: each ends the process with status 1 when the call before it has
  failed. The message that \<open>perror\<close> prints is left out. A \<open>FILE *\<close> is its address, \<open>0\<close> for
  NULL; \<open>EOF\<close> is \<open>-1\<close>. \<open>MALLOC_ERR_HANDLER\<close> is \<open>assertE\<close> of the prelude.
\<close>

definition EXIT_FAILURE :: int where "EXIT_FAILURE = 1"
definition EEXIST :: int where "EEXIST = 17"
definition EOF :: int where "EOF = -1"

definition SYSCALL_ERROR :: "int \<Rightarrow> unit res" where
  "SYSCALL_ERROR err = (if err = -1 then Inl (ExitCall EXIT_FAILURE) else Inr ())"

definition CHECK_MKFIFO :: "int \<Rightarrow> int \<Rightarrow> unit res" where
  "CHECK_MKFIFO err errno =
     (if err = -1 then if errno \<noteq> EEXIST then Inl (ExitCall EXIT_FAILURE) else Inr () else Inr ())"

definition FILE_OPEN_ERROR :: "nat \<Rightarrow> unit res" where
  "FILE_OPEN_ERROR fp = (if fp = 0 then Inl (ExitCall EXIT_FAILURE) else Inr ())"

definition FILE_CLOSE_ERROR :: "int \<Rightarrow> unit res" where
  "FILE_CLOSE_ERROR err = (if err = -1 then Inl (ExitCall EXIT_FAILURE) else Inr ())"

definition FFLUSH_ERROR :: "int \<Rightarrow> unit res" where
  "FFLUSH_ERROR err = (if err = EOF then Inl (ExitCall EXIT_FAILURE) else Inr ())"

lemmas errmacro_defs = SYSCALL_ERROR_def CHECK_MKFIFO_def FILE_OPEN_ERROR_def FILE_CLOSE_ERROR_def
  FFLUSH_ERROR_def EXIT_FAILURE_def EEXIST_def EOF_def

text \<open>A check lets the program go on or ends it with status 1.\<close>

lemma errmacro_results:
  "SYSCALL_ERROR r \<in> {Inr (), Inl (ExitCall 1)}" "CHECK_MKFIFO r en \<in> {Inr (), Inl (ExitCall 1)}"
  "FILE_OPEN_ERROR fp \<in> {Inr (), Inl (ExitCall 1)}" "FILE_CLOSE_ERROR r \<in> {Inr (), Inl (ExitCall 1)}"
  "FFLUSH_ERROR r \<in> {Inr (), Inl (ExitCall 1)}"
  by (simp_all add: errmacro_defs)

end
