(* ===== verification/Gateway.thy ===== *)
theory Gateway
  imports Sensor_Db Errmacros "HOL-Library.Sublist"
begin

text \<open>
  main.c: the pipe to the log process and the log process itself, the storage manager's
  attempts to connect, and the order of events in \<open>main\<close>. The loops of the three threads
  at the shared buffer are in the theory Threads.
\<close>

definition REC_BUF_SIZE :: nat where "REC_BUF_SIZE = 400"
definition NR_OF_TRIES :: nat where "NR_OF_TRIES = 3"

section \<open>The log\<close>

text \<open>
  \<open>write_to_FIFO\<close>: under the mutex, the message goes to the end of what the pipe holds. The
  first two arguments are the results of \<open>fputs\<close> and \<open>fflush\<close>.
\<close>

definition write_to_FIFO :: "int \<Rightarrow> int \<Rightarrow> string \<Rightarrow> string \<Rightarrow> string res" where
  "write_to_FIFO puts flush message pipe =
     (if puts = EOF then Inl (ExitCall EXIT_FAILURE)
      else bindE (FFLUSH_ERROR flush) (\<lambda>_. Inr (pipe @ message)))"

text \<open>\<open>fgets\<close> with a buffer of \<open>n\<close> bytes: up to a line break or \<open>n - 1\<close> characters.\<close>

fun fgets_chars :: "nat \<Rightarrow> string \<Rightarrow> string \<times> string" where
  "fgets_chars 0 s = ([], s)"
| "fgets_chars (Suc k) [] = ([], [])"
| "fgets_chars (Suc k) (c # s) =
     (if c = newline then ([c], s)
      else let (l, r) = fgets_chars k s in (c # l, r))"

definition fgets :: "nat \<Rightarrow> string \<Rightarrow> (string \<times> string) option" where
  "fgets n s = (if s = [] then None else Some (fgets_chars (n - 1) s))"

definition log_entry :: "nat \<Rightarrow> 64 word \<Rightarrow> string \<Rightarrow> string" where
  "log_entry sequence_number now msg = show_nat sequence_number @ '' '' @ fmt_ld now @ '' '' @ msg"

lemma fgets_chars_shorter: "fgets_chars k s = (l, r) \<Longrightarrow> length r \<le> length s \<and> (k \<noteq> 0 \<and> s \<noteq> [] \<longrightarrow> length r < length s)"
proof (induction k s arbitrary: l r rule: fgets_chars.induct)
  case (3 k c s)
  show ?case
  proof (cases "c = newline")
    case False
    obtain l' r' where s: "fgets_chars k s = (l', r')" by fastforce
    then show ?thesis using 3 False by auto
  qed (use 3 in auto)
qed auto

lemma fgets_shorter: "fgets REC_BUF_SIZE s = Some (l, r) \<Longrightarrow> length r < length s"
  using fgets_chars_shorter [of "REC_BUF_SIZE - 1" s l r]
  by (auto simp: fgets_def REC_BUF_SIZE_def split: if_splits)

text \<open>
  The loop of the log process over everything that comes out of the pipe: the entries that it
  writes. \<open>clock k\<close> is the time of the \<open>k\<close>-th one.
\<close>

function log_loop :: "(nat \<Rightarrow> 64 word) \<Rightarrow> nat \<Rightarrow> string \<Rightarrow> string list" where
  "log_loop clock sequence_number s =
     (case fgets REC_BUF_SIZE s of
        None \<Rightarrow> []
      | Some (recv_buf, rest) \<Rightarrow>
          log_entry (Suc sequence_number) (clock (Suc sequence_number)) recv_buf #
          log_loop clock (Suc sequence_number) rest)"
  by pat_completeness auto
termination
  by (relation "measure (\<lambda>(clock, k, s). length s)") (auto dest: fgets_shorter)

declare log_loop.simps [simp del]

text \<open>
  What the system answers to the log process: to \<open>mkfifo\<close>, with \<open>errno\<close>, to the two calls of
  \<open>fopen\<close>, and to the two of \<open>fclose\<close>.
\<close>

record child_env =
  ce_mkfifo :: int
  ce_errno :: int
  ce_fpread :: nat
  ce_flog :: nat
  ce_close_pipe :: int
  ce_close_log :: int

text \<open>
  \<open>run_child\<close>, with what comes through the pipe. The second check after opening looks at the
  first file again. The result is the status with which the process exits after the loop, and the
  content of gateway.log.
\<close>

definition run_child :: "child_env \<Rightarrow> (nat \<Rightarrow> 64 word) \<Rightarrow> string \<Rightarrow> (int \<times> string) res" where
  "run_child e clock pipe =
     bindE (CHECK_MKFIFO (ce_mkfifo e) (ce_errno e)) (\<lambda>_.
     bindE (FILE_OPEN_ERROR (ce_fpread e)) (\<lambda>_.
     bindE (FILE_OPEN_ERROR (ce_fpread e)) (\<lambda>_.
     if ce_flog e = 0 then Inl NullDeref
     else let flog = concat (log_loop clock 0 pipe) in
       (case FILE_CLOSE_ERROR (ce_close_pipe e) of
          Inl _ \<Rightarrow> Inr (EXIT_FAILURE, flog)
        | Inr _ \<Rightarrow> (case FILE_CLOSE_ERROR (ce_close_log e) of
              Inl _ \<Rightarrow> Inr (EXIT_FAILURE, flog)
            | Inr _ \<Rightarrow> Inr (0, flog))))))"

text \<open>No call fails; the FIFO may have been there already.\<close>

definition child_ok :: "child_env \<Rightarrow> bool" where
  "child_ok e \<longleftrightarrow> (ce_mkfifo e = -1 \<longrightarrow> ce_errno e = EEXIST) \<and> ce_fpread e \<noteq> 0 \<and> ce_flog e \<noteq> 0 \<and>
     ce_close_pipe e \<noteq> -1 \<and> ce_close_log e \<noteq> -1"

lemma run_child_ok: "child_ok e \<Longrightarrow> run_child e clock pipe = Inr (0, concat (log_loop clock 0 pipe))"
  by (simp add: run_child_def child_ok_def CHECK_MKFIFO_def FILE_OPEN_ERROR_def FILE_CLOSE_ERROR_def)

text \<open>When gateway.log cannot be opened, the check looks at the wrong file and the process dies.\<close>

lemma run_child_no_log:
  "ce_mkfifo e = 0 \<Longrightarrow> ce_fpread e \<noteq> 0 \<Longrightarrow> ce_flog e = 0 \<Longrightarrow> run_child e clock pipe = Inl NullDeref"
  by (simp add: run_child_def CHECK_MKFIFO_def FILE_OPEN_ERROR_def)

subsection \<open>One entry for each message\<close>

text \<open>A message that is one line and fits the buffer.\<close>

definition log_message :: "string \<Rightarrow> bool" where
  "log_message m \<longleftrightarrow> length m < REC_BUF_SIZE \<and> (\<exists>t. m = t @ [newline] \<and> newline \<notin> set t)"

lemma fgets_chars_line:
  "newline \<notin> set t \<Longrightarrow> length t < k \<Longrightarrow> fgets_chars k (t @ newline # rest) = (t @ [newline], rest)"
proof (induction t arbitrary: k)
  case Nil
  then show ?case by (cases k) simp_all
next
  case (Cons c t)
  then show ?case by (cases k) auto
qed

lemma fgets_message: "log_message m \<Longrightarrow> fgets REC_BUF_SIZE (m @ rest) = Some (m, rest)"
  using fgets_chars_line [of _ "REC_BUF_SIZE - 1" rest]
  by (auto simp: log_message_def fgets_def REC_BUF_SIZE_def)

lemma log_loop_messages:
  "\<forall>m \<in> set ms. log_message m \<Longrightarrow>
   log_loop clock k (concat ms) =
     map (\<lambda>i. log_entry (Suc (k + i)) (clock (Suc (k + i))) (ms ! i)) [0..<length ms]"
proof (induction ms arbitrary: k)
  case Nil
  show ?case by (subst log_loop.simps) (simp add: fgets_def)
next
  case (Cons m ms)
  have "log_loop clock k (concat (m # ms)) =
      log_entry (Suc k) (clock (Suc k)) m # log_loop clock (Suc k) (concat ms)"
    using fgets_message [of m "concat ms"] Cons.prems by (subst log_loop.simps) simp
  also have "log_loop clock (Suc k) (concat ms) =
      map (\<lambda>i. log_entry (Suc (Suc k + i)) (clock (Suc (Suc k + i))) (ms ! i)) [0..<length ms]"
    using Cons by simp
  finally show ?case
    by (simp add: upt_conv_Cons map_Suc_upt [symmetric] comp_def del: upt_Suc)
qed

section \<open>The storage manager's connection\<close>

text \<open>
  The loop of \<open>start_storagemgr_thread\<close>: up to three attempts, five seconds of sleep after
  the first and the second one that fail. The result is whether a connection was made, how
  often the thread has slept, and the state.
\<close>

function connect_loop :: "'w sqlite \<Rightarrow> nat \<Rightarrow> nat \<Rightarrow> 'w db_state \<Rightarrow> bool \<times> nat \<times> 'w db_state" where
  "connect_loop sq nr_of_tries slept s =
     (let (connected, s1) = init_connection sq True s in
      if connected then (True, slept, s1)
      else let slept1 = (if nr_of_tries < 2 then Suc slept else slept) in
        if Suc nr_of_tries < NR_OF_TRIES then connect_loop sq (Suc nr_of_tries) slept1 s1
        else (False, slept1, s1))"
  by pat_completeness auto
termination by (relation "measure (\<lambda>(sq, n, sl, s). NR_OF_TRIES - n)") auto

declare connect_loop.simps [simp del]

text \<open>
  The whole thread; \<open>ds\<close> are the measurements that it reads from the shared buffer. Without
  a connection it clears the flag that keeps the gateway running and reads the rest without
  storing it. The result: whether it has cleared the flag, the number of sleeps, the state.
\<close>

definition start_storagemgr_thread ::
    "'w sqlite \<Rightarrow> sensor_data_t list \<Rightarrow> 'w db_state \<Rightarrow> bool \<times> nat \<times> 'w db_state" where
  "start_storagemgr_thread sq ds s =
     (case connect_loop sq 0 0 s of (conn, slept, s1) \<Rightarrow>
        if conn
        then (False, slept,
              disconnect sq (s1\<lparr>db_world := store_measurements sq ds (db_world s1)\<rparr>))
        else (True, slept, s1))"

lemma init_connection_failed:
  assumes "init_connection sq True s = (False, s')"
  shows "open_handles s' = open_handles s \<or> open_handles s' = Suc (open_handles s)"
  using assms
  by (auto simp: init_connection_def db_close_def db_log_def Let_def split: prod.splits if_splits)

lemma connect_loop_unfold:
  "connect_loop sq 0 0 s =
     (let (c0, s0) = init_connection sq True s;
          (c1, s1) = init_connection sq True s0;
          (c2, s2) = init_connection sq True s1
      in if c0 then (True, 0, s0) else if c1 then (True, 1, s1) else (c2, 2, s2))"
proof -
  have two: "connect_loop sq 2 sl s' = (let (c, s'') = init_connection sq True s' in (c, sl, s''))" for sl s'
    by (subst connect_loop.simps) (simp add: NR_OF_TRIES_def split: prod.split)
  have one: "connect_loop sq 1 sl s' =
      (let (c, s'') = init_connection sq True s' in if c then (True, sl, s'') else connect_loop sq 2 (Suc sl) s'')" for sl s'
    by (subst connect_loop.simps) (simp add: NR_OF_TRIES_def Let_def numeral_2_eq_2 split: prod.split)
  show ?thesis
    by (subst connect_loop.simps)
      (simp add: NR_OF_TRIES_def Let_def one [simplified] two [simplified numeral_2_eq_2] numeral_2_eq_2 split: prod.split)
qed

section \<open>The port and the start of the program\<close>

text \<open>\<open>atoi\<close>: white space, a sign, digits; \<open>0\<close> when there is no number.\<close>

definition atoi :: "string \<Rightarrow> int" where
  "atoi s = (case scan_int s of Scanned i _ \<Rightarrow> i | _ \<Rightarrow> 0)"

text \<open>
  What \<open>main\<close> does, one event for each call that matters to the rest of the program, and what the
  system answers. The three threads have the numbers of main.h.
\<close>

datatype main_event =
    Fork | RunChild | SbufferInit | MakeFifo | OpenFifo | MutexInit
  | CreateThread nat | JoinThread nat | CloseFifo | SbufferFree | WaitChild | Print string | PthreadExit

record main_env =
  me_argc :: int
  me_pid :: int
  me_fork :: int
  me_mkfifo :: int
  me_errno :: int
  me_fopen :: nat
  me_mutex :: int
  me_create :: "nat \<Rightarrow> int"
  me_join :: "nat \<Rightarrow> int"
  me_fclose :: int
  me_wait :: int
  me_status :: int
  me_child :: child_env
  me_clock :: "nat \<Rightarrow> 64 word"
  me_pipe :: string

definition CONMGR_THREAD :: nat where "CONMGR_THREAD = 0"
definition DATAMGR_THREAD :: nat where "DATAMGR_THREAD = 1"
definition STORAGE_THREAD :: nat where "STORAGE_THREAD = 2"

text \<open>The texts that \<open>main\<close> prints. A status is normal when its low seven bits are zero.\<close>

definition quote :: char where "quote = CHR 0x27"
definition tab :: char where "tab = CHR 0x09"

definition help_option :: "string \<Rightarrow> string \<Rightarrow> string" where
  "help_option name what =
     (let q = [quote] @ name @ [quote] in [tab] @ q @ replicate (15 - length q) CHR '' '' @ '' : '' @ what @ [newline])"

definition print_help :: string where
  "print_help = ''Use this program with 1 command line option: '' @ [newline] @
     help_option ''server port'' ''TCP server port number''"

definition started_msg :: "int \<Rightarrow> string" where
  "started_msg pid = ''Gateway is started (pid = '' @ show_int pid @ '') is started ...'' @ [newline]"

definition WIFEXITED :: "int \<Rightarrow> bool" where
  "WIFEXITED status \<longleftrightarrow> status mod 128 = 0"

definition WEXITSTATUS :: "int \<Rightarrow> int" where
  "WEXITSTATUS status = status div 256 mod 256"

definition child_msg :: "int \<Rightarrow> int \<Rightarrow> string" where
  "child_msg pid status =
     (if WIFEXITED status
      then ''Child '' @ show_int pid @ '' terminated with exit status '' @ show_int (WEXITSTATUS status) @ [newline]
      else ''Child '' @ show_int pid @ '' terminated abnormally'' @ [newline])"

text \<open>A run: the events in their order, and how the process ends; \<open>Inr\<close> is \<open>pthread_exit\<close>.\<close>

type_synonym main_run = "main_event list \<times> unit res"

definition perform :: "main_event \<Rightarrow> main_run \<Rightarrow> main_run" where
  "perform ev r = (ev # fst r, snd r)"

definition checked :: "unit res \<Rightarrow> main_run \<Rightarrow> main_run" where
  "checked c r = (case c of Inl e \<Rightarrow> ([], Inl e) | Inr _ \<Rightarrow> r)"

definition create_thread :: "main_env \<Rightarrow> nat \<Rightarrow> string \<Rightarrow> main_run \<Rightarrow> main_run" where
  "create_thread e i msg r =
     perform (CreateThread i)
       (if me_create e i \<noteq> 0 then perform (Print msg) ([], Inl (ExitCall EXIT_FAILURE)) else r)"

definition join_thread :: "main_env \<Rightarrow> nat \<Rightarrow> string \<Rightarrow> main_run \<Rightarrow> main_run" where
  "join_thread e i msg r =
     perform (JoinThread i) (if me_join e i \<noteq> 0 then perform (Print msg) r else r)"

definition main_threads :: "main_env \<Rightarrow> main_run \<Rightarrow> main_run" where
  "main_threads e r =
     (create_thread e CONMGR_THREAD (''Connmgr  thread can'' @ [quote] @ ''t be created'' @ [newline])
     (create_thread e DATAMGR_THREAD (''Datamgr thread can'' @ [quote] @ ''t be created'' @ [newline])
     (create_thread e STORAGE_THREAD (''Storagemgr thread can'' @ [quote] @ ''t be created'' @ [newline])
     (join_thread e CONMGR_THREAD (''Can'' @ [quote] @ ''t join thread Connmgr thread '' @ [newline])
     (join_thread e DATAMGR_THREAD (''Can'' @ [quote] @ ''t join thread Datamgr thread'' @ [newline])
     (join_thread e STORAGE_THREAD (''Can'' @ [quote] @ ''t join thread Storagemgr thread'' @ [newline])
     r))))))"

definition gateway_main :: "main_env \<Rightarrow> main_run" where
  "gateway_main e =
     (if me_argc e \<noteq> 2 then perform (Print print_help) ([], Inl (ExitCall 0))
      else perform Fork (checked (SYSCALL_ERROR (me_fork e))
        (if me_fork e = 0 then
           perform RunChild (case run_child (me_child e) (me_clock e) (me_pipe e) of
               Inl x \<Rightarrow> ([], Inl x) | Inr (status, _) \<Rightarrow> ([], Inl (ExitCall status)))
         else
           perform (Print (started_msg (me_pid e))) (perform SbufferInit
           (perform MakeFifo (checked (CHECK_MKFIFO (me_mkfifo e) (me_errno e))
           (perform OpenFifo (checked (FILE_OPEN_ERROR (me_fopen e))
           (perform MutexInit
           ((if me_mutex e \<noteq> 0 then perform (Print ([newline] @ '' mutex init has failed'' @ [newline])) else (\<lambda>r. r))
           (main_threads e
           (perform CloseFifo (checked (FILE_CLOSE_ERROR (me_fclose e))
           (perform SbufferFree
           (perform WaitChild (checked (SYSCALL_ERROR (me_wait e))
           (perform (Print (child_msg (me_fork e) (me_status e)))
           (perform PthreadExit ([], Inr ())))))))))))))))))))"

subsection \<open>The order of events\<close>

text \<open>What the parent does when nothing fails.\<close>

definition main_script :: "main_event list" where
  "main_script = [Fork, SbufferInit, MakeFifo, OpenFifo, MutexInit,
     CreateThread CONMGR_THREAD, CreateThread DATAMGR_THREAD, CreateThread STORAGE_THREAD,
     JoinThread CONMGR_THREAD, JoinThread DATAMGR_THREAD, JoinThread STORAGE_THREAD,
     CloseFifo, SbufferFree, WaitChild, PthreadExit]"

definition is_print :: "main_event \<Rightarrow> bool" where
  "is_print ev \<longleftrightarrow> (\<exists>s. ev = Print s)"

text \<open>A run that follows a script and ends in an error exit before its end, or at its end.\<close>

definition follows :: "main_run \<Rightarrow> main_event list \<Rightarrow> bool" where
  "follows r script \<longleftrightarrow>
     (snd r = Inr () \<and> filter (\<lambda>ev. \<not> is_print ev) (fst r) = script) \<or>
     (snd r = Inl (ExitCall 1) \<and> strict_prefix (filter (\<lambda>ev. \<not> is_print ev) (fst r)) script)"

lemma strict_prefix_Nil: "strict_prefix [] s \<longleftrightarrow> s \<noteq> []"
  by (cases s) simp_all

lemma follows_end: "follows (perform PthreadExit ([], Inr ())) [PthreadExit]"
  by (simp add: follows_def perform_def is_print_def)

lemma follows_perform: "follows r s \<Longrightarrow> \<not> is_print ev \<Longrightarrow> follows (perform ev r) (ev # s)"
  by (auto simp: follows_def perform_def)

lemma follows_print: "follows r s \<Longrightarrow> follows ((if b then perform (Print m) else (\<lambda>r. r)) r) s"
  by (simp add: follows_def perform_def is_print_def)

lemma follows_message: "follows r s \<Longrightarrow> follows (perform (Print m) r) s"
  by (simp add: follows_def perform_def is_print_def)

lemma follows_checked:
  "follows r s \<Longrightarrow> c \<in> {Inr (), Inl (ExitCall 1)} \<Longrightarrow> s \<noteq> [] \<Longrightarrow> follows (checked c r) s"
  by (auto simp: checked_def follows_def strict_prefix_Nil)

lemma follows_create:
  "follows r s \<Longrightarrow> s \<noteq> [] \<Longrightarrow> follows (create_thread e i msg r) (CreateThread i # s)"
  by (auto simp: create_thread_def follows_def perform_def is_print_def EXIT_FAILURE_def strict_prefix_Nil)

lemma follows_join: "follows r s \<Longrightarrow> follows (join_thread e i msg r) (JoinThread i # s)"
  by (auto simp: join_thread_def follows_def perform_def is_print_def)

lemmas follows_intros = follows_end follows_print follows_checked follows_create follows_join follows_message follows_perform

subsection \<open>The last message\<close>

text \<open>A run that comes to its end has these events last.\<close>

definition run_ends_with :: "main_event list \<Rightarrow> main_run \<Rightarrow> bool" where
  "run_ends_with evs r \<longleftrightarrow> (snd r = Inr () \<longrightarrow> suffix evs (fst r))"

lemma run_ends_with_perform: "run_ends_with evs r \<Longrightarrow> run_ends_with evs (perform ev r)"
  by (auto simp: run_ends_with_def perform_def suffix_Cons)

lemma run_ends_with_checked: "run_ends_with evs r \<Longrightarrow> run_ends_with evs (checked c r)"
  by (auto simp: run_ends_with_def checked_def split: sum.split)

lemma run_ends_with_create: "run_ends_with evs r \<Longrightarrow> run_ends_with evs (create_thread e i msg r)"
  by (auto simp: run_ends_with_def create_thread_def perform_def suffix_Cons)

lemma run_ends_with_join: "run_ends_with evs r \<Longrightarrow> run_ends_with evs (join_thread e i msg r)"
  by (auto simp: run_ends_with_def join_thread_def perform_def suffix_Cons)

lemma run_ends_with_failed: "run_ends_with evs (xs, Inl x)"
  by (simp add: run_ends_with_def)

lemma run_ends_with_last:
  "run_ends_with [ev1, ev2, ev3] (perform ev1 (checked c (perform ev2 (perform ev3 ([], Inr ())))))"
  by (auto simp: run_ends_with_def checked_def perform_def split: sum.split)

lemma main_run_ends:
  "run_ends_with [WaitChild, Print (child_msg (me_fork e) (me_status e)), PthreadExit] (gateway_main e)"
  by (auto simp: gateway_main_def main_threads_def run_ends_with_failed split: sum.split
      intro!: run_ends_with_last run_ends_with_perform run_ends_with_checked run_ends_with_create run_ends_with_join)

text \<open>An exit with a status of one byte is reported as such; a signal is not an exit.\<close>

lemma child_msg_exit:
  "0 \<le> k \<Longrightarrow> k < 256 \<Longrightarrow> child_msg pid (256 * k) =
     ''Child '' @ show_int pid @ '' terminated with exit status '' @ show_int k @ [newline]"
  by (simp add: child_msg_def WIFEXITED_def WEXITSTATUS_def)

lemma child_msg_signal:
  "0 < sig \<Longrightarrow> sig < 128 \<Longrightarrow> child_msg pid sig = ''Child '' @ show_int pid @ '' terminated abnormally'' @ [newline]"
  by (simp add: child_msg_def WIFEXITED_def)

subsection \<open>The order\<close>

lemma parent_follows_script:
  assumes "me_argc e = 2" and "me_fork e \<noteq> 0"
  shows "follows (gateway_main e) main_script"
proof -
  have "gateway_main e = perform Fork (checked (SYSCALL_ERROR (me_fork e)) (
      perform (Print (started_msg (me_pid e))) (perform SbufferInit
           (perform MakeFifo (checked (CHECK_MKFIFO (me_mkfifo e) (me_errno e))
           (perform OpenFifo (checked (FILE_OPEN_ERROR (me_fopen e))
           (perform MutexInit
           ((if me_mutex e \<noteq> 0 then perform (Print ([newline] @ '' mutex init has failed'' @ [newline])) else (\<lambda>r. r))
           (main_threads e
           (perform CloseFifo (checked (FILE_CLOSE_ERROR (me_fclose e))
           (perform SbufferFree
           (perform WaitChild (checked (SYSCALL_ERROR (me_wait e))
           (perform (Print (child_msg (me_fork e) (me_status e)))
           (perform PthreadExit ([], Inr ()))))))))))))))))))"
    using assms by (simp add: gateway_main_def)
  then show ?thesis unfolding main_script_def main_threads_def snd_conv
    by (elim ssubst) (intro follows_intros; simp add: errmacro_results is_print_def del: insert_iff)
qed

end
