(* ===== verification/Sensor_Node.thy ===== *)
theory Sensor_Node
  imports Connmgr_Inv Gateway
begin

text \<open>
  The sensor node, sensor_node.c: its arguments, the connection it opens, and the
  measurements it sends as three separate fields, for the number of turns that the build sets. What one side sends the connection manager
  reads back. The C library's encoding of a \<open>double\<close> is the parameter \<open>bits_of\<close>.
\<close>

definition TEMP_DEV :: int where "TEMP_DEV = 5"
definition INITIAL_TEMPERATURE :: int where "INITIAL_TEMPERATURE = 20"

text \<open>The next temperature; \<open>r\<close> is what \<open>drand48\<close> returns.\<close>

definition next_value :: "(rat \<Rightarrow> double) \<Rightarrow> rat \<Rightarrow> double \<Rightarrow> double" where
  "next_value rnd r v =
     dadd rnd v (dmul rnd (double_of_int TEMP_DEV)
       (ddiv rnd (dsub rnd (Fin r) (Fin (1/2))) (double_of_int 10)))"

text \<open>
  One field: the answer of \<open>sendto\<close> and \<open>errno\<close>, the bytes. The result is what has gone
  out.
\<close>

definition send_field :: "int \<times> int \<Rightarrow> 8 word list \<Rightarrow> addr \<Rightarrow> net \<Rightarrow> 8 word list res" where
  "send_field ans bytes client n =
     bindE (tcp_send (fst ans) (snd ans) client (Some bytes) (Some (int (length bytes))) n) (\<lambda>(code, _).
     if code \<noteq> TCP_NO_ERROR then Inl (ExitCall 1) else Inr (take (nat (fst ans)) bytes))"

definition send_data ::
    "(nat \<Rightarrow> int \<times> int) \<Rightarrow> 16 word \<Rightarrow> 64 word \<Rightarrow> 64 word \<Rightarrow> addr \<Rightarrow> net \<Rightarrow> 8 word list list res" where
  "send_data ans i v t client n =
     bindE (send_field (ans 0) (le_bytes 2 (ucast i)) client n) (\<lambda>b0.
     bindE (send_field (ans 1) (le_bytes 8 v) client n) (\<lambda>b1.
     bindE (send_field (ans 2) (le_bytes 8 t) client n) (\<lambda>b2. Inr [b0, b1, b2])))"

text \<open>What happens in one turn of the loop: the random number, the time, the answers.\<close>

record node_step =
  ns_rand :: rat
  ns_time :: "64 word"
  ns_answers :: "nat \<Rightarrow> int \<times> int"

text \<open>
  The number of turns is a setting of the build, \<open>given\<close>, 0 when it is not set. Up to 1 the counter
  is not changed, so that the loop has no end.
\<close>

definition LOOPS :: "int \<Rightarrow> int" where
  "LOOPS given = (if 1 < given then given else 1)"

definition UPDATE :: "int \<Rightarrow> int \<Rightarrow> int" where
  "UPDATE given i = (if 1 < given then i - 1 else i)"

text \<open>
  The loop, as long as there are steps: what has been sent, and whether the loop has ended. \<open>i\<close> is the
  counter, \<open>did\<close> the id of the node.
\<close>

fun node_loop ::
    "(rat \<Rightarrow> double) \<Rightarrow> (double \<Rightarrow> 64 word) \<Rightarrow> int \<Rightarrow> 16 word \<Rightarrow> addr \<Rightarrow> net \<Rightarrow> node_step list \<Rightarrow> int \<Rightarrow> double \<Rightarrow>
     (8 word list list \<times> bool) res" where
  "node_loop rnd bits_of given did client n [] i v = Inr ([], i = 0)"
| "node_loop rnd bits_of given did client n (s # ss) i v =
     (if i = 0 then Inr ([], True)
      else let v' = next_value rnd (ns_rand s) v in
        bindE (send_data (ns_answers s) did (bits_of v') (ns_time s) client n) (\<lambda>bs.
        bindE (node_loop rnd bits_of given did client n ss (UPDATE given i) v') (\<lambda>(rest, ended).
        Inr (bs @ rest, ended))))"

text \<open>
  \<open>main\<close>: \<open>args\<close> are the arguments after the program's name, \<open>sh\<close> and \<open>cl\<close> what \<open>shutdown\<close> and \<open>close\<close>
  answer. The address is copied with \<open>strncpy\<close> into fifteen characters. The result is what has been
  sent, the status of the exit, \<open>None\<close> as long as the loop runs, and the sockets.
\<close>

definition node_main ::
    "(rat \<Rightarrow> double) \<Rightarrow> (double \<Rightarrow> 64 word) \<Rightarrow> int \<Rightarrow> active_answers \<Rightarrow> int \<Rightarrow> int \<Rightarrow> node_step list \<Rightarrow> string list \<Rightarrow>
     net \<Rightarrow> (8 word list list \<times> int option \<times> net) res" where
  "node_main rnd bits_of given os sh cl steps args n =
     (case args of
        [a1, a2, a3, a4] \<Rightarrow>
          bindE (tcp_active_open os (atoi a4) (Some (take 15 a3)) n) (\<lambda>(code, client, n1).
          if code \<noteq> TCP_NO_ERROR then Inl (ExitCall 1)
          else case client of None \<Rightarrow> Inl NullDeref
          | Some c \<Rightarrow>
            bindE (node_loop rnd bits_of given (word_of_int (atoi a1)) c n1 steps (LOOPS given)
              (double_of_int INITIAL_TEMPERATURE)) (\<lambda>(bs, ended).
            if \<not> ended then Inr (bs, None, n1)
            else bindE (tcp_close sh cl c n1) (\<lambda>(code, _, n2).
              if code \<noteq> TCP_NO_ERROR then Inl (ExitCall 1) else Inr (bs, Some 0, n2))))
      | _ \<Rightarrow> Inl (ExitCall 0))"

text \<open>What \<open>main\<close> prints: the help when the number of arguments is wrong, and otherwise nothing.\<close>

definition node_help :: string where
  "node_help = ''Use this program with 4 command line options: '' @ [newline] @
     help_option ''ID'' ''a unique sensor node ID'' @
     help_option ''sleep time'' ''node sleep time (in sec) between two measurements'' @
     help_option ''server IP'' ''TCP server IP address'' @
     help_option ''server port'' ''TCP server port number''"

definition node_output :: "string list \<Rightarrow> string" where
  "node_output args = (if length args \<noteq> 4 then node_help else [])"

lemma node_usage:
  "length args \<noteq> 4 \<Longrightarrow>
     node_main rnd bits_of given os sh cl steps args n = Inl (ExitCall 0) \<and> node_output args = node_help"
  by (auto simp: node_main_def node_output_def split: list.split)

section \<open>What is sent is received\<close>

lemma send_field_ok:
  assumes b: "bound n p s" and all: "fst ans = int (length bytes)" and ne: "bytes \<noteq> []"
  shows "send_field ans bytes p n = Inr bytes"
  using bound_read [OF b] b all ne by (simp add: send_field_def tcp_send_def send_code_def bound_def)

lemma send_data_ok:
  assumes b: "bound n p s" and all: "fst (ans 0) = 2" "fst (ans 1) = 8" "fst (ans 2) = 8"
  shows "send_data ans i v t p n = Inr [le_bytes 2 (ucast i), le_bytes 8 v, le_bytes 8 t]"
proof -
  have "le_bytes 2 (ucast i) \<noteq> []" "le_bytes 8 v \<noteq> []" "le_bytes 8 t \<noteq> []"
    by (metis length_le_bytes list.size(3) zero_neq_numeral)+
  then show ?thesis using all by (simp add: send_data_def send_field_ok [OF b])
qed

lemma tcp_receive_bytes:
  assumes b: "bound n p s" and r: "ra_bytes r = Some bs" "bs \<noteq> []" and l: "length old = length bs"
  shows "tcp_receive r p (Some old) (Some k) n = Inr (TCP_NO_ERROR, Some (int (length bs)), Some bs)"
  using bound_read [OF b] b r l
  by (simp add: tcp_receive_def receive_code_def ra_count_def bound_def)

lemma receive_sent:
  assumes b: "bound n p s"
    and r: "ra_bytes (recv 0) = Some (le_bytes 2 (ucast i))" "ra_bytes (recv 1) = Some (le_bytes 8 v)"
      "ra_bytes (recv 2) = Some (le_bytes 8 t)"
    and old: "length (fst old) = 2" "length (fst (snd old)) = 8" "length (snd (snd old)) = 8"
  shows "receive_data recv old p n =
     Inr (TCP_NO_ERROR, 8, \<lparr>data_id = i, data_value = double_of_bits v, data_ts = t\<rparr>)"
proof -
  have ne: "le_bytes 2 (ucast i) \<noteq> []" "le_bytes 8 v \<noteq> []" "le_bytes 8 t \<noteq> []"
    by (metis length_le_bytes list.size(3) zero_neq_numeral)+
  show ?thesis
    using tcp_receive_bytes [OF b r(1) ne(1), of "fst old" 2] tcp_receive_bytes [OF b r(2) ne(2), of "fst (snd old)" 8]
      tcp_receive_bytes [OF b r(3) ne(3), of "snd (snd old)" 8] old
    by (simp add: receive_data_def le_word_bytes_8 le_word_bytes_2)
qed

end
