(* ===== verification/File_Creator.thy ===== *)
theory File_Creator
  imports Datamgr_Run Sensor_Db
begin

text \<open>
  The generator of test files, file_creator.c: the room map, which the data manager reads, and
  the binary file of measurements, which \<open>insert_sensor_from_file\<close> reads.
\<close>

definition NUM_MEASUREMENTS :: nat where "NUM_MEASUREMENTS = 100"
definition SLEEP_TIME :: "64 word" where "SLEEP_TIME = 30"

definition room_ids :: "16 word list" where
  "room_ids = [1, 2, 3, 4, 11, 12, 13, 14]"

definition sensor_ids :: "16 word list" where
  "sensor_ids = [15, 21, 37, 49, 112, 129, 132, 142]"

definition start_temperatures :: "double list" where
  "start_temperatures = map double_of_int [15, 17, 18, 19, 20, 23, 24, 25]"

text \<open>The text file room_sensor.map.\<close>

definition room_sensor_map :: string where
  "room_sensor_map = map_text (zip room_ids sensor_ids)"

text \<open>
  The binary file: in each round one record per sensor, then the next temperatures.
  \<open>rand i j\<close> is what \<open>drand48\<close> returns, \<open>bits_of\<close> the encoding of a \<open>double\<close>.
\<close>

definition drift :: "(rat \<Rightarrow> double) \<Rightarrow> rat \<Rightarrow> double \<Rightarrow> double" where
  "drift rnd r v =
     dadd rnd v (dmul rnd (double_of_int 5) (ddiv rnd (dsub rnd (Fin r) (Fin (1/2))) (double_of_int 10)))"

fun measurement_rounds ::
    "(rat \<Rightarrow> double) \<Rightarrow> (double \<Rightarrow> 64 word) \<Rightarrow> (nat \<Rightarrow> nat \<Rightarrow> rat) \<Rightarrow> nat \<Rightarrow> 64 word \<Rightarrow> double list \<Rightarrow>
     (16 word \<times> 64 word \<times> 64 word) list" where
  "measurement_rounds rnd bits_of rand 0 starttime temps = []"
| "measurement_rounds rnd bits_of rand (Suc k) starttime temps =
     map (\<lambda>(i, v). (i, bits_of v, starttime)) (zip sensor_ids temps) @
     measurement_rounds rnd bits_of rand k (starttime + SLEEP_TIME)
       (map (\<lambda>(j, v). drift rnd (rand k j) v) (zip [0..<length temps] temps))"

definition sensor_data_file ::
    "(rat \<Rightarrow> double) \<Rightarrow> (double \<Rightarrow> 64 word) \<Rightarrow> (nat \<Rightarrow> nat \<Rightarrow> rat) \<Rightarrow> 64 word \<Rightarrow> 8 word list" where
  "sensor_data_file rnd bits_of rand starttime =
     concat (map record_bytes
       (measurement_rounds rnd bits_of rand NUM_MEASUREMENTS starttime start_temperatures))"

text \<open>
  The whole program: the two files, what it prints and its exit status. A file that cannot be opened
  (a NULL pointer, 0) ends the process.
\<close>

record creator_end =
  cr_map :: "string option"
  cr_data :: "8 word list option"
  cr_printed :: string
  cr_status :: int

definition FILE_ERROR :: "nat \<Rightarrow> string \<Rightarrow> creator_end \<Rightarrow> (creator_end \<Rightarrow> creator_end) \<Rightarrow> creator_end" where
  "FILE_ERROR fp error_msg st k =
     (if fp = 0 then st\<lparr>cr_printed := cr_printed st @ error_msg @ [newline], cr_status := 1\<rparr> else k st)"

definition file_creator_main ::
    "(rat \<Rightarrow> double) \<Rightarrow> (double \<Rightarrow> 64 word) \<Rightarrow> (nat \<Rightarrow> nat \<Rightarrow> rat) \<Rightarrow> 64 word \<Rightarrow> nat \<Rightarrow> nat \<Rightarrow> creator_end" where
  "file_creator_main rnd bits_of rand starttime fp_text fp_bin =
     FILE_ERROR fp_text (''Couldn't create room_sensor.map'' @ [newline])
       \<lparr>cr_map = None, cr_data = None, cr_printed = [], cr_status = 0\<rparr> (\<lambda>st.
     FILE_ERROR fp_bin (''Couldn't create sensor_data'' @ [newline])
       (st\<lparr>cr_map := Some room_sensor_map\<rparr>) (\<lambda>st1.
     st1\<lparr>cr_data := Some (sensor_data_file rnd bits_of rand starttime)\<rparr>))"

lemma file_creator_outcome:
  "cr_status (file_creator_main rnd bits_of rand st fp_text fp_bin) = (if fp_text = 0 \<or> fp_bin = 0 then 1 else 0)"
  "cr_map (file_creator_main rnd bits_of rand st fp_text fp_bin) = (if fp_text = 0 then None else Some room_sensor_map)"
  "cr_data (file_creator_main rnd bits_of rand st fp_text fp_bin) =
     (if fp_text = 0 \<or> fp_bin = 0 then None else Some (sensor_data_file rnd bits_of rand st))"
  by (simp_all add: file_creator_main_def FILE_ERROR_def)

lemma measurement_rounds_length:
  "length temps = 8 \<Longrightarrow> length (measurement_rounds rnd bits_of rand k starttime temps) = 8 * k"
  by (induction k arbitrary: starttime temps) (simp_all add: sensor_ids_def)

lemma measurement_rounds_ids:
  "length temps = 8 \<Longrightarrow>
     map fst (measurement_rounds rnd bits_of rand k starttime temps) = concat (replicate k sensor_ids)"
proof (induction k arbitrary: starttime temps)
  case (Suc k)
  have "map fst (map (\<lambda>(i, v). (i, bits_of v, starttime)) (zip sensor_ids temps)) = map fst (zip sensor_ids temps)"
    by (simp add: case_prod_beta)
  also have "\<dots> = sensor_ids" using Suc.prems by (simp add: sensor_ids_def)
  finally show ?case using Suc by simp
qed simp

lemma map_distinct: "distinct (map snd (zip room_ids sensor_ids))"
  by (simp add: room_ids_def sensor_ids_def)

end
