(* ===== verification/Log_Messages.thy ===== *)
theory Log_Messages
  imports Datamgr_Claims Connmgr_Claims Gateway
begin

text \<open>
  The messages that the components write to the log: each is one line that fits the buffer of the
  log process, as long as an average has at most two hundred digits.
\<close>

section \<open>Printed numbers\<close>

lemma not_newline_digit: "is_digit c \<Longrightarrow> c \<noteq> newline"
  by (auto simp: is_digit_def newline_def)

lemma newline_not_in_number: "newline \<notin> set (show_nat n)" "newline \<notin> set (pad6 n)"
proof -
  show "newline \<notin> set (show_nat n)" using show_nat_digits [of newline n] not_newline_digit by blast
  have "\<forall>c \<in> set (pad6 n). is_digit c" by (simp add: pad6_def)
  then show "newline \<notin> set (pad6 n)" using not_newline_digit by blast
qed

lemma unat_short: "length (show_nat (unat (i :: 16 word))) \<le> 5"
proof -
  have "unat i < 2 ^ LENGTH(16)" by (rule unsigned_less)
  then have "unat i < 10 ^ Suc 4" by simp
  from show_nat_digits_le [OF this] show ?thesis by simp
qed

lemma fmt_d16_text: "newline \<notin> set (fmt_d16 i)" "length (fmt_d16 i) \<le> 5"
proof -
  have f: "fmt_d16 i = show_nat (unat i)" by (simp add: fmt_d16_def show_int_def)
  show "newline \<notin> set (fmt_d16 i)" "length (fmt_d16 i) \<le> 5"
    unfolding f by (rule newline_not_in_number, rule unat_short)
qed

lemma fmt_hu_text: "newline \<notin> set (fmt_hu i)" "length (fmt_hu i) \<le> 5"
  by (simp_all add: fmt_hu_def newline_not_in_number unat_short)

lemma fmt_ld_text: "newline \<notin> set (fmt_ld t)" "length (fmt_ld t) \<le> 20"
proof -
  show "newline \<notin> set (fmt_ld t)"
    using newline_not_in_number by (simp add: fmt_ld_def show_int_def) (simp add: newline_def)
  have "- (2 ^ 63) \<le> sint t" "sint t < 2 ^ 63"
    using sint_greater_eq [of t] sint_lt [of t] by simp_all
  then have "- (10 ^ 19) < sint t" "sint t < 10 ^ Suc 19" by simp_all
  from fmt_ld_length [OF this] show "length (fmt_ld t) \<le> 20" by simp
qed

text \<open>The averages that the data manager may report: infinite, or with at most two hundred digits.\<close>

fun printable :: "double \<Rightarrow> bool" where
  "printable (Fin q) \<longleftrightarrow> \<bar>q\<bar> < 10 ^ 200 - 1"
| "printable NaN \<longleftrightarrow> False"
| "printable _ \<longleftrightarrow> True"

lemma fmt_f_text:
  assumes "printable v"
  shows "newline \<notin> set (fmt_f v)" "length (fmt_f v) \<le> 208"
proof -
  show "newline \<notin> set (fmt_f v)"
    using newline_not_in_number by (cases v) (auto simp: Let_def newline_def)
  show "length (fmt_f v) \<le> 208"
  proof (cases v)
    case (Fin q)
    then have "\<bar>q\<bar> < 10 ^ Suc 199 - 1" using assms by simp
    from fmt_f_length [OF this] show ?thesis using Fin by simp
  qed (use assms in simp_all)
qed

section \<open>The messages of the components\<close>

lemma log_messageI: "newline \<notin> set t \<Longrightarrow> length t < 399 \<Longrightarrow> log_message (t @ [newline])"
  by (auto simp: log_message_def REC_BUF_SIZE_def)

lemma connmgr_log_messages:
  "log_message (opened_msg i)" "log_message (closed_msg i)" "log_message (timeout_msg i)"
  using log_messageI [of "''A sensor node with '' @ fmt_d16 i @ '' has opened a new connection''"]
    log_messageI [of "''Client sensor id '' @ fmt_d16 i @ '' closed the TCP connection''"]
    log_messageI [of "''Client sensor id '' @ fmt_d16 i @ '' excessed the TIMEOUT limit''"] fmt_d16_text [of i]
  by (simp_all add: opened_msg_def closed_msg_def timeout_msg_def newline_def)

lemma storagemgr_log_messages:
  "log_message established_msg" "log_message lost_msg" "log_message unable_msg" "log_message created_msg"
  using log_messageI [of "''Connection to SQL server established''"] log_messageI [of "''Connection to SQL server lost''"]
    log_messageI [of "''Unable to connect DB''"] log_messageI [of "''New table '' @ TABLE_NAME @ '' created''"]
  by (simp_all add: established_msg_def lost_msg_def unable_msg_def created_msg_def TABLE_NAME_def newline_def)

lemma invalid_id_log_message: "log_message (invalid_id_msg i)"
  using log_messageI [of "''Received sensor data with invalid sensor node ID '' @ fmt_d16 i @ '' ''"] fmt_d16_text [of i]
  by (simp add: invalid_id_msg_def newline_def)

lemma too_cold_log_message:
  assumes "printable v"
  shows "log_message (too_cold_msg i v)"
  using log_messageI [of "''The sensor node with '' @ fmt_hu i @ '' reports it'' @ [CHR 0xE2, CHR 0x80, CHR 0x99] @
      ''s too cold (running avg temperature = '' @ fmt_f v @ '') ''"] fmt_hu_text [of i] fmt_f_text [OF assms]
  by (simp add: too_cold_msg_def newline_def)

lemma too_warm_log_message:
  assumes "printable v"
  shows "log_message (too_warm_msg room i v t)"
  using log_messageI [of "''It'' @ [CHR 0x27] @ ''s too warm in room '' @ fmt_hu room @ '' for sensor '' @ fmt_hu i @
      '' with a running average of '' @ fmt_f v @ '' on '' @ fmt_ld t @ '' ''"]
    fmt_hu_text [of room] fmt_hu_text [of i] fmt_f_text [OF assms] fmt_ld_text [of t]
  by (simp add: too_warm_msg_def newline_def)

text \<open>Every message that a component of the gateway can write, with a printable average.\<close>

inductive gateway_message :: "string \<Rightarrow> bool" where
  opened: "gateway_message (opened_msg i)"
| closed: "gateway_message (closed_msg i)"
| timeout: "gateway_message (timeout_msg i)"
| invalid: "gateway_message (invalid_id_msg i)"
| cold: "printable v \<Longrightarrow> gateway_message (too_cold_msg i v)"
| warm: "printable v \<Longrightarrow> gateway_message (too_warm_msg room i v t)"
| unable: "gateway_message unable_msg"
| established: "gateway_message established_msg"
| created: "gateway_message created_msg"
| lost: "gateway_message lost_msg"

lemma gateway_message_line: "gateway_message m \<Longrightarrow> log_message m"
  by (induction rule: gateway_message.induct)
    (simp_all add: connmgr_log_messages storagemgr_log_messages invalid_id_log_message too_cold_log_message
      too_warm_log_message)

end
