(* ===== verification/Gateway_Claims.thy ===== *)
theory Gateway_Claims
  imports Sensor_Node File_Creator Log_Messages
begin

text \<open>
  Properties of the smaller programs and of what passes between the components: from the sensor
  node to the connection manager, from the generator of test files to the data manager and the
  database, from the components through the pipe to the log, and the storage manager's connection.
\<close>

section \<open>From the sensor node to the gateway\<close>


text \<open>The temperatures and times of the turns of the node's loop, and the fields of one of them.\<close>

fun node_readings :: "(rat \<Rightarrow> double) \<Rightarrow> node_step list \<Rightarrow> double \<Rightarrow> (double \<times> 64 word) list" where
  "node_readings rnd [] v = []"
| "node_readings rnd (s # ss) v =
     (next_value rnd (ns_rand s) v, ns_time s) # node_readings rnd ss (next_value rnd (ns_rand s) v)"



lemma length_node_readings [simp]: "length (node_readings rnd ss v) = length ss"
  by (induction ss arbitrary: v) simp_all















section \<open>The test files\<close>

text \<open>C29. The room map that the generator writes is read back by the data manager as it was meant: eight
  sensors, each of which is in its room.\<close>

theorem room_map_read_back:
  assumes "26 \<le> n" and "fp_text \<noteq> 0"
  shows "\<exists>txt sl bd h. cr_map (file_creator_main rnd bits_of rand st fp_text fp_bin) = Some txt \<and>
     datamgr_start raw raw_data txt r0 s0 (empty_heap n) = Inr (sl, bd, h) \<and>
     datamgr_get_total_sensors h sl = Inr 8 \<and>
     (\<forall>k < 8. datamgr_get_room_id h (sensor_ids ! k) sl = Inr (room_ids ! k))"
proof -
  let ?ps = "zip room_ids sensor_ids"
  let ?ss = "add_sensors raw 2 ?ps []"
  have ps: "3 * length ?ps + 2 + 2 * length ([] :: sensor_data_t list) \<le> n" "length ?ps = 8"
    using assms by (simp_all add: room_ids_def sensor_ids_def)
  have "length room_ids = 8" "length sensor_ids = 8" by (simp_all add: room_ids_def sensor_ids_def)
  then have nth: "?ps ! k = (room_ids ! k, sensor_ids ! k)" if "k < 8" for k using that by simp
  from whole_run [OF ps(1), of raw raw_data r0 s0 Fin] obtain sl bd h es where
    run: "datamgr_start raw raw_data room_sensor_map r0 s0 (empty_heap n) = Inr (sl, bd, h)" "sensors_repr h sl es ?ss"
    unfolding room_sensor_map_def by blast
  have l: "length ?ss = 8"
    using arg_cong [OF new_sensors(1) [of raw 2 ?ps], of length] ps(2) map_order_short [of ?ps] by simp
  have r: "sensors_repr h sl es (snd (store_run Fin [] ?ss))" using run(2) by simp
  have "datamgr_get_room_id h (sensor_ids ! k) sl = Inr (room_ids ! k)" if k: "k < 8" for k
  proof -
    have "?ps ! k \<in> set ?ps" using k ps(2) by (intro nth_mem) simp
    then obtain j where "j < length ?ss" "s_id (?ss ! j) = sensor_ids ! k" "s_room (?ss ! j) = room_ids ! k"
      by (rule added_sensor [where raw = raw and a = 2]) (use nth [OF k] in simp)
    then show ?thesis
      using queries_after_run [OF r added_sensors_distinct [OF map_distinct] _ refl] by metis
  qed
  moreover have "datamgr_get_total_sensors h sl = Inr 8" using total_sensors [OF run(2)] l by simp
  ultimately show ?thesis using run(1) assms(2) by (simp add: file_creator_outcome)
qed

lemma room_map_read_back_witness:
  "\<exists>txt sl bd h. cr_map (file_creator_main Fin (\<lambda>_. 0) (\<lambda>_ _. 0) 0 1 0) = Some txt \<and>
     datamgr_start raw_zero raw_measurement txt 0 0 (empty_heap 30) = Inr (sl, bd, h) \<and>
     datamgr_get_total_sensors h sl = Inr 8 \<and>
     (\<forall>k < 8. datamgr_get_room_id h (sensor_ids ! k) sl = Inr (room_ids ! k))"
  by (rule room_map_read_back) simp_all

text \<open>C30. The binary file of measurements that the generator writes is read back record by record, as is any
  file of whole records: each record becomes one INSERT, with the id, the bits of the temperature
  and the time that were written, until one of them fails.\<close>

theorem measurement_file_read_back:
  "insert_sensor_from_file sq (concat (map record_bytes rs)) s0 v0 t0 w = insert_all sq rs w \<and>
   insert_sensor_from_file sq (sensor_data_file rnd bits_of rand starttime) s0 v0 t0 w =
     insert_all sq (measurement_rounds rnd bits_of rand 100 starttime start_temperatures) w \<and>
   map fst (measurement_rounds rnd bits_of rand 100 starttime start_temperatures) = concat (replicate 100 sensor_ids)"
proof (intro conjI)
  show "insert_sensor_from_file sq (concat (map record_bytes rs)) s0 v0 t0 w = insert_all sq rs w"
    by (rule insert_from_file_records)
  show "insert_sensor_from_file sq (sensor_data_file rnd bits_of rand starttime) s0 v0 t0 w =
      insert_all sq (measurement_rounds rnd bits_of rand 100 starttime start_temperatures) w"
    unfolding sensor_data_file_def NUM_MEASUREMENTS_def by (rule insert_from_file_records)
  show "map fst (measurement_rounds rnd bits_of rand 100 starttime start_temperatures) = concat (replicate 100 sensor_ids)"
    by (rule measurement_rounds_ids) (simp add: start_temperatures_def)
qed

section \<open>The database\<close>



text \<open>C40. When the database opens but the table cannot be created, the storage manager gives up after three
  attempts with two pauses between them: it tells the gateway to stop, stores nothing, and keeps the
  three handles that it has opened and not closed.\<close>

theorem storage_manager_gives_up:
  assumes "\<forall>w. fst (sqlite3_open sq w) = SQLITE_OK"
    and "\<forall>w. fst (sqlite3_exec sq (create_sql True) 0 w) \<noteq> SQLITE_OK"
  shows "\<exists>s'. start_storagemgr_thread sq ds s = (True, 2, s') \<and> open_handles s' = open_handles s + 3 \<and>
     db_msgs s' = db_msgs s @ replicate 3 established_msg"
proof -
  have init: "\<exists>x'. init_connection sq True x = (False, x') \<and> open_handles x' = Suc (open_handles x) \<and>
      db_msgs x' = db_msgs x @ [established_msg]" for x
  proof -
    obtain rc w where o: "sqlite3_open sq (db_world x) = (rc, w)" by fastforce
    obtain rc2 w2 where e: "sqlite3_exec sq (create_sql True) 0 w = (rc2, w2)" by fastforce
    have "rc = SQLITE_OK" "rc2 \<noteq> SQLITE_OK" using assms(1) [rule_format, of "db_world x"] assms(2) [rule_format, of w] o e by simp_all
    then show ?thesis using o e by (simp add: init_connection_def db_log_def)
  qed
  obtain s0 where s0: "init_connection sq True s = (False, s0)" "open_handles s0 = Suc (open_handles s)"
      "db_msgs s0 = db_msgs s @ [established_msg]" using init by blast
  obtain s1 where s1: "init_connection sq True s0 = (False, s1)" "open_handles s1 = Suc (open_handles s0)"
      "db_msgs s1 = db_msgs s0 @ [established_msg]" using init by blast
  obtain s2 where s2: "init_connection sq True s1 = (False, s2)" "open_handles s2 = Suc (open_handles s1)"
      "db_msgs s2 = db_msgs s1 @ [established_msg]" using init by blast
  have "connect_loop sq 0 0 s = (False, 2, s2)" by (simp add: connect_loop_unfold s0(1) s1(1) s2(1))
  then show ?thesis using s0 s1 s2 by (simp add: start_storagemgr_thread_def numeral_3_eq_3)
qed

text \<open>A database that counts the statements and refuses all of them.\<close>

definition refusing_db :: "nat sqlite" where
  "refusing_db = \<lparr>sqlite3_open = (\<lambda>w. (0, w)), sqlite3_exec = (\<lambda>sql f w. (1, Suc w)), sqlite3_close = (\<lambda>w. w)\<rparr>"

lemma storage_manager_gives_up_witness:
  "\<exists>s'. start_storagemgr_thread refusing_db [reading 15 20 100] \<lparr>db_world = 0, open_handles = 0, db_msgs = []\<rparr> = (True, 2, s') \<and>
     open_handles s' = 3"
  using storage_manager_gives_up [of refusing_db "[reading 15 20 100]" "\<lparr>db_world = 0, open_handles = 0, db_msgs = []\<rparr>"]
  by (auto simp: refusing_db_def SQLITE_OK_def)

section \<open>The log\<close>


text \<open>A log process that finds the FIFO made by the parent.\<close>

definition child_fine :: child_env where
  "child_fine = \<lparr>ce_mkfifo = -1, ce_errno = EEXIST, ce_fpread = 1, ce_flog = 2, ce_close_pipe = 0, ce_close_log = 0\<rparr>"



section \<open>The main process\<close>

text \<open>The calls that must not fail: the joins and the initialisation of the mutex are not among them.\<close>

definition main_ok :: "main_env \<Rightarrow> bool" where
  "main_ok e \<longleftrightarrow> me_fork e \<noteq> -1 \<and> (me_mkfifo e = -1 \<longrightarrow> me_errno e = EEXIST) \<and> me_fopen e \<noteq> 0 \<and>
     (\<forall>i \<in> {CONMGR_THREAD, DATAMGR_THREAD, STORAGE_THREAD}. me_create e i = 0) \<and>
     me_fclose e \<noteq> -1 \<and> me_wait e \<noteq> -1"

lemma snd_checked: "snd (checked c r) = Inr () \<longleftrightarrow> c = Inr () \<and> snd r = Inr ()"
  by (cases c) (simp_all add: checked_def)

lemma snd_perform: "snd (perform ev r) = snd r"
  by (simp add: perform_def)

lemma snd_create: "snd (create_thread e i msg r) = Inr () \<longleftrightarrow> me_create e i = 0 \<and> snd r = Inr ()"
  by (simp add: create_thread_def perform_def)

lemma snd_join: "snd (join_thread e i msg r) = snd r"
  by (simp add: join_thread_def perform_def)

lemma main_ends_well:
  assumes "me_argc e = 2" and "me_fork e \<noteq> 0"
  shows "snd (gateway_main e) = Inr () \<longleftrightarrow> main_ok e"
  using assms
  by (simp add: gateway_main_def main_threads_def snd_checked snd_perform snd_create snd_join main_ok_def errmacro_defs
      split: if_splits)

text \<open>C38. The order of events of the gateway's main process, whatever the system answers. It performs the
  script or an initial part of it and then exits with status 1: the shared buffer exists before the
  first thread, is released after the three joins and the end of the pipe, and only then the log
  process is waited for. It comes to the end exactly when no call fails whose result it checks;
  a failing join or mutex only prints a message. The last thing it does before it ends is to print
  how the log process has ended: its exit status, or that a signal has ended it.\<close>

theorem main_order:
  assumes "me_argc e = 2" and "me_fork e \<noteq> 0"
  shows "(let done_events = filter (\<lambda>ev. \<not> is_print ev) (fst (gateway_main e)) in
     if main_ok e then snd (gateway_main e) = Inr () \<and> done_events = main_script \<and>
       (\<exists>before. fst (gateway_main e) = before @ [WaitChild, Print (child_msg (me_fork e) (me_status e)), PthreadExit])
     else snd (gateway_main e) = Inl (ExitCall 1) \<and> strict_prefix done_events main_script) \<and>
   (\<forall>k \<in> {0..<256}. child_msg (me_fork e) (256 * k) =
     ''Child '' @ show_int (me_fork e) @ '' terminated with exit status '' @ show_int k @ [newline]) \<and>
   (\<forall>sig \<in> {1..<128}. child_msg (me_fork e) sig =
     ''Child '' @ show_int (me_fork e) @ '' terminated abnormally'' @ [newline])"
proof (intro conjI ballI)
  have "\<exists>before. fst (gateway_main e) = before @ [WaitChild, Print (child_msg (me_fork e) (me_status e)), PthreadExit]"
    if "snd (gateway_main e) = Inr ()"
    using main_run_ends [of e] that by (auto simp: run_ends_with_def suffix_def)
  then show "let done_events = filter (\<lambda>ev. \<not> is_print ev) (fst (gateway_main e)) in
     if main_ok e then snd (gateway_main e) = Inr () \<and> done_events = main_script \<and>
       (\<exists>before. fst (gateway_main e) = before @ [WaitChild, Print (child_msg (me_fork e) (me_status e)), PthreadExit])
     else snd (gateway_main e) = Inl (ExitCall 1) \<and> strict_prefix done_events main_script"
    using parent_follows_script [OF assms] main_ends_well [OF assms] by (auto simp: follows_def)
qed (simp_all add: child_msg_exit child_msg_signal)

lemma main_order_witness:
  "snd (gateway_main \<lparr>me_argc = 2, me_pid = 100, me_fork = 77, me_mkfifo = 0, me_errno = 0, me_fopen = 1, me_mutex = 0,
     me_create = (\<lambda>i. if i = DATAMGR_THREAD then 11 else 0), me_join = (\<lambda>_. 0), me_fclose = 0, me_wait = 0, me_status = 0,
     me_child = child_fine, me_clock = (\<lambda>_. 0), me_pipe = []\<rparr>) = Inl (ExitCall 1)"
proof -
  let ?e = "\<lparr>me_argc = 2, me_pid = 100, me_fork = 77, me_mkfifo = 0, me_errno = 0, me_fopen = 1, me_mutex = 0,
     me_create = (\<lambda>i. if i = DATAMGR_THREAD then 11 else 0), me_join = (\<lambda>_. 0), me_fclose = 0, me_wait = 0, me_status = 0,
     me_child = child_fine, me_clock = (\<lambda>_. 0), me_pipe = []\<rparr>"
  have "\<not> main_ok ?e" by (simp add: main_ok_def)
  then show ?thesis using main_order [of ?e] by (simp add: Let_def)
qed

section \<open>Sockets\<close>

text \<open>C37. Opening a server socket either succeeds with a new struct that knows the new descriptor, or gives
  back every struct. When \<open>bind\<close> or \<open>listen\<close> fails the descriptor stays open
  although no struct knows it any more; and the port 65536 passes the check of the range and is given
  to \<open>bind\<close> as port 0.\<close>

theorem passive_open_results:
  assumes "heap_ok (net_heap n)" and "0 < budget (net_heap n)" and "1024 \<le> prt" and "prt \<le> 65536"
    and "0 \<le> pa_socket os"
  shows "\<exists>code sock n'. tcp_passive_open os prt n = Inr (code, sock, n') \<and>
     open_sds n' = pa_socket os # open_sds n \<and>
     (code = TCP_NO_ERROR \<longleftrightarrow> pa_bind os (word_of_int prt) = 0 \<and> pa_listen os = 0) \<and>
     (case sock of
        None \<Rightarrow> code = TCP_SOCKOP_ERROR \<and> cells (net_heap n') = cells (net_heap n)
      | Some p \<Rightarrow> code = TCP_NO_ERROR \<and> tcp_get_sd p n' = Inr (TCP_NO_ERROR, Some (pa_socket os)) \<and>
          tcp_get_port p n' = Inr (TCP_NO_ERROR, Some prt))"
proof -
  have port: "MIN_PORT \<le> prt" "prt \<le> MAX_PORT" using assms(3,4) by (simp_all add: MIN_PORT_def MAX_PORT_def)
  show ?thesis
  proof (cases "pa_bind os (word_of_int prt) = 0 \<and> pa_listen os = 0")
    case True
    then obtain n' where n': "tcp_passive_open os prt n = Inr (TCP_NO_ERROR, Some (next_addr (net_heap n)), n')"
        "bound n' (next_addr (net_heap n)) \<lparr>cookie = MAGIC_COOKIE, sd = pa_socket os, ip_addr = 0, port = prt\<rparr>"
        "open_sds n' = pa_socket os # open_sds n"
      using passive_open_ok [OF assms(1,2) port assms(5)] by blast
    show ?thesis using n'(1,3) bound_query [OF n'(2), of sd] bound_query [OF n'(2), of port] True
      by (simp add: tcp_get_sd_def tcp_get_port_def)
  next
    case False
    then obtain n' where "tcp_passive_open os prt n = Inr (TCP_SOCKOP_ERROR, None, n')"
        "cells (net_heap n') = cells (net_heap n)" "open_sds n' = pa_socket os # open_sds n"
      using passive_open_leak [OF assms(1,2) port assms(5)] by blast
    then show ?thesis using False by (auto simp: tcp_codes)
  qed
qed

lemma passive_open_results_witness:
  "\<exists>n'. tcp_passive_open (os_fine\<lparr>pa_bind := (\<lambda>p. if p = 0 then -1 else 0)\<rparr>) 65536 net0 = Inr (TCP_SOCKOP_ERROR, None, n') \<and>
     open_sds n' = [3]"
proof -
  let ?os = "os_fine\<lparr>pa_bind := (\<lambda>p. if p = 0 then -1 else 0)\<rparr>"
  obtain code sock n' where r: "tcp_passive_open ?os 65536 net0 = Inr (code, sock, n')" "open_sds n' = [3]"
      "code \<noteq> TCP_NO_ERROR"
      "case sock of None \<Rightarrow> code = TCP_SOCKOP_ERROR \<and> cells (net_heap n') = cells (net_heap net0)
       | Some p \<Rightarrow> code = TCP_NO_ERROR \<and> tcp_get_sd p n' = Inr (TCP_NO_ERROR, Some (pa_socket ?os)) \<and>
           tcp_get_port p n' = Inr (TCP_NO_ERROR, Some 65536)"
    using passive_open_results [of net0 65536 ?os] by auto
  then show ?thesis by (cases sock) auto
qed

end
