(* ===== verification/Main_Threads.thy ===== *)
theory Main_Threads
  imports Gateway Connmgr_Claims Datamgr_Claims Threads
begin

text \<open>
  The functions of main.c that the threads run: each calls one component and does what comes before
  and after it. That of the storage manager is in the theory Gateway.
\<close>

text \<open>
  \<open>start_conmgr_thread\<close>: the port is the argument of the program. The result is the value of the
  flag \<open>thread_result_connmgr\<close> that the thread has written, none while its loop has not ended,
  and the state that the connection manager leaves.
\<close>

definition start_conmgr_thread ::
    "bool \<Rightarrow> bool \<Rightarrow> passive_answers \<Rightarrow> 64 word \<Rightarrow> poll_d \<Rightarrow> sensor_socket_t \<Rightarrow> string \<Rightarrow> net \<Rightarrow> conn_heap \<Rightarrow>
     (int \<times> round_env) list \<Rightarrow> (int option \<times> conn_state) res" where
  "start_conmgr_thread opened got_memory os now raw raw_local prt n h rounds =
     (let server_port = atoi prt in
      bindE (connmgr_listen opened got_memory os now raw raw_local server_port n h rounds) (\<lambda>(ended, st).
      Inr (if ended then Some THREAD_ENDED else None, st)))"

text \<open>
  \<open>start_datamgr_thread\<close>: \<open>fp\<close> is the result of \<open>fopen\<close>, \<open>file_result\<close> that of \<open>fclose\<close>; the
  file of the room map holds \<open>room_map\<close>.
\<close>

definition start_datamgr_thread ::
    "nat \<Rightarrow> int \<Rightarrow> (addr \<Rightarrow> sensor_t) \<Rightarrow> (rat \<Rightarrow> double) \<Rightarrow> sensor_data_t \<Rightarrow> 16 word \<Rightarrow> 16 word \<Rightarrow>
     string \<Rightarrow> sensor_data_t list \<Rightarrow> dm_heap \<Rightarrow> (string list \<times> dm_heap) res" where
  "start_datamgr_thread fp file_result raw rnd raw_data room_bfr sensor_bfr room_map ds h =
     bindE (FILE_OPEN_ERROR fp) (\<lambda>_.
     bindE (datamgr_parse_sensor_data raw rnd raw_data room_bfr sensor_bfr room_map ds h) (\<lambda>(ms, h1).
     bindE (FILE_CLOSE_ERROR file_result) (\<lambda>_. Inr (ms, h1))))"

lemma start_conmgr_thread_ended:
  "start_conmgr_thread opened got_memory os now raw raw_local prt n h rounds = Inr (Some c, st) \<longleftrightarrow>
     connmgr_listen opened got_memory os now raw raw_local (atoi prt) n h rounds = Inr (True, st) \<and> c = THREAD_ENDED"
  by (auto simp: start_conmgr_thread_def bindE_def split: sum.splits if_splits)

lemma start_datamgr_thread_ok:
  "fp \<noteq> 0 \<Longrightarrow> file_result \<noteq> -1 \<Longrightarrow>
   start_datamgr_thread fp file_result raw rnd raw_data r0 s0 room_map ds h =
     datamgr_parse_sensor_data raw rnd raw_data r0 s0 room_map ds h"
  by (cases "datamgr_parse_sensor_data raw rnd raw_data r0 s0 room_map ds h")
    (auto simp: start_datamgr_thread_def FILE_OPEN_ERROR_def FILE_CLOSE_ERROR_def)

text \<open>Without the file of the room map the process ends before the data manager has done anything.\<close>

lemma start_datamgr_thread_no_map:
  "start_datamgr_thread 0 file_result raw rnd raw_data r0 s0 room_map ds h = Inl (ExitCall 1)"
  by (simp add: start_datamgr_thread_def FILE_OPEN_ERROR_def EXIT_FAILURE_def)

text \<open>The storage manager whose first attempt to connect succeeds.\<close>

lemma start_storagemgr_thread_connected:
  assumes "init_connection sq True s = (True, s1)"
  shows "start_storagemgr_thread sq ds s =
     (False, 0, disconnect sq (s1\<lparr>db_world := run_statements sq (statements ds) (db_world s1)\<rparr>))"
proof -
  have "connect_loop sq 0 0 s = (True, 0, s1)" using assms by (simp add: connect_loop_unfold split: prod.split)
  then show ?thesis by (simp add: start_storagemgr_thread_def store_measurements_statements)
qed

end
